(* ===== verification/Prelude.thy ===== *)
theory Prelude
  imports Main "HOL-Library.Word" "HOL-Library.Char_ord" "HOL-Library.List_Lexorder"
    "HOL-Library.Sublist"
begin

text \<open>
  The prelude of the development: machine integers, Rust's \<open>Result\<close> and its
  \<open>?\<close> operator, the parts of Rust's string and integer library the sources use, and
  ordered maps (\<open>BTreeMap\<close>).

  A Rust \<open>String\<close> is its UTF-8 byte sequence, one HOL character per byte, so that
  \<open>len()\<close> is \<open>length\<close> and splitting at an ASCII character is splitting the list. A byte
  buffer (\<open>Vec<u8>\<close>, \<open>&[u8]\<close>) is a list of \<open>8 word\<close>. \<open>as_bytes\<close> relates
  the two.
\<close>

unbundle bit_operations_syntax

named_theorems wf_intros \<open>an operation keeps the invariant of its component\<close>
named_theorems str_simps \<open>the string library\<close>

section \<open>Machine types and results\<close>

type_synonym u8 = "8 word"
type_synonym u16 = "16 word"
type_synonym u32 = "32 word"
type_synonym u64 = "64 word"

abbreviation u64_max :: nat where
  "u64_max \<equiv> 18446744073709551615"

abbreviation i64_max :: int where
  "i64_max \<equiv> 9223372036854775807"

abbreviation i64_min :: int where
  "i64_min \<equiv> - 9223372036854775808"

definition as_bytes :: "string \<Rightarrow> u8 list" where
  "as_bytes s = map of_char s"

lemma length_as_bytes [simp]: "length (as_bytes s) = length s"
  by (simp add: as_bytes_def)

lemma as_bytes_Nil [simp]: "as_bytes [] = []"
  by (simp add: as_bytes_def)

lemma as_bytes_Cons [simp]: "as_bytes (c # s) = of_char c # as_bytes s"
  by (simp add: as_bytes_def)

lemma as_bytes_append [simp]: "as_bytes (s @ t) = as_bytes s @ as_bytes t"
  by (simp add: as_bytes_def)

lemma unat_of_char [simp]: "unat (of_char c :: u8) = of_char c"
proof -
  have "unat (of_nat (of_char c) :: u8) = of_char c"
    using nat_of_char_less_256 [of c] by (simp add: unat_of_nat)
  then show ?thesis by (simp only: of_nat_of_char)
qed

lemma of_char_u8_inject [simp]: "(of_char c :: u8) = of_char d \<longleftrightarrow> c = d"
proof
  assume "(of_char c :: u8) = of_char d"
  then have "unat (of_char c :: u8) = unat (of_char d :: u8)" by simp
  then show "c = d" by simp
qed simp

lemma as_bytes_inject [simp]: "as_bytes s = as_bytes t \<longleftrightarrow> s = t"
  unfolding as_bytes_def by (rule inj_map_eq_map) (simp add: inj_def)

text \<open>Rust's \<open>Result\<close> is the sum type with the error on the left; \<open>?\<close> is \<open>rbind\<close>.\<close>

definition rbind :: "'e + 'a \<Rightarrow> ('a \<Rightarrow> 'e + 'b) \<Rightarrow> 'e + 'b" where
  "rbind r k = (case r of Inl e \<Rightarrow> Inl e | Inr x \<Rightarrow> k x)"

lemma rbind_simps [simp]:
  "rbind (Inl e) k = Inl e"
  "rbind (Inr x) k = k x"
  by (simp_all add: rbind_def)


lemma rbind_eq_Inr_iff: "rbind r k = Inr y \<longleftrightarrow> (\<exists>x. r = Inr x \<and> k x = Inr y)"
  by (cases r) auto

lemma rbind_eq_Inl_iff: "rbind r k = Inl e \<longleftrightarrow> r = Inl e \<or> (\<exists>x. r = Inr x \<and> k x = Inl e)"
  by (cases r) auto

lemmas rbind_iffs = rbind_eq_Inr_iff rbind_eq_Inl_iff

definition map_err :: "('e \<Rightarrow> 'f) \<Rightarrow> 'e + 'a \<Rightarrow> 'f + 'a" where
  "map_err f r = (case r of Inl e \<Rightarrow> Inl (f e) | Inr x \<Rightarrow> Inr x)"

lemma map_err_simps [simp]:
  "map_err f (Inl e) = Inl (f e)"
  "map_err f (Inr x) = Inr x"
  by (simp_all add: map_err_def)

lemma map_err_eq_Inr_iff [simp]: "map_err f r = Inr x \<longleftrightarrow> r = Inr x"
  by (cases r) auto

definition ok_or :: "'e \<Rightarrow> 'a option \<Rightarrow> 'e + 'a" where
  "ok_or e v = (case v of None \<Rightarrow> Inl e | Some x \<Rightarrow> Inr x)"

lemma ok_or_simps [simp]:
  "ok_or e None = Inl e"
  "ok_or e (Some x) = Inr x"
  by (simp_all add: ok_or_def)

definition ok :: "'e + 'a \<Rightarrow> 'a option" where
  "ok r = (case r of Inl e \<Rightarrow> None | Inr x \<Rightarrow> Some x)"

lemma ok_simps [simp]: "ok (Inl e) = None" "ok (Inr x) = Some x"
  by (simp_all add: ok_def)

lemma ok_eq_Some_iff [simp]: "ok r = Some x \<longleftrightarrow> r = Inr x"
  by (cases r) auto

text \<open>A fallible fold: a \<open>for\<close> loop whose body uses \<open>?\<close>.\<close>

fun foldr_res :: "('s \<Rightarrow> 'a \<Rightarrow> 'e + 's) \<Rightarrow> 's \<Rightarrow> 'a list \<Rightarrow> 'e + 's" where
  "foldr_res f s [] = Inr s"
| "foldr_res f s (x # xs) = rbind (f s x) (\<lambda>s'. foldr_res f s' xs)"

lemma foldr_res_append:
  "foldr_res f s (xs @ ys) = rbind (foldr_res f s xs) (\<lambda>s'. foldr_res f s' ys)"
proof (induction xs arbitrary: s)
  case (Cons x xs)
  then show ?case by (cases "f s x") auto
qed simp

lemma foldr_res_invariant:
  assumes "foldr_res f s xs = Inr t" and "P s"
    and "\<And>s x s'. x \<in> set xs \<Longrightarrow> P s \<Longrightarrow> f s x = Inr s' \<Longrightarrow> P s'"
  shows "P t"
  using assms
proof (induction xs arbitrary: s)
  case (Cons x xs)
  then obtain s' where s': "f s x = Inr s'" "foldr_res f s' xs = Inr t"
    by (auto simp: rbind_iffs)
  have "P s'" using Cons.prems(3) [of x s s'] Cons.prems(2) s'(1) by simp
  then show ?case
    using Cons.prems(3) by (intro Cons.IH [OF s'(2)]) auto
qed simp

section \<open>Searching lists\<close>

text \<open>\<open>Iterator::position\<close>.\<close>

fun position :: "('a \<Rightarrow> bool) \<Rightarrow> 'a list \<Rightarrow> nat option" where
  "position P [] = None"
| "position P (x # xs) = (if P x then Some 0 else map_option Suc (position P xs))"

lemma position_None: "position P xs = None \<longleftrightarrow> (\<forall>x \<in> set xs. \<not> P x)"
  by (induction xs) auto

lemma position_SomeD:
  "position P xs = Some i \<Longrightarrow> i < length xs \<and> P (xs ! i) \<and> (\<forall>x \<in> set (take i xs). \<not> P x)"
  by (induction xs arbitrary: i) (auto split: if_splits)

lemma position_append:
  "position P (xs @ ys) =
     (case position P xs of Some i \<Rightarrow> Some i | None \<Rightarrow> map_option (\<lambda>i. length xs + i) (position P ys))"
  by (induction xs; cases "position P ys") (auto split: option.splits)

lemma position_prefix: "position P xs = Some i \<Longrightarrow> prefix xs ys \<Longrightarrow> position P ys = Some i"
  by (auto simp: prefix_def position_append)

section \<open>Strings\<close>

fun split_once :: "char \<Rightarrow> string \<Rightarrow> (string \<times> string) option" where
  "split_once c [] = None"
| "split_once c (x # xs) =
     (if x = c then Some ([], xs)
      else case split_once c xs of None \<Rightarrow> None | Some (a, b) \<Rightarrow> Some (x # a, b))"

lemma split_once_None [str_simps]: "split_once c s = None \<longleftrightarrow> c \<notin> set s"
  by (induction s) (auto split: option.splits)

lemma split_once_Some: "split_once c s = Some (a, b) \<Longrightarrow> s = a @ c # b \<and> c \<notin> set a"
  by (induction s arbitrary: a b) (auto split: option.splits if_splits)

lemma split_once_append [str_simps]: "c \<notin> set a \<Longrightarrow> split_once c (a @ c # b) = Some (a, b)"
  by (induction a) auto

definition rsplit_once :: "char \<Rightarrow> string \<Rightarrow> (string \<times> string) option" where
  "rsplit_once c s = (case split_once c (rev s) of None \<Rightarrow> None | Some (a, b) \<Rightarrow> Some (rev b, rev a))"

lemma rsplit_once_None [str_simps]: "rsplit_once c s = None \<longleftrightarrow> c \<notin> set s"
  using split_once_None [of c "rev s"] by (auto simp: rsplit_once_def split: option.splits)

lemma rsplit_once_Some: "rsplit_once c s = Some (a, b) \<Longrightarrow> s = a @ c # b \<and> c \<notin> set b"
proof -
  assume "rsplit_once c s = Some (a, b)"
  then have "split_once c (rev s) = Some (rev b, rev a)"
    by (auto simp: rsplit_once_def split: option.splits)
  then have "rev s = rev b @ c # rev a \<and> c \<notin> set b"
    by (auto dest!: split_once_Some)
  then have "rev (rev s) = rev (rev b @ c # rev a)" and "c \<notin> set b" by auto
  then show ?thesis by simp
qed

lemma rsplit_once_append [str_simps]: "c \<notin> set b \<Longrightarrow> rsplit_once c (a @ c # b) = Some (a, b)"
  by (simp add: rsplit_once_def str_simps)

text \<open>\<open>str::split(c)\<close>: always at least one piece.\<close>

fun split_on :: "char \<Rightarrow> string \<Rightarrow> string list" where
  "split_on c [] = [[]]"
| "split_on c (x # xs) =
     (if x = c then [] # split_on c xs
      else case split_on c xs of [] \<Rightarrow> [[x]] | p # ps \<Rightarrow> (x # p) # ps)"

lemma split_on_neq_Nil [simp]: "split_on c s \<noteq> []"
  by (induction s) (auto split: list.splits)

definition join_with :: "string \<Rightarrow> string list \<Rightarrow> string" where
  "join_with sep ps = concat (if ps = [] then [] else hd ps # map (\<lambda>p. sep @ p) (tl ps))"

lemma join_with_simps [simp]:
  "join_with sep [] = []"
  "join_with sep [p] = p"
  "join_with sep (p # q # ps) = p @ sep @ join_with sep (q # ps)"
  by (simp_all add: join_with_def)

lemma join_with_Cons: "ps \<noteq> [] \<Longrightarrow> join_with sep (p # ps) = p @ sep @ join_with sep ps"
  by (cases ps) simp_all

lemma join_split_on [str_simps]: "join_with [c] (split_on c s) = s"
proof (induction s)
  case (Cons x s)
  then show ?case
    by (cases "split_on c s"; cases "tl (split_on c s)") (auto simp: join_with_Cons)
qed simp

lemma split_on_no_sep: "p \<in> set (split_on c s) \<Longrightarrow> c \<notin> set p"
  by (induction s arbitrary: p) (auto split: list.splits if_splits)

text \<open>
  \<open>str::trim\<close> strips Unicode white space; on UTF-8 bytes these are the byte sequences
  below, and since UTF-8 is self-synchronising a white-space character at the end of a
  string is one of them as a suffix.
\<close>

definition white_space :: "string list" where
  "white_space =
     map (map char_of)
       ([[0x09 :: nat], [0x0A], [0x0B], [0x0C], [0x0D], [0x20], [0xC2, 0x85], [0xC2, 0xA0],
         [0xE1, 0x9A, 0x80]] @ map (\<lambda>i. [0xE2, 0x80, 0x80 + i]) [0, 1, 2, 3, 4, 5, 6, 7, 8, 9, 10] @
        [[0xE2, 0x80, 0xA8], [0xE2, 0x80, 0xA9], [0xE2, 0x80, 0xAF], [0xE2, 0x81, 0x9F],
         [0xE3, 0x80, 0x80]])"

fun strip_any :: "nat \<Rightarrow> string list \<Rightarrow> string \<Rightarrow> string" where
  "strip_any 0 ws s = s"
| "strip_any (Suc n) ws s =
     (case find (\<lambda>w. prefix w s) ws of None \<Rightarrow> s | Some w \<Rightarrow> strip_any n ws (drop (length w) s))"

text \<open>Every round strips at least one byte, so \<open>length s\<close> rounds strip everything.\<close>

definition trim_start :: "string \<Rightarrow> string" where
  "trim_start s = strip_any (length s) white_space s"

definition trim_end :: "string \<Rightarrow> string" where
  "trim_end s = rev (strip_any (length s) (map rev white_space) (rev s))"

definition trim :: "string \<Rightarrow> string" where
  "trim s = trim_end (trim_start s)"

definition starts_with :: "string \<Rightarrow> string \<Rightarrow> bool" where
  "starts_with s p = prefix p s"

definition ends_with :: "string \<Rightarrow> string \<Rightarrow> bool" where
  "ends_with s p = suffix p s"

definition to_ascii_lower :: "char \<Rightarrow> char" where
  "to_ascii_lower c =
     (if CHR ''A'' \<le> c \<and> c \<le> CHR ''Z'' then char_of ((of_char c :: nat) + 32) else c)"

definition eq_ignore_ascii_case :: "string \<Rightarrow> string \<Rightarrow> bool" where
  "eq_ignore_ascii_case s t = (map to_ascii_lower s = map to_ascii_lower t)"

definition is_ascii_digit :: "char \<Rightarrow> bool" where
  "is_ascii_digit c = (CHR ''0'' \<le> c \<and> c \<le> CHR ''9'')"

definition is_ascii_alphanumeric :: "char \<Rightarrow> bool" where
  "is_ascii_alphanumeric c =
     (is_ascii_digit c \<or> CHR ''A'' \<le> c \<and> c \<le> CHR ''Z'' \<or> CHR ''a'' \<le> c \<and> c \<le> CHR ''z'')"


section \<open>UTF-8\<close>

text \<open>
  One step of the standard library's decoder (\<open>Utf8Chunks\<close>): whether the bytes start
  with a well-formed character, and how many bytes that character or the maximal ill-formed
  prefix has. Bytes past the end read as zero.
\<close>

definition is_cont :: "nat \<Rightarrow> bool" where
  "is_cont b = (0x80 \<le> b \<and> b \<le> 0xBF)"

definition byte_at :: "u8 list \<Rightarrow> nat \<Rightarrow> nat" where
  "byte_at bs i = (if i < length bs then unat (bs ! i) else 0)"

definition utf8_step :: "u8 list \<Rightarrow> bool \<times> nat" where
  "utf8_step bs =
     (let b0 = byte_at bs 0; b1 = byte_at bs 1 in
      if b0 < 0x80 then (True, 1)
      else if 0xC2 \<le> b0 \<and> b0 \<le> 0xDF then (if is_cont b1 then (True, 2) else (False, 1))
      else if 0xE0 \<le> b0 \<and> b0 \<le> 0xEF then
        (if (b0 = 0xE0 \<and> 0xA0 \<le> b1 \<or> b0 = 0xED \<and> b1 \<le> 0x9F \<or> b0 \<noteq> 0xE0 \<and> b0 \<noteq> 0xED) \<and> is_cont b1
         then if is_cont (byte_at bs 2) then (True, 3) else (False, 2)
         else (False, 1))
      else if 0xF0 \<le> b0 \<and> b0 \<le> 0xF4 then
        (if (b0 = 0xF0 \<and> 0x90 \<le> b1 \<or> b0 = 0xF4 \<and> b1 \<le> 0x8F \<or> b0 \<noteq> 0xF0 \<and> b0 \<noteq> 0xF4) \<and> is_cont b1
         then if is_cont (byte_at bs 2)
              then if is_cont (byte_at bs 3) then (True, 4) else (False, 3)
              else (False, 2)
         else (False, 1))
      else (False, 1))"

lemma utf8_step_pos [simp]: "0 < snd (utf8_step bs)"
  by (simp add: utf8_step_def Let_def)

definition as_string :: "u8 list \<Rightarrow> string" where
  "as_string bs = map (\<lambda>b. char_of (unat b)) bs"

function utf8_valid :: "u8 list \<Rightarrow> bool" where
  "utf8_valid bs =
     (if bs = [] then True
      else fst (utf8_step bs) \<and> utf8_valid (drop (snd (utf8_step bs)) bs))"
  by pat_completeness auto
termination by (relation "measure length") auto

function from_utf8_lossy :: "u8 list \<Rightarrow> string" where
  "from_utf8_lossy bs =
     (if bs = [] then []
      else (if fst (utf8_step bs) then as_string (take (snd (utf8_step bs)) bs)
            else map char_of [0xEF :: nat, 0xBF, 0xBD])
           @ from_utf8_lossy (drop (snd (utf8_step bs)) bs))"
  by pat_completeness auto
termination by (relation "measure length") auto

declare utf8_valid.simps [simp del] from_utf8_lossy.simps [simp del]

definition from_utf8 :: "u8 list \<Rightarrow> string option" where
  "from_utf8 bs = (if utf8_valid bs then Some (as_string bs) else None)"

lemma as_string_as_bytes [simp]: "as_string (as_bytes s) = s"
  by (simp add: as_string_def as_bytes_def comp_def)

lemma as_bytes_as_string [simp]: "as_bytes (as_string bs) = bs"
proof -
  have "of_char (char_of (unat b)) = b" for b :: u8
  proof -
    have "unat b < 256" using unsigned_less [of b, where ?'a = nat] by simp
    then have "unat (of_char (char_of (unat b)) :: u8) = unat b" by simp
    then show ?thesis by (simp only: word_unat_eq_iff)
  qed
  then show ?thesis by (simp add: as_string_def as_bytes_def comp_def)
qed

lemma as_string_append [simp]: "as_string (a @ b) = as_string a @ as_string b"
  by (simp add: as_string_def)

text \<open>Decoding leaves well-formed text alone.\<close>

lemma from_utf8_lossy_valid [str_simps]: "utf8_valid bs \<Longrightarrow> from_utf8_lossy bs = as_string bs"
proof (induction bs rule: utf8_valid.induct)
  case (1 bs)
  show ?case
  proof (cases "bs = []")
    case False
    with 1 have "from_utf8_lossy bs
        = as_string (take (snd (utf8_step bs)) bs) @ as_string (drop (snd (utf8_step bs)) bs)"
      by (subst from_utf8_lossy.simps) (simp add: utf8_valid.simps [of bs])
    then show ?thesis by (simp flip: as_string_append)
  qed (simp add: from_utf8_lossy.simps as_string_def)
qed

lemma utf8_valid_ascii_Cons [str_simps]: "unat b < 128 \<Longrightarrow> utf8_valid (b # bs) \<longleftrightarrow> utf8_valid bs"
  by (subst utf8_valid.simps) (simp add: utf8_step_def byte_at_def)

lemma utf8_valid_Nil [simp]: "utf8_valid []"
  by (simp add: utf8_valid.simps)

section \<open>Integers as text\<close>

text \<open>\<open>ParseIntError\<close> and the texts its \<open>Display\<close> prints.\<close>

datatype int_error = EmptyText | InvalidDigit | PosOverflow | NegOverflow

fun int_error_text :: "int_error \<Rightarrow> string" where
  "int_error_text EmptyText = ''cannot parse integer from empty string''"
| "int_error_text InvalidDigit = ''invalid digit found in string''"
| "int_error_text PosOverflow = ''number too large to fit in target type''"
| "int_error_text NegOverflow = ''number too small to fit in target type''"

definition digit_char :: "nat \<Rightarrow> char" where
  "digit_char d = char_of (48 + d)"

definition digit_value :: "char \<Rightarrow> nat" where
  "digit_value c = of_char c - 48"

lemma of_char_digit_char [simp]: "d < 10 \<Longrightarrow> (of_char (digit_char d) :: nat) = 48 + d"
  by (simp add: digit_char_def)

lemma is_ascii_digit_iff: "is_ascii_digit c \<longleftrightarrow> 48 \<le> (of_char c :: nat) \<and> (of_char c :: nat) \<le> 57"
  by (simp add: is_ascii_digit_def less_eq_char_def)

lemma is_ascii_digit_digit_char [simp]: "d < 10 \<Longrightarrow> is_ascii_digit (digit_char d)"
  by (simp add: is_ascii_digit_iff)

lemma digit_value_digit_char [simp]: "d < 10 \<Longrightarrow> digit_value (digit_char d) = d"
  by (simp add: digit_value_def)

lemma digit_value_less: "is_ascii_digit c \<Longrightarrow> digit_value c < 10"
  by (auto simp: is_ascii_digit_iff digit_value_def)

text \<open>
  The digit loop of \<open>from_str_radix\<close>: digits are read from the left, an invalid digit is
  reported before an overflow of the same position.
\<close>

fun parse_digits :: "int_error \<Rightarrow> nat \<Rightarrow> nat \<Rightarrow> string \<Rightarrow> int_error + nat" where
  "parse_digits over bound acc [] = Inr acc"
| "parse_digits over bound acc (c # cs) =
     (if \<not> is_ascii_digit c then Inl InvalidDigit
      else if bound < acc * 10 + digit_value c then Inl over
      else parse_digits over bound (acc * 10 + digit_value c) cs)"

definition parse_unsigned :: "nat \<Rightarrow> string \<Rightarrow> int_error + nat" where
  "parse_unsigned bound s =
     (case s of
        [] \<Rightarrow> Inl EmptyText
      | c # cs \<Rightarrow>
          if cs = [] \<and> (c = CHR ''+'' \<or> c = CHR ''-'') then Inl InvalidDigit
          else parse_digits PosOverflow bound 0 (if c = CHR ''+'' then cs else s))"

definition parse_i64 :: "string \<Rightarrow> int_error + int" where
  "parse_i64 s =
     (case s of
        [] \<Rightarrow> Inl EmptyText
      | c # cs \<Rightarrow>
          if cs = [] \<and> (c = CHR ''+'' \<or> c = CHR ''-'') then Inl InvalidDigit
          else if c = CHR ''-'' then
            rbind (parse_digits NegOverflow 9223372036854775808 0 cs) (\<lambda>n. Inr (- int n))
          else
            rbind (parse_digits PosOverflow 9223372036854775807 0 (if c = CHR ''+'' then cs else s))
              (\<lambda>n. Inr (int n)))"

definition parse_u16 :: "string \<Rightarrow> int_error + u16" where
  "parse_u16 s = rbind (parse_unsigned 65535 s) (\<lambda>n. Inr (of_nat n))"

definition parse_u32 :: "string \<Rightarrow> int_error + u32" where
  "parse_u32 s = rbind (parse_unsigned 4294967295 s) (\<lambda>n. Inr (of_nat n))"

fun show_nat :: "nat \<Rightarrow> string" where
  "show_nat n = (if n < 10 then [digit_char n] else show_nat (n div 10) @ [digit_char (n mod 10)])"

declare show_nat.simps [simp del]

definition show_int :: "int \<Rightarrow> string" where
  "show_int i = (if i < 0 then CHR ''-'' # show_nat (nat (- i)) else show_nat (nat i))"

lemma show_nat_digits: "c \<in> set (show_nat n) \<Longrightarrow> is_ascii_digit c"
proof (induction n rule: show_nat.induct)
  case (1 n)
  then show ?case by (subst (asm) (2) show_nat.simps) (auto split: if_splits)
qed

lemma show_nat_neq_Nil [simp]: "show_nat n \<noteq> []"
  by (subst show_nat.simps) simp

lemma parse_digits_append:
  "parse_digits e b a (s @ t) = rbind (parse_digits e b a s) (\<lambda>a'. parse_digits e b a' t)"
  by (induction s arbitrary: a) auto

lemma parse_digits_show_nat: "n \<le> b \<Longrightarrow> parse_digits e b 0 (show_nat n) = Inr n"
proof (induction n rule: show_nat.induct)
  case (1 n)
  show ?case
  proof (cases "n < 10")
    case True
    then show ?thesis using 1 by (subst show_nat.simps) simp
  next
    case False
    have "n div 10 * 10 + n mod 10 = n" by simp
    then show ?thesis using 1 False
      by (subst show_nat.simps) (simp add: parse_digits_append del: div_mult_mod_eq)
  qed
qed

lemma parse_digits_bound: "parse_digits e b a s = Inr n \<Longrightarrow> a \<le> b \<Longrightarrow> n \<le> b"
  by (induction s arbitrary: a) (auto split: if_splits)

lemma parse_digits_Inr_digits: "parse_digits e b a s = Inr n \<Longrightarrow> list_all is_ascii_digit s"
  by (induction s arbitrary: a) (auto split: if_splits)

lemma is_ascii_digit_neq [simp]:
  "\<not> is_ascii_digit CHR ''+''" "\<not> is_ascii_digit CHR ''-''" "\<not> is_ascii_digit CHR ''/''"
  "\<not> is_ascii_digit CHR '':''"
  by (simp_all add: is_ascii_digit_iff)

lemma hd_show_nat: "show_nat n = c # cs \<Longrightarrow> is_ascii_digit c"
  using show_nat_digits [of c n] by simp

lemma parse_unsigned_show_nat [str_simps]: "n \<le> b \<Longrightarrow> parse_unsigned b (show_nat n) = Inr n"
proof (cases "show_nat n")
  case (Cons c cs)
  moreover from Cons have "is_ascii_digit c" by (rule hd_show_nat)
  moreover assume "n \<le> b"
  ultimately show ?thesis using parse_digits_show_nat [of n b PosOverflow]
    by (auto simp: parse_unsigned_def)
qed simp

lemma parse_unsigned_bound: "parse_unsigned b s = Inr n \<Longrightarrow> n \<le> b"
  by (auto simp: parse_unsigned_def split: list.splits if_splits dest!: parse_digits_bound)

lemma parse_i64_bounds:
  assumes "parse_i64 s = Inr i"
  shows "i64_min \<le> i \<and> i \<le> i64_max"
  using assms
  by (auto simp: parse_i64_def rbind_iffs split: list.splits if_splits dest!: parse_digits_bound)

lemma parse_u16_show_nat [str_simps]: "parse_u16 (show_nat (unat w)) = Inr w"
proof -
  have "unat w < 65536" using unsigned_less [of w, where ?'a = nat] by simp
  then show ?thesis by (simp add: parse_u16_def str_simps)
qed

lemma show_nat_inject [simp]: "show_nat m = show_nat n \<longleftrightarrow> m = n"
proof
  assume "show_nat m = show_nat n"
  then have "parse_digits PosOverflow (max m n) 0 (show_nat m) = parse_digits PosOverflow (max m n) 0 (show_nat n)"
    by simp
  then show "m = n" by (simp add: parse_digits_show_nat)
qed simp

section \<open>Ordered maps\<close>

text \<open>
  What the sources rely on of \<open>std::collections::BTreeMap\<close>: \<open>insert\<close> overwrites the value
  of an equal key, \<open>get\<close> finds it, and iteration is in strictly ascending key order. The
  locale states that contract; loops that fill a map are reasoned about once inside it.
\<close>

locale ordered_map =
  fixes empty :: 'm
    and insert :: "'k::linorder \<Rightarrow> 'v \<Rightarrow> 'm \<Rightarrow> 'm"
    and lookup :: "'m \<Rightarrow> 'k \<rightharpoonup> 'v"
    and entries :: "'m \<Rightarrow> ('k \<times> 'v) list"
    and inv :: "'m \<Rightarrow> bool"
  assumes inv_empty: "inv empty"
    and inv_insert: "inv m \<Longrightarrow> inv (insert k v m)"
    and lookup_empty: "lookup empty = Map.empty"
    and lookup_insert: "inv m \<Longrightarrow> lookup (insert k v m) = (lookup m)(k \<mapsto> v)"
    and entries_sorted: "inv m \<Longrightarrow> sorted_wrt (<) (map fst (entries m))"
    and entries_lookup: "inv m \<Longrightarrow> map_of (entries m) = lookup m"
begin

definition insert_all :: "('k \<times> 'v) list \<Rightarrow> 'm \<Rightarrow> 'm" where
  "insert_all kvs m = fold (\<lambda>(k, v). insert k v) kvs m"

lemma insert_all_simps: "insert_all [] m = m" "insert_all ((k, v) # kvs) m = insert_all kvs (insert k v m)"
  by (simp_all add: insert_all_def)

lemma inv_insert_all: "inv m \<Longrightarrow> inv (insert_all kvs m)"
  by (induction kvs arbitrary: m) (auto simp: insert_all_simps inv_insert)

text \<open>After a loop of inserts the last binding of a key wins.\<close>

lemma lookup_insert_all: "inv m \<Longrightarrow> lookup (insert_all kvs m) = lookup m ++ map_of (rev kvs)"
proof (induction kvs arbitrary: m)
  case (Cons kv kvs)
  then show ?case
    by (cases kv) (auto simp: insert_all_simps inv_insert lookup_insert map_add_def fun_eq_iff
        split: option.splits)
qed (simp add: insert_all_simps)

lemma entries_distinct: "inv m \<Longrightarrow> distinct (map fst (entries m))"
  using entries_sorted strict_sorted_iff by blast

lemma entries_iff: "inv m \<Longrightarrow> (k, v) \<in> set (entries m) \<longleftrightarrow> lookup m k = Some v"
  by (metis entries_distinct entries_lookup map_of_eq_Some_iff)

lemma first_entry_least:
  assumes "inv m" and "entries m = (k, v) # kvs" and "lookup m k' \<noteq> None"
  shows "k \<le> k'"
proof -
  from assms(3) obtain v' where "lookup m k' = Some v'" by auto
  then have "(k', v') \<in> set (entries m)" by (simp add: entries_iff assms(1))
  with entries_sorted [OF assms(1)] assms(2) show ?thesis by (force simp: image_iff)
qed

text \<open>The entries are determined by the bindings: two maps that agree iterate alike.\<close>

lemma entries_ext:
  assumes "inv m" and "inv m'" and "lookup m = lookup m'"
  shows "entries m = entries m'"
proof (rule map_sorted_distinct_set_unique [of fst])
  show "inj_on fst (set (entries m) \<union> set (entries m'))"
    using assms by (auto simp: inj_on_def entries_iff)
  show "set (entries m) = set (entries m')" using assms by (auto simp: entries_iff)
qed (use assms in \<open>auto simp: entries_distinct strict_sorted_imp_sorted entries_sorted\<close>)

end

text \<open>The maps of the model: association lists in strictly ascending key order.\<close>

type_synonym ('k, 'v) btree_map = "('k \<times> 'v) list"

definition bt_insert :: "'k::linorder \<Rightarrow> 'v \<Rightarrow> ('k, 'v) btree_map \<Rightarrow> ('k, 'v) btree_map" where
  "bt_insert k v m = takeWhile (\<lambda>p. fst p < k) m @ (k, v) # dropWhile (\<lambda>p. fst p \<le> k) m"

abbreviation bt_get :: "('k, 'v) btree_map \<Rightarrow> 'k \<Rightarrow> 'v option" where
  "bt_get \<equiv> map_of"

definition bt_contains :: "'k \<Rightarrow> ('k, 'v) btree_map \<Rightarrow> bool" where
  "bt_contains k m = (k \<in> set (map fst m))"

definition bt_wf :: "('k::linorder, 'v) btree_map \<Rightarrow> bool" where
  "bt_wf m = sorted_wrt (<) (map fst m)"

lemma bt_insert_simps [simp]:
  "bt_insert k v [] = [(k, v)]"
  "k < k' \<Longrightarrow> bt_insert k v ((k', v') # m) = (k, v) # (k', v') # m"
  "bt_insert k v ((k, v') # m) = (k, v) # dropWhile (\<lambda>p. fst p \<le> k) m"
  "k' < k \<Longrightarrow> bt_insert k v ((k', v') # m) = (k', v') # bt_insert k v m"
  by (auto simp: bt_insert_def)

lemma bt_wf_simps [simp]:
  "bt_wf []"
  "bt_wf ((k, v) # m) \<longleftrightarrow> (\<forall>k' \<in> fst ` set m. k < k') \<and> bt_wf m"
  by (auto simp: bt_wf_def)

lemma dropWhile_bt_wf: "bt_wf ((k, v) # m) \<Longrightarrow> dropWhile (\<lambda>p. fst p \<le> k) m = m"
  by (cases m) auto

lemma fst_bt_insert: "bt_wf m \<Longrightarrow> fst ` set (bt_insert k v m) = insert k (fst ` set m)"
proof (induction m)
  case (Cons p m)
  obtain k' v' where p: "p = (k', v')" by (cases p)
  show ?case using Cons unfolding p
    by (cases k k' rule: linorder_cases) (auto simp: dropWhile_bt_wf)
qed simp

lemma bt_wf_insert [wf_intros]: "bt_wf m \<Longrightarrow> bt_wf (bt_insert k v m)"
proof (induction m)
  case (Cons p m)
  obtain k' v' where p: "p = (k', v')" by (cases p)
  show ?case using Cons unfolding p
    by (cases k k' rule: linorder_cases) (auto simp: dropWhile_bt_wf fst_bt_insert dest: less_trans)
qed simp

lemma bt_get_insert [simp]: "bt_wf m \<Longrightarrow> map_of (bt_insert k v m) = (map_of m)(k \<mapsto> v)"
proof (induction m)
  case (Cons p m)
  obtain k' v' where p: "p = (k', v')" by (cases p)
  show ?case using Cons unfolding p
    by (cases k k' rule: linorder_cases) (auto simp: dropWhile_bt_wf)
qed simp

interpretation bt: ordered_map "[]" bt_insert map_of "\<lambda>m. m" bt_wf
  by unfold_locales (simp_all add: bt_wf_insert, simp add: bt_wf_def)

lemma bt_contains_iff: "bt_contains k m \<longleftrightarrow> map_of m k \<noteq> None"
  by (simp add: bt_contains_def map_of_eq_None_iff)

section \<open>Durations\<close>

text \<open>A \<open>std::time::Duration\<close> is its number of nanoseconds.\<close>

type_synonym duration = nat

definition from_secs :: "nat \<Rightarrow> duration" where
  "from_secs n = n * 1000000000"

definition from_millis :: "nat \<Rightarrow> duration" where
  "from_millis n = n * 1000000"

text \<open>The \<open>Debug\<close> text of a duration: the largest unit that fits, the fraction without trailing zeros.\<close>

fun frac_digits :: "nat \<Rightarrow> nat \<Rightarrow> nat \<Rightarrow> string" where
  "frac_digits 0 n d = []"
| "frac_digits (Suc k) n d = (if n = 0 then [] else digit_char (n div d) # frac_digits k (n mod d) (d div 10))"

definition fmt_decimal :: "nat \<Rightarrow> nat \<Rightarrow> nat \<Rightarrow> string \<Rightarrow> string" where
  "fmt_decimal int_part frac div_by unit =
     show_nat int_part @ (if frac = 0 then [] else CHR ''.'' # frac_digits 9 frac div_by) @ unit"

definition duration_debug :: "duration \<Rightarrow> string" where
  "duration_debug d =
     (let secs = d div 1000000000; nanos = d mod 1000000000 in
      if 0 < secs then fmt_decimal secs nanos 100000000 ''s''
      else if 1000000 \<le> nanos then fmt_decimal (nanos div 1000000) (nanos mod 1000000) 100000 ''ms''
      else if 1000 \<le> nanos then
        fmt_decimal (nanos div 1000) (nanos mod 1000) 100 (map char_of [0xC2 :: nat, 0xB5, 0x73])
      else fmt_decimal nanos 0 1 ''ns'')"

end
