(* ===== verification/Ports.thy ===== *)
theory Ports
  imports Prelude
begin

text \<open>
  \<open>src/core/ports.rs\<close>: container ports with their protocol, their text form, and the
  port mappings of a running container (two ordered maps, IPv4 and IPv6).
\<close>

section \<open>Container ports\<close>

datatype container_port = Tcp u16 | Udp u16 | Sctp u16

text \<open>The derived order: by constructor, then by number.\<close>

fun port_rank :: "container_port \<Rightarrow> nat" where
  "port_rank (Tcp _) = 0"
| "port_rank (Udp _) = 1"
| "port_rank (Sctp _) = 2"

fun as_u16 :: "container_port \<Rightarrow> u16" where
  "as_u16 (Tcp p) = p"
| "as_u16 (Udp p) = p"
| "as_u16 (Sctp p) = p"

fun port_as_str :: "container_port \<Rightarrow> string" where
  "port_as_str (Tcp _) = ''tcp''"
| "port_as_str (Udp _) = ''udp''"
| "port_as_str (Sctp _) = ''sctp''"

instantiation container_port :: linorder
begin

definition less_eq_container_port :: "container_port \<Rightarrow> container_port \<Rightarrow> bool" where
  "less_eq_container_port p q \<longleftrightarrow>
     port_rank p < port_rank q \<or> port_rank p = port_rank q \<and> as_u16 p \<le> as_u16 q"

definition less_container_port :: "container_port \<Rightarrow> container_port \<Rightarrow> bool" where
  "less_container_port p q \<longleftrightarrow>
     port_rank p < port_rank q \<or> port_rank p = port_rank q \<and> as_u16 p < as_u16 q"

instance
proof
  fix x y z :: container_port
  show "x < y \<longleftrightarrow> x \<le> y \<and> \<not> y \<le> x"
    by (auto simp: less_eq_container_port_def less_container_port_def)
  show "x \<le> x" by (simp add: less_eq_container_port_def)
  show "x \<le> y \<Longrightarrow> y \<le> z \<Longrightarrow> x \<le> z" by (auto simp: less_eq_container_port_def)
  show "x \<le> y \<Longrightarrow> y \<le> x \<Longrightarrow> x = y"
    by (cases x; cases y) (auto simp: less_eq_container_port_def)
  show "x \<le> y \<or> y \<le> x" by (auto simp: less_eq_container_port_def)
qed

end

definition into_container_port :: "u16 \<Rightarrow> container_port" where
  "into_container_port p = Tcp p"

fun port_to_string :: "container_port \<Rightarrow> string" where
  "port_to_string (Tcp p) = show_nat (unat p) @ ''/tcp''"
| "port_to_string (Udp p) = show_nat (unat p) @ ''/udp''"
| "port_to_string (Sctp p) = show_nat (unat p) @ ''/sctp''"

definition port_from_str :: "string \<Rightarrow> string + container_port" where
  "port_from_str s =
     (let (port, proto) = (case rsplit_once CHR ''/'' s of Some (p, pr) \<Rightarrow> (p, pr) | None \<Rightarrow> (s, ''tcp''))
      in if port = [] \<or> \<not> list_all is_ascii_digit port then Inl (''invalid port: '' @ port)
         else rbind (map_err int_error_text (parse_u16 port)) (\<lambda>n.
           if proto = ''tcp'' then Inr (Tcp n)
           else if proto = ''udp'' then Inr (Udp n)
           else if proto = ''sctp'' then Inr (Sctp n)
           else Inl (''unknown protocol: '' @ proto)))"

lemma port_to_string_eq: "port_to_string p = show_nat (unat (as_u16 p)) @ CHR ''/'' # port_as_str p"
  by (cases p) simp_all

lemma port_as_str_no_slash [simp]: "CHR ''/'' \<notin> set (port_as_str p)"
  by (cases p) simp_all

lemma list_all_show_nat [simp]: "list_all is_ascii_digit (show_nat n)"
  using show_nat_digits by (auto simp: list_all_iff)

section \<open>Port mappings\<close>

record ports =
  ipv4_mapping :: "(container_port, u16) btree_map"
  ipv6_mapping :: "(container_port, u16) btree_map"

definition ports_default :: ports where
  "ports_default = \<lparr>ipv4_mapping = [], ipv6_mapping = []\<rparr>"

definition map_to_host_port_ipv4 :: "ports \<Rightarrow> container_port \<Rightarrow> u16 option" where
  "map_to_host_port_ipv4 ps p = bt_get (ipv4_mapping ps) p"

definition map_to_host_port_ipv6 :: "ports \<Rightarrow> container_port \<Rightarrow> u16 option" where
  "map_to_host_port_ipv6 ps p = bt_get (ipv6_mapping ps) p"

definition first_key :: "('k \<times> 'v) list \<Rightarrow> 'k option" where
  "first_key m = (case m of [] \<Rightarrow> None | (k, _) # _ \<Rightarrow> Some k)"

definition first_container_port :: "ports \<Rightarrow> container_port option" where
  "first_container_port ps =
     (case first_key (ipv4_mapping ps) of
        Some p \<Rightarrow> Some p
      | None \<Rightarrow> first_key (ipv6_mapping ps))"

definition add_mapping :: "ports \<Rightarrow> container_port \<Rightarrow> u16 \<Rightarrow> ports" where
  "add_mapping ps cp hp = ps\<lparr>ipv4_mapping := bt_insert cp hp (ipv4_mapping ps)\<rparr>"

definition add_ipv6_mapping :: "ports \<Rightarrow> container_port \<Rightarrow> u16 \<Rightarrow> ports" where
  "add_ipv6_mapping ps cp hp = ps\<lparr>ipv6_mapping := bt_insert cp hp (ipv6_mapping ps)\<rparr>"

definition ports_wf :: "ports \<Rightarrow> bool" where
  "ports_wf ps \<longleftrightarrow> bt_wf (ipv4_mapping ps) \<and> bt_wf (ipv6_mapping ps)"

lemma ports_wf_default [wf_intros]: "ports_wf ports_default"
  by (simp add: ports_wf_def ports_default_def)

lemma ports_wf_add_mapping [wf_intros]: "ports_wf ps \<Longrightarrow> ports_wf (add_mapping ps cp hp)"
  by (simp add: ports_wf_def add_mapping_def wf_intros)

lemma ports_wf_add_ipv6_mapping [wf_intros]: "ports_wf ps \<Longrightarrow> ports_wf (add_ipv6_mapping ps cp hp)"
  by (simp add: ports_wf_def add_ipv6_mapping_def wf_intros)

lemma map_to_host_port_add [simp]:
  assumes "ports_wf ps"
  shows "map_to_host_port_ipv4 (add_mapping ps cp hp) = (map_to_host_port_ipv4 ps)(cp \<mapsto> hp)"
    and "map_to_host_port_ipv6 (add_mapping ps cp hp) = map_to_host_port_ipv6 ps"
    and "map_to_host_port_ipv6 (add_ipv6_mapping ps cp hp) = (map_to_host_port_ipv6 ps)(cp \<mapsto> hp)"
    and "map_to_host_port_ipv4 (add_ipv6_mapping ps cp hp) = map_to_host_port_ipv4 ps"
  using assms
  by (auto simp: map_to_host_port_ipv4_def map_to_host_port_ipv6_def add_mapping_def
      add_ipv6_mapping_def ports_wf_def fun_eq_iff)

lemma first_key_least:
  assumes "bt_wf m" and "first_key m = Some k"
  shows "k \<in> dom (map_of m)" and "\<forall>k' \<in> dom (map_of m). k \<le> k'"
proof -
  from assms(2) obtain v kvs where m: "m = (k, v) # kvs"
    by (auto simp: first_key_def split: list.splits)
  then show "k \<in> dom (map_of m)" by auto
  show "\<forall>k' \<in> dom (map_of m). k \<le> k'"
    using bt.first_entry_least [OF assms(1) m] by auto
qed

lemma first_key_None [simp]: "first_key m = None \<longleftrightarrow> m = []"
  by (auto simp: first_key_def split: list.splits)

section \<open>Properties\<close>

text \<open>
  The text form of a container port reads back as the same port, for every protocol and
  number: \<open>FromStr\<close> inverts \<open>Display\<close>.
\<close>

lemma port_from_str_to_string: "port_from_str (port_to_string p) = Inr p"
  by (cases p) (simp_all add: port_from_str_def str_simps Let_def)

text \<open>
  Without an explicit port the HTTP wait uses the least mapped port in the order
  \<open>Tcp < Udp < Sctp\<close> (then by number) of the IPv4 map, and the IPv6 map is consulted only when
  no IPv4 port is mapped.
\<close>

lemma first_container_port_least:
  assumes "ports_wf ps" and "first_container_port ps = Some p"
  shows "(p \<in> dom (map_to_host_port_ipv4 ps) \<and> (\<forall>q \<in> dom (map_to_host_port_ipv4 ps). p \<le> q)) \<or>
         (dom (map_to_host_port_ipv4 ps) = {} \<and>
          p \<in> dom (map_to_host_port_ipv6 ps) \<and> (\<forall>q \<in> dom (map_to_host_port_ipv6 ps). p \<le> q))"
proof (cases "first_key (ipv4_mapping ps)")
  case None
  with assms show ?thesis
    using first_key_least [of "ipv6_mapping ps" p]
    by (auto simp: first_container_port_def map_to_host_port_ipv4_def map_to_host_port_ipv6_def ports_wf_def)
next
  case (Some q)
  with assms show ?thesis
    using first_key_least [of "ipv4_mapping ps" p]
    by (auto simp: first_container_port_def map_to_host_port_ipv4_def ports_wf_def)
qed

end
