(* ===== verification/Errors.thy ===== *)
theory Errors
  imports Ports
begin

text \<open>
  \<open>src/core/error.rs\<close> and the error type of \<open>src/core/wait/http_strategy.rs\<close>: the error
  values of the library, their conversions and the texts they print. A boxed
  \<open>dyn Error\<close> is represented by the text it prints.
\<close>

datatype io_kind = NotFound | TimedOut | InvalidData | Interrupted | OutOfMemory | OtherKind

datatype io_error = IoError io_kind string

fun io_kind_of :: "io_error \<Rightarrow> io_kind" where
  "io_kind_of (IoError k _) = k"

fun io_text :: "io_error \<Rightarrow> string" where
  "io_text (IoError _ m) = m"

abbreviation io_other :: "string \<Rightarrow> io_error" where
  "io_other m \<equiv> IoError OtherKind m"

datatype client_error =
  XpcConnect
| Xpc string
| XpcTimeout
| ImageNotFound string
| ContainerNotFound string
| ContainerPathNotFound string
| Configuration string
| Json string
| ClientOther string

datatype exec_error = ExitCodeMismatch int int

datatype http_wait_error = NoExposedPortsForHttpWait | NoResponseMatcher | RequestBuild string

datatype wait_log_error = EndOfStream "u8 list" | WaitLogIo io_error

datatype wait_container_error =
  WaitLog wait_log_error
| HttpWait http_wait_error
| HealthCheckNotConfigured string
| Unhealthy string
| StartupTimeout string duration
| UnexpectedExitCode int "int option"

datatype error =
  Client client_error
| WaitContainer wait_container_error
| PortNotExposed string container_port
| Exec exec_error
| Io io_error
| Other string

definition MAX_END_OF_STREAM_PREVIEW_BYTES :: nat where
  "MAX_END_OF_STREAM_PREVIEW_BYTES = 1024"

fun client_error_text :: "client_error \<Rightarrow> string" where
  "client_error_text XpcConnect = ''XPC connect failed''"
| "client_error_text (Xpc s) = ''XPC error: '' @ s"
| "client_error_text XpcTimeout = ''XPC request timed out''"
| "client_error_text (ImageNotFound s) = ''image not found: '' @ s"
| "client_error_text (ContainerNotFound s) = ''container not found: '' @ s"
| "client_error_text (ContainerPathNotFound s) = ''container path not found: '' @ s"
| "client_error_text (Configuration s) = ''configuration error: '' @ s"
| "client_error_text (Json s) = ''JSON parse error: '' @ s"
| "client_error_text (ClientOther s) = s"

fun exec_error_text :: "exec_error \<Rightarrow> string" where
  "exec_error_text (ExitCodeMismatch expected actual) =
     ''exec process exited with code '' @ show_int actual @ '', expected '' @ show_int expected"

fun http_wait_error_text :: "http_wait_error \<Rightarrow> string" where
  "http_wait_error_text NoExposedPortsForHttpWait = ''container has no exposed ports''"
| "http_wait_error_text NoResponseMatcher =
     ''no response matcher provided for HTTP wait strategy (use with_expected_status_code or with_response_matcher)''"
| "http_wait_error_text (RequestBuild m) = m"

fun wait_log_error_text :: "wait_log_error \<Rightarrow> string" where
  "wait_log_error_text (EndOfStream bytes) =
     ''end of stream reached before finding message (collected '' @ show_nat (length bytes)
     @ '' bytes); log preview: ''
     @ from_utf8_lossy (drop (length bytes - MAX_END_OF_STREAM_PREVIEW_BYTES) bytes)"
| "wait_log_error_text (WaitLogIo e) = ''I/O error: '' @ io_text e"

fun wait_container_error_text :: "wait_container_error \<Rightarrow> string" where
  "wait_container_error_text (WaitLog e) = ''failed to wait for container log: '' @ wait_log_error_text e"
| "wait_container_error_text (HttpWait e) = http_wait_error_text e"
| "wait_container_error_text (HealthCheckNotConfigured s) =
     ''healthcheck is not configured for container: '' @ s"
| "wait_container_error_text (Unhealthy s) = ''container is unhealthy: '' @ s"
| "wait_container_error_text (StartupTimeout i t) =
     ''container startup timeout: container '' @ i @ '' did not become ready within '' @ duration_debug t"
| "wait_container_error_text (UnexpectedExitCode expected (Some actual)) =
     ''container exited with unexpected code: expected '' @ show_int expected @ '', actual '' @ show_int actual"
| "wait_container_error_text (UnexpectedExitCode expected None) =
     ''container exited, but its exit code could not be confirmed: expected '' @ show_int expected"

fun error_text :: "error \<Rightarrow> string" where
  "error_text (Client e) = ''client error: '' @ client_error_text e"
| "error_text (WaitContainer e) = ''container is not ready: '' @ wait_container_error_text e"
| "error_text (PortNotExposed i p) =
     ''container '' @ [CHR 0x27] @ i @ [CHR 0x27] @ '' does not expose port '' @ port_to_string p"
| "error_text (Exec e) = ''exec operation failed: '' @ exec_error_text e"
| "error_text (Io e) = ''I/O error: '' @ io_text e"
| "error_text (Other e) = ''other error: '' @ e"

text \<open>\<open>std::error::Error::source\<close>: the text of the wrapped error, where there is one.\<close>

fun error_source :: "error \<Rightarrow> string option" where
  "error_source (Client e) = Some (client_error_text e)"
| "error_source (WaitContainer e) = Some (wait_container_error_text e)"
| "error_source (Exec e) = Some (exec_error_text e)"
| "error_source (Io e) = Some (io_text e)"
| "error_source (Other e) = Some e"
| "error_source (PortNotExposed _ _) = None"

fun wait_container_error_source :: "wait_container_error \<Rightarrow> string option" where
  "wait_container_error_source (WaitLog e) = Some (wait_log_error_text e)"
| "wait_container_error_source (HttpWait e) = Some (http_wait_error_text e)"
| "wait_container_error_source _ = None"

text \<open>The \<open>From\<close> conversions the \<open>?\<close> operator applies.\<close>

definition error_of_wait_log :: "wait_log_error \<Rightarrow> error" where
  "error_of_wait_log e = WaitContainer (WaitLog e)"

type_synonym 'a result = "error + 'a"

text \<open>The memory limit the Docker client puts on responses, archives and one-shot logs.\<close>

definition DOCKER_RESPONSE_BODY_LIMIT :: nat where
  "DOCKER_RESPONSE_BODY_LIMIT = 64 * 1024 * 1024"

section \<open>Container state snapshots\<close>

text \<open>\<open>ContainerState\<close> of \<open>src/core/image.rs\<close>; the host is kept as its text form.\<close>

record container_state =
  cs_id :: string
  cs_host :: string
  cs_ports :: ports

definition host_port_ipv4 :: "container_state \<Rightarrow> container_port \<Rightarrow> u16 result" where
  "host_port_ipv4 cs internal_port =
     ok_or (PortNotExposed (cs_id cs) internal_port) (map_to_host_port_ipv4 (cs_ports cs) internal_port)"

definition host_port_ipv6 :: "container_state \<Rightarrow> container_port \<Rightarrow> u16 result" where
  "host_port_ipv6 cs internal_port =
     ok_or (PortNotExposed (cs_id cs) internal_port) (map_to_host_port_ipv6 (cs_ports cs) internal_port)"

end
