(* ===== verification/Log_Lines.thy ===== *)
theory Log_Lines
  imports Prelude
begin

text \<open>
  \<open>src/core/logs.rs\<close>, \<open>src/core/logs/line.rs\<close> and
  \<open>src/core/logs/consumer/logging_consumer.rs\<close>: log frames, the line splitter that the delivery
  tasks of both platforms share, and the delivery of a line to the consumers.

  The splitter is generic in its reader, as the source is (\<open>R: AsyncBufRead\<close>): it takes
  \<open>fill_buf\<close> and \<open>consume\<close> as arguments. The locale \<open>buf_reader\<close> states what tokio
  documents of the two; the splitter is shown there to compute \<open>line_spec\<close> of the bytes that
  are left, whatever chunks they arrive in.
\<close>

section \<open>Frames\<close>

datatype log_frame = StdOut "u8 list" | StdErr "u8 list"

datatype log_source = SrcStdOut | SrcStdErr | SrcBothStd

fun frame_source :: "log_frame \<Rightarrow> log_source" where
  "frame_source (StdOut _) = SrcStdOut"
| "frame_source (StdErr _) = SrcStdErr"

fun frame_bytes :: "log_frame \<Rightarrow> u8 list" where
  "frame_bytes (StdOut bs) = bs"
| "frame_bytes (StdErr bs) = bs"

section \<open>Reading one line\<close>

definition MAX_LINE_LENGTH :: nat where
  "MAX_LINE_LENGTH = 8 * 1024 * 1024"

datatype line_read = Line "u8 list" | Truncated "u8 list" | Final "u8 list" | Closed

abbreviation (input) is_nl :: "u8 \<Rightarrow> bool" where
  "is_nl b \<equiv> b = 10"

definition strip_trailing_cr :: "u8 list \<Rightarrow> u8 list" where
  "strip_trailing_cr line = (if line \<noteq> [] \<and> last line = 13 then butlast line else line)"

type_synonym ('e, 'r) fill_buf = "'r \<Rightarrow> ('e + u8 list) \<times> 'r"

text \<open>
  The loop of \<open>read_line_limited\<close>; \<open>line\<close> and \<open>truncated\<close> are its two local variables. A reader
  may block for ever, so the loop may not return: that is the value \<open>None\<close>.
\<close>

partial_function (option) read_line_loop ::
  "('e, 'r) fill_buf \<Rightarrow> (nat \<Rightarrow> 'r \<Rightarrow> 'r) \<Rightarrow> nat \<Rightarrow> 'r \<Rightarrow> u8 list \<Rightarrow> u8 list option \<Rightarrow>
   (('e + line_read) \<times> 'r) option" where
  "read_line_loop fill_buf consume limit r line truncated =
     (case fill_buf r of
        (Inl e, r1) \<Rightarrow> Some (Inl e, r1)
      | (Inr buf, r1) \<Rightarrow>
          if buf = [] then
            (case truncated of
               Some head \<Rightarrow> Some (Inr (Truncated head), r1)
             | None \<Rightarrow>
                 if line = [] then Some (Inr Closed, r1)
                 else Some (Inr (Final (strip_trailing_cr line)), r1))
          else
            (case truncated of
               Some head \<Rightarrow>
                 (case position is_nl buf of
                    Some pos \<Rightarrow> Some (Inr (Truncated head), consume (pos + 1) r1)
                  | None \<Rightarrow>
                      read_line_loop fill_buf consume limit (consume (length buf) r1) line truncated)
             | None \<Rightarrow>
                 (case position is_nl buf of
                    Some pos \<Rightarrow>
                      if limit < length line + pos then
                        Some (Inr (Truncated (line @ take (limit - length line) buf)),
                          consume (pos + 1) r1)
                      else
                        Some (Inr (Line (strip_trailing_cr (line @ take pos buf))),
                          consume (pos + 1) r1)
                  | None \<Rightarrow>
                      if limit < length line + length buf then
                        read_line_loop fill_buf consume limit
                          (consume (limit - length line) r1) []
                          (Some (line @ take (limit - length line) buf))
                      else
                        read_line_loop fill_buf consume limit
                          (consume (length buf) r1) (line @ buf) None)))"

definition read_line_limited ::
  "('e, 'r) fill_buf \<Rightarrow> (nat \<Rightarrow> 'r \<Rightarrow> 'r) \<Rightarrow> nat \<Rightarrow> 'r \<Rightarrow> (('e + line_read) \<times> 'r) option" where
  "read_line_limited fill_buf consume limit r = read_line_loop fill_buf consume limit r [] None"

text \<open>
  One line to every consumer: the result says whether to go on, and the deliveries are the
  \<open>accept\<close> calls in order.
\<close>

fun line_payload :: "line_read \<Rightarrow> u8 list option" where
  "line_payload (Line l) = Some l"
| "line_payload (Final l) = Some l"
| "line_payload (Truncated l) = Some l"
| "line_payload Closed = None"

definition deliver_line_to_consumers ::
  "('e, 'r) fill_buf \<Rightarrow> (nat \<Rightarrow> 'r \<Rightarrow> 'r) \<Rightarrow> 'c list \<Rightarrow> (u8 list \<Rightarrow> log_frame) \<Rightarrow> 'r \<Rightarrow>
   ((unit + bool) \<times> ('c \<times> log_frame) list \<times> 'r) option" where
  "deliver_line_to_consumers fill_buf consume consumers to_frame r =
     (case read_line_limited fill_buf consume MAX_LINE_LENGTH r of
        None \<Rightarrow> None
      | Some (Inl e, r') \<Rightarrow> Some (Inl (), [], r')
      | Some (Inr l, r') \<Rightarrow>
          (case line_payload l of
             None \<Rightarrow> Some (Inr False, [], r')
           | Some line \<Rightarrow> Some (Inr True, map (\<lambda>c. (c, to_frame line)) consumers, r')))"

text \<open>The body of the delivery task: read and deliver until the input ends or fails.\<close>

partial_function (option) deliver_loop ::
  "('e, 'r) fill_buf \<Rightarrow> (nat \<Rightarrow> 'r \<Rightarrow> 'r) \<Rightarrow> 'c list \<Rightarrow> (u8 list \<Rightarrow> log_frame) \<Rightarrow> 'r \<Rightarrow>
   ('c \<times> log_frame) list option" where
  "deliver_loop fill_buf consume consumers to_frame r =
     (case deliver_line_to_consumers fill_buf consume consumers to_frame r of
        None \<Rightarrow> None
      | Some (Inl _, ds, r') \<Rightarrow> Some ds
      | Some (Inr go_on, ds, r') \<Rightarrow>
          if go_on then
            Option.bind (deliver_loop fill_buf consume consumers to_frame r') (\<lambda>ds'. Some (ds @ ds'))
          else Some ds)"

section \<open>What one read returns\<close>

text \<open>
  The specification sees only the bytes that are left and how the input ends (\<open>None\<close>: end of
  file, \<open>Some e\<close>: the read fails); it returns the outcome and the bytes left after it.
\<close>

definition line_spec :: "nat \<Rightarrow> u8 list \<Rightarrow> 'e option \<Rightarrow> ('e + line_read) \<times> u8 list" where
  "line_spec limit bs end =
     (case position is_nl bs of
        Some pos \<Rightarrow>
          (Inr (if limit < pos then Truncated (take limit bs) else Line (strip_trailing_cr (take pos bs))),
           drop (pos + 1) bs)
      | None \<Rightarrow>
          (case end of
             Some e \<Rightarrow> (Inl e, [])
           | None \<Rightarrow>
               (Inr (if limit < length bs then Truncated (take limit bs)
                     else if bs = [] then Closed else Final (strip_trailing_cr bs)), [])))"

text \<open>All lines of an input, one read after the other.\<close>

lemma line_spec_rest_less:
  assumes "line_spec limit bs end = (Inr l, rest)" and "line_payload l \<noteq> None"
  shows "length rest < length bs"
proof (cases "position is_nl bs")
  case None
  with assms show ?thesis by (auto simp: line_spec_def split: option.splits if_splits)
next
  case (Some pos)
  with assms position_SomeD [OF Some] show ?thesis by (auto simp: line_spec_def)
qed

function lines_spec :: "nat \<Rightarrow> u8 list \<Rightarrow> 'e option \<Rightarrow> u8 list list" where
  "lines_spec limit bs end =
     (case line_spec limit bs end of
        (Inl _, _) \<Rightarrow> []
      | (Inr l, rest) \<Rightarrow>
          (case line_payload l of None \<Rightarrow> [] | Some line \<Rightarrow> line # lines_spec limit rest end))"
  by pat_completeness auto
termination
  by (relation "measure (\<lambda>(_, bs, _). length bs)") (auto dest!: sym [of _ "line_spec _ _ _"] line_spec_rest_less)

declare lines_spec.simps [simp del]

definition deliveries :: "'c list \<Rightarrow> (u8 list \<Rightarrow> log_frame) \<Rightarrow> u8 list list \<Rightarrow> ('c \<times> log_frame) list" where
  "deliveries consumers to_frame lines = concat (map (\<lambda>l. map (\<lambda>c. (c, to_frame l)) consumers) lines)"

lemma deliveries_simps [simp]:
  "deliveries cs f [] = []"
  "deliveries cs f (l # ls) = map (\<lambda>c. (c, f l)) cs @ deliveries cs f ls"
  by (simp_all add: deliveries_def)

locale buf_reader =
  fixes fill_buf :: "('e, 'r) fill_buf"
    and consume :: "nat \<Rightarrow> 'r \<Rightarrow> 'r"
    and pending :: "'r \<Rightarrow> u8 list"
    and ending :: "'r \<Rightarrow> 'e option"
    and inv :: "'r \<Rightarrow> bool"
  assumes fill_ok: "inv r \<Longrightarrow> fill_buf r = (Inr buf, r') \<Longrightarrow>
      inv r' \<and> prefix buf (pending r) \<and> pending r' = pending r \<and> ending r' = ending r"
    and fill_eof: "inv r \<Longrightarrow> fill_buf r = (Inr [], r') \<Longrightarrow> pending r = [] \<and> ending r = None"
    and fill_err: "inv r \<Longrightarrow> fill_buf r = (Inl e, r') \<Longrightarrow> inv r' \<and> pending r = [] \<and> ending r = Some e"
    and consume_ok: "inv r \<Longrightarrow> fill_buf r = (Inr buf, r') \<Longrightarrow> n \<le> length buf \<Longrightarrow>
      inv (consume n r') \<and> pending (consume n r') = drop n (pending r) \<and> ending (consume n r') = ending r"
begin

definition refines :: "(('e + line_read) \<times> 'r) option \<Rightarrow> ('e + line_read) \<times> u8 list \<Rightarrow> 'e option \<Rightarrow> bool" where
  "refines result spec end \<longleftrightarrow>
     (\<exists>r'. result = Some (fst spec, r') \<and> inv r' \<and>
        ((\<exists>l. fst spec = Inr l) \<longrightarrow> pending r' = snd spec \<and> ending r' = end))"

text \<open>While a line is being discarded the outcome is the head, unless the input fails.\<close>

definition discard_spec :: "u8 list \<Rightarrow> u8 list \<Rightarrow> 'e option \<Rightarrow> ('e + line_read) \<times> u8 list" where
  "discard_spec head bs end =
     (case position is_nl bs of
        Some pos \<Rightarrow> (Inr (Truncated head), drop (pos + 1) bs)
      | None \<Rightarrow> (case end of Some e \<Rightarrow> (Inl e, []) | None \<Rightarrow> (Inr (Truncated head), [])))"

lemma discard_refines:
  "inv r \<Longrightarrow> refines (read_line_loop fill_buf consume limit r line (Some head))
     (discard_spec head (pending r) (ending r)) (ending r)"
proof (induction "length (pending r)" arbitrary: r rule: less_induct)
  case less
  obtain res r1 where fill: "fill_buf r = (res, r1)" by fastforce
  show ?case
  proof (cases res)
    case (Inl e)
    with fill_err [OF less.prems] fill show ?thesis
      by (subst read_line_loop.simps) (simp add: refines_def discard_spec_def)
  next
    case (Inr buf)
    note ok = fill_ok [OF less.prems, of buf r1] consume_ok [OF less.prems, of buf r1]
    show ?thesis
    proof (cases "buf = []")
      case True
      with ok(1) fill_eof [OF less.prems] fill Inr show ?thesis
        by (subst read_line_loop.simps) (simp add: refines_def discard_spec_def)
    next
      case False
      obtain rest where rest: "pending r = buf @ rest" using ok(1) fill Inr by (auto simp: prefix_def)
      show ?thesis
      proof (cases "position is_nl buf")
        case None
        let ?r2 = "consume (length buf) r1"
        have r2: "inv ?r2" "pending ?r2 = rest" "ending ?r2 = ending r"
          using ok(2) [of "length buf"] fill Inr rest by auto
        have "refines (read_line_loop fill_buf consume limit ?r2 line (Some head))
            (discard_spec head rest (ending r)) (ending r)"
          using less.hyps [of ?r2] r2 rest False by simp
        moreover have "discard_spec head (pending r) (ending r) = discard_spec head rest (ending r)"
          using None rest by (auto simp: discard_spec_def position_append split: option.splits)
        ultimately show ?thesis using fill Inr False None
          by (subst read_line_loop.simps) simp
      next
        case (Some pos)
        then have "pos < length buf" using position_SomeD [OF Some] by simp
        with ok(2) [of "pos + 1"] fill Inr False Some rest show ?thesis
          by (subst read_line_loop.simps) (simp add: refines_def discard_spec_def position_append)
      qed
    qed
  qed
qed

text \<open>The outcome does not depend on how the bytes are cut into buffers.\<close>

lemma read_line_loop_refines:
  "inv r \<Longrightarrow> length line \<le> limit \<Longrightarrow> \<forall>b \<in> set line. \<not> is_nl b \<Longrightarrow>
   refines (read_line_loop fill_buf consume limit r line None)
     (line_spec limit (line @ pending r) (ending r)) (ending r)"
proof (induction "length (pending r)" arbitrary: r line rule: less_induct)
  case less
  obtain res r1 where fill: "fill_buf r = (res, r1)" by fastforce
  have line: "position is_nl line = None" using less.prems by (simp add: position_None)
  show ?case
  proof (cases res)
    case (Inl e)
    with fill_err [OF less.prems(1)] fill line show ?thesis
      by (subst read_line_loop.simps) (simp add: refines_def line_spec_def)
  next
    case (Inr buf)
    note ok = fill_ok [OF less.prems(1), of buf r1] consume_ok [OF less.prems(1), of buf r1]
    show ?thesis
    proof (cases "buf = []")
      case True
      with ok(1) fill_eof [OF less.prems(1)] fill Inr less.prems line show ?thesis
        by (subst read_line_loop.simps) (simp add: refines_def line_spec_def)
    next
      case False
      obtain rest where rest: "pending r = buf @ rest" using ok(1) fill Inr by (auto simp: prefix_def)
      show ?thesis
      proof (cases "position is_nl buf")
        case (Some pos)
        then have "pos < length buf" using position_SomeD [OF Some] by simp
        with ok(2) [of "pos + 1"] fill Inr False Some rest line less.prems show ?thesis
          by (subst read_line_loop.simps) (auto simp: refines_def line_spec_def position_append)
      next
        case None
        show ?thesis
        proof (cases "limit < length line + length buf")
          case True
          let ?n = "limit - length line" and ?head = "line @ take (limit - length line) buf"
          let ?r2 = "consume ?n r1"
          have r2: "inv ?r2" "pending ?r2 = drop ?n buf @ rest" "ending ?r2 = ending r"
            using ok(2) [of ?n] fill Inr rest True by auto
          have none: "position is_nl (drop ?n buf) = None" "position is_nl (line @ buf) = None"
            using None less.prems by (auto simp: position_None dest: in_set_dropD)
          have "discard_spec ?head (pending ?r2) (ending r) = line_spec limit (line @ pending r) (ending r)"
            using True none less.prems rest r2(2)
            by (auto simp: discard_spec_def line_spec_def position_append split: option.splits)
          then show ?thesis using discard_refines [OF r2(1), of limit "[]" ?head] r2 fill Inr False None True
            by (subst read_line_loop.simps) simp
        next
          case short: False
          let ?r2 = "consume (length buf) r1"
          have r2: "inv ?r2" "pending ?r2 = rest" "ending ?r2 = ending r"
            using ok(2) [of "length buf"] fill Inr rest by auto
          have "refines (read_line_loop fill_buf consume limit ?r2 (line @ buf) None)
              (line_spec limit (line @ pending r) (ending r)) (ending r)"
            using less.hyps [of ?r2 "line @ buf"] r2 rest False short None less.prems
            by (auto simp: position_None)
          then show ?thesis using fill Inr False None short
            by (subst read_line_loop.simps) simp
        qed
      qed
    qed
  qed
qed

lemma read_line_limited_refines:
  "inv r \<Longrightarrow> refines (read_line_limited fill_buf consume limit r)
     (line_spec limit (pending r) (ending r)) (ending r)"
  using read_line_loop_refines [of r "[]" limit] by (simp add: read_line_limited_def)

lemma deliver_line_refines:
  assumes "inv r"
  shows "\<exists>r'. deliver_line_to_consumers fill_buf consume consumers to_frame r =
       Some (case line_spec MAX_LINE_LENGTH (pending r) (ending r) of
          (Inl _, _) \<Rightarrow> (Inl (), [], r')
        | (Inr l, _) \<Rightarrow>
            (case line_payload l of
               None \<Rightarrow> (Inr False, [], r')
             | Some line \<Rightarrow> (Inr True, map (\<lambda>c. (c, to_frame line)) consumers, r')))
     \<and> inv r' \<and> ((\<exists>l. fst (line_spec MAX_LINE_LENGTH (pending r) (ending r)) = Inr l) \<longrightarrow>
         pending r' = snd (line_spec MAX_LINE_LENGTH (pending r) (ending r)) \<and> ending r' = ending r)"
  using read_line_limited_refines [OF assms, of MAX_LINE_LENGTH]
  by (auto simp: refines_def deliver_line_to_consumers_def split: sum.splits prod.splits option.splits)

text \<open>The delivery task ends, and every consumer has seen every line in order.\<close>

lemma deliver_loop_lines:
  "inv r \<Longrightarrow> deliver_loop fill_buf consume consumers to_frame r =
     Some (deliveries consumers to_frame (lines_spec MAX_LINE_LENGTH (pending r) (ending r)))"
proof (induction "length (pending r)" arbitrary: r rule: less_induct)
  case less
  obtain out rest where spec: "line_spec MAX_LINE_LENGTH (pending r) (ending r) = (out, rest)" by fastforce
  note lines = lines_spec.simps [of MAX_LINE_LENGTH "pending r"]
  show ?case
  proof (cases out)
    case (Inl e)
    then show ?thesis using deliver_line_refines [OF less.prems, of consumers to_frame] spec
      by (subst deliver_loop.simps) (auto simp: lines)
  next
    case (Inr l)
    show ?thesis
    proof (cases "line_payload l")
      case None
      then show ?thesis using deliver_line_refines [OF less.prems, of consumers to_frame] spec Inr
        by (subst deliver_loop.simps) (auto simp: lines)
    next
      case (Some line)
      then obtain r' where r': "deliver_line_to_consumers fill_buf consume consumers to_frame r =
          Some (Inr True, map (\<lambda>c. (c, to_frame line)) consumers, r')"
        "inv r'" "pending r' = rest" "ending r' = ending r"
        using deliver_line_refines [OF less.prems, of consumers to_frame] spec Inr by auto
      have "length rest < length (pending r)"
        using line_spec_rest_less spec Inr Some by fastforce
      then show ?thesis using less.hyps [of r'] r' spec Inr Some
        by (subst deliver_loop.simps) (simp add: lines)
    qed
  qed
qed

end

section \<open>Buffered readers\<close>

text \<open>
  A \<open>tokio::io::BufReader\<close> over a source, as the list of what the reads of the source will
  return: chunks of bytes, possibly a failure. \<open>fill_buf\<close> shows the unread part of the first chunk.
\<close>

datatype 'e source_read = Chunk "u8 list" | Fail 'e

fun chunk_fill :: "('e, 'e source_read list) fill_buf" where
  "chunk_fill [] = (Inr [], [])"
| "chunk_fill (Chunk bs # rs) = (Inr bs, Chunk bs # rs)"
| "chunk_fill (Fail e # rs) = (Inl e, rs)"

fun chunk_consume :: "nat \<Rightarrow> 'e source_read list \<Rightarrow> 'e source_read list" where
  "chunk_consume n (Chunk bs # rs) = (if length bs \<le> n then rs else Chunk (drop n bs) # rs)"
| "chunk_consume n rs = rs"

fun chunk_pending :: "'e source_read list \<Rightarrow> u8 list" where
  "chunk_pending (Chunk bs # rs) = bs @ chunk_pending rs"
| "chunk_pending _ = []"

fun chunk_ending :: "'e source_read list \<Rightarrow> 'e option" where
  "chunk_ending (Chunk _ # rs) = chunk_ending rs"
| "chunk_ending (Fail e # _) = Some e"
| "chunk_ending [] = None"

definition chunk_wf :: "'e source_read list \<Rightarrow> bool" where
  "chunk_wf rs \<longleftrightarrow> Chunk [] \<notin> set rs"

lemma chunk_wf_Cons [simp]: "chunk_wf (x # rs) \<longleftrightarrow> x \<noteq> Chunk [] \<and> chunk_wf rs"
  by (auto simp: chunk_wf_def)

interpretation chunks: buf_reader chunk_fill chunk_consume chunk_pending chunk_ending chunk_wf
proof
  fix r r' :: "'e source_read list" and buf e n
  assume wf: "chunk_wf r"
  show "chunk_fill r = (Inr buf, r') \<Longrightarrow>
      chunk_wf r' \<and> prefix buf (chunk_pending r) \<and> chunk_pending r' = chunk_pending r \<and>
      chunk_ending r' = chunk_ending r"
    using wf by (cases r rule: chunk_fill.cases) auto
  show "chunk_fill r = (Inr [], r') \<Longrightarrow> chunk_pending r = [] \<and> chunk_ending r = None"
    using wf by (cases r rule: chunk_fill.cases) auto
  show "chunk_fill r = (Inl e, r') \<Longrightarrow> chunk_wf r' \<and> chunk_pending r = [] \<and> chunk_ending r = Some e"
    using wf by (cases r rule: chunk_fill.cases) auto
  show "chunk_fill r = (Inr buf, r') \<Longrightarrow> n \<le> length buf \<Longrightarrow>
      chunk_wf (chunk_consume n r') \<and> chunk_pending (chunk_consume n r') = drop n (chunk_pending r) \<and>
      chunk_ending (chunk_consume n r') = chunk_ending r"
    using wf by (cases r rule: chunk_fill.cases) auto
qed

section \<open>The logging consumer\<close>

datatype log_level = ERROR | WARN | INFO | DEBUG | TRACE

record logging_consumer =
  stdout_level :: "log_level option"
  stderr_level :: "log_level option"
  lc_prefix :: "string option"

definition logging_consumer_new :: logging_consumer where
  "logging_consumer_new = \<lparr>stdout_level = None, stderr_level = None, lc_prefix = None\<rparr>"

definition with_stdout_level :: "log_level \<Rightarrow> logging_consumer \<Rightarrow> logging_consumer" where
  "with_stdout_level level lc = lc\<lparr>stdout_level := Some level\<rparr>"

definition with_stderr_level :: "log_level \<Rightarrow> logging_consumer \<Rightarrow> logging_consumer" where
  "with_stderr_level level lc = lc\<lparr>stderr_level := Some level\<rparr>"

definition with_prefix :: "string \<Rightarrow> logging_consumer \<Rightarrow> logging_consumer" where
  "with_prefix p lc = lc\<lparr>lc_prefix := Some p\<rparr>"

definition trim_newlines :: "string \<Rightarrow> string" where
  "trim_newlines s = rev (dropWhile (\<lambda>c. c = CHR 0x0A \<or> c = CHR 0x0D) (rev s))"

definition format_message :: "logging_consumer \<Rightarrow> string \<Rightarrow> string" where
  "format_message lc message =
     (case lc_prefix lc of
        Some p \<Rightarrow> p @ '' '' @ trim_newlines message
      | None \<Rightarrow> trim_newlines message)"

text \<open>Where a frame goes: a tracing event of the configured level, or standard error.\<close>

datatype log_output = Trace log_level string | Eprintln string

definition logging_accept :: "logging_consumer \<Rightarrow> log_frame \<Rightarrow> log_output" where
  "logging_accept lc record =
     (let message = format_message lc (from_utf8_lossy (frame_bytes record));
          (source, level) =
            (case record of StdOut _ \<Rightarrow> (''stdout'', stdout_level lc) | StdErr _ \<Rightarrow> (''stderr'', stderr_level lc))
      in case level of
           Some l \<Rightarrow> Trace l message
         | None \<Rightarrow> Eprintln (source @ '': '' @ message))"

section \<open>Properties\<close>

lemma strip_trailing_cr_length: "length (strip_trailing_cr l) \<le> length l"
  by (simp add: strip_trailing_cr_def)

lemma line_spec_payload_length:
  assumes "line_spec limit bs end = (Inr l, rest)" and "line_payload l = Some line"
  shows "length line \<le> limit"
proof (cases "position is_nl bs")
  case None
  with assms strip_trailing_cr_length [of bs] show ?thesis
    by (auto simp: line_spec_def split: option.splits if_splits)
next
  case (Some pos)
  with assms position_SomeD [OF Some] strip_trailing_cr_length [of "take pos bs"] show ?thesis
    by (auto simp: line_spec_def split: if_splits)
qed

lemma lines_spec_length: "line \<in> set (lines_spec limit bs end) \<Longrightarrow> length line \<le> limit"
proof (induction "length bs" arbitrary: bs rule: less_induct)
  case less
  obtain out rest where spec: "line_spec limit bs end = (out, rest)" by fastforce
  note lines = lines_spec.simps [of limit bs "end"]
  show ?case
  proof (cases "\<exists>l line'. out = Inr l \<and> line_payload l = Some line'")
    case True
    then obtain l line' where l: "out = Inr l" "line_payload l = Some line'" by blast
    from spec l line_spec_rest_less [of limit bs "end" l rest] have "length rest < length bs" by simp
    with less.hyps [of rest] less.prems line_spec_payload_length [of limit bs "end" l rest line'] spec l
    show ?thesis by (auto simp: lines)
  next
    case False
    with less.prems spec show ?thesis by (cases out; cases "line_payload (projr out)") (auto simp: lines)
  qed
qed

definition plain_line :: "nat \<Rightarrow> u8 list \<Rightarrow> bool" where
  "plain_line limit l \<longleftrightarrow> 10 \<notin> set l \<and> length l \<le> limit \<and> (l = [] \<or> last l \<noteq> 13)"

definition unlines :: "u8 list list \<Rightarrow> u8 list" where
  "unlines ls = concat (map (\<lambda>l. l @ [10]) ls)"

lemma line_spec_plain: "plain_line limit l \<Longrightarrow> line_spec limit (l @ 10 # bs) end = (Inr (Line l), bs)"
proof -
  assume l: "plain_line limit l"
  then have "position is_nl l = None" by (auto simp: plain_line_def position_None)
  then have "position is_nl (l @ 10 # bs) = Some (length l)" by (simp add: position_append)
  with l show ?thesis by (auto simp: line_spec_def plain_line_def strip_trailing_cr_def)
qed

lemma lines_spec_unlines: "list_all (plain_line limit) ls \<Longrightarrow> lines_spec limit (unlines ls) end = ls"
proof (induction ls)
  case Nil
  then show ?case by (simp add: unlines_def lines_spec.simps [of _ "[]"] line_spec_def split: option.splits)
next
  case (Cons l ls)
  then have "lines_spec limit (l @ 10 # unlines ls) end = l # ls"
    by (subst lines_spec.simps) (simp add: line_spec_plain)
  then show ?case by (simp add: unlines_def)
qed

lemma chunk_map [simp]:
  "chunk_pending (map Chunk cs) = concat cs" "chunk_ending (map Chunk cs) = None"
  "chunk_wf (map Chunk cs) \<longleftrightarrow> [] \<notin> set cs"
  by (induction cs) (auto simp: chunk_wf_def)

text \<open>
  C25. Whatever pieces the log arrives in, the delivery task ends and every consumer has received
  the lines of the log in order, as the line specification gives them: without their terminators, cut to their first 8 MiB, and none after
  a read error. If the log is made of lines that are ended by a newline, have at most 8 MiB, no newline inside and
  no carriage return at the end, the frames delivered are exactly the lines written, even if a
  read fails after them.
\<close>

theorem deliver_lines_written:
  assumes "chunk_wf rs"
  shows "deliver_loop chunk_fill chunk_consume consumers to_frame rs
       = Some (deliveries consumers to_frame (lines_spec MAX_LINE_LENGTH (chunk_pending rs) (chunk_ending rs))) \<and>
     (list_all (plain_line MAX_LINE_LENGTH) ls \<and> chunk_pending rs = unlines ls \<longrightarrow>
        deliver_loop chunk_fill chunk_consume consumers to_frame rs = Some (deliveries consumers to_frame ls))"
  using chunks.deliver_loop_lines [OF assms, of consumers to_frame] by (simp add: lines_spec_unlines)

theorem deliver_lines_written_witness:
  "deliver_loop chunk_fill chunk_consume [1 :: nat, 2] StdErr 
     (map Chunk [[104], [105, 10, 10], [33, 10]] :: unit source_read list)
   = Some [(1, StdErr [104, 105]), (2, StdErr [104, 105]), (1, StdErr []), (2, StdErr []),
           (1, StdErr [33]), (2, StdErr [33])]"
proof -
  let ?rs = "map Chunk [[104], [105, 10, 10], [33, 10]] :: unit source_read list"
  have "chunk_wf ?rs" by (simp add: chunk_wf_def)
  moreover have "list_all (plain_line MAX_LINE_LENGTH) [[104, 105], [], [33]] \<and> chunk_pending ?rs = unlines [[104, 105], [], [33]]"
    by (simp add: plain_line_def unlines_def MAX_LINE_LENGTH_def)
  ultimately have "deliver_loop chunk_fill chunk_consume [1, 2] StdErr ?rs = Some (deliveries [1, 2 :: nat] StdErr [[104, 105], [], [33]])"
    using deliver_lines_written by blast
  then show ?thesis by simp
qed

text \<open>
  C33. One read of the splitter depends only on the bytes that are left and on how the input ends,
  never on how they are cut into buffers; it always returns (a line, the truncated head of an
  over-long line, the last unterminated line, the end, or the read error), and it leaves
  exactly the bytes after that line.
\<close>

theorem read_line_limited_spec:
  assumes "chunk_wf rs"
  shows "\<exists>rs'. read_line_limited chunk_fill chunk_consume limit rs =
           Some (fst (line_spec limit (chunk_pending rs) (chunk_ending rs)), rs') \<and> chunk_wf rs' \<and>
         ((\<exists>l. fst (line_spec limit (chunk_pending rs) (chunk_ending rs)) = Inr l) \<longrightarrow>
            chunk_pending rs' = snd (line_spec limit (chunk_pending rs) (chunk_ending rs)) \<and>
            chunk_ending rs' = chunk_ending rs)"
  using chunks.read_line_limited_refines [OF assms, of limit] by (simp add: chunks.refines_def)

theorem read_line_limited_spec_witness:
  "\<exists>rs'. read_line_limited chunk_fill chunk_consume 2 [Chunk [65, 66, 67], Chunk [13, 10, 68], Fail ()] =
     Some (Inr (Truncated [65, 66]), rs') \<and> chunk_wf rs' \<and> chunk_pending rs' = [68] \<and> chunk_ending rs' = Some ()"
  using read_line_limited_spec [of "[Chunk [65, 66, 67], Chunk [13, 10, 68], Fail ()]" 2]
  by (simp add: line_spec_def chunk_wf_def)

text \<open>
  The memory of the delivery task stays bounded: on any input, failing ones included, the task
  ends and no delivered frame is longer than the line limit.
\<close>

lemma deliver_frames_bounded:
  assumes "chunk_wf rs"
  shows "\<exists>ds. deliver_loop chunk_fill chunk_consume consumers StdOut rs = Some ds \<and>
           list_all (\<lambda>(c, f). length (frame_bytes f) \<le> MAX_LINE_LENGTH) ds"
  using chunks.deliver_loop_lines [OF assms, of consumers StdOut]
  by (auto simp: list_all_iff deliveries_def dest: lines_spec_length)

end
