(* ===== verification/Log_Buffer.thy ===== *)
theory Log_Buffer
  imports Errors Log_Lines
begin

text \<open>
  The data structures of \<open>src/core/client/docker_log_stream.rs\<close>: the shared log buffer with
  its absolute head offset, the demultiplexer of Docker's framed log stream, and
  \<open>demux_exec_stream\<close> of \<open>src/core/client/docker_client.rs\<close>, which decodes the same frames
  from a complete body.
\<close>

section \<open>The shared buffer\<close>

definition DEFAULT_BUFFER_LIMIT :: nat where
  "DEFAULT_BUFFER_LIMIT = 8 * 1024 * 1024"

definition READ_CHUNK :: nat where
  "READ_CHUNK = 8192"

text \<open>Offsets count bytes of the whole stream; \<open>u64\<close> cannot overflow before 2^64 bytes of log.\<close>

record shared_log_buffer =
  lb_buf :: "u8 list"
  lb_head :: nat
  lb_limit :: nat
  lb_strict :: bool

definition lb_with_mode :: "nat \<Rightarrow> bool \<Rightarrow> shared_log_buffer" where
  "lb_with_mode limit strict = \<lparr>lb_buf = [], lb_head = 0, lb_limit = limit, lb_strict = strict\<rparr>"

definition lb_new :: "nat \<Rightarrow> shared_log_buffer" where
  "lb_new limit = lb_with_mode limit False"

definition lb_new_strict :: "nat \<Rightarrow> shared_log_buffer" where
  "lb_new_strict limit = lb_with_mode limit True"

text \<open>The \<open>while\<close> loop that drops the oldest bytes.\<close>

function pop_front_loop :: "nat \<Rightarrow> u8 list \<Rightarrow> nat \<Rightarrow> u8 list \<times> nat" where
  "pop_front_loop limit buf head =
     (if limit < length buf then pop_front_loop limit (tl buf) (head + 1) else (buf, head))"
  by pat_completeness auto
termination by (relation "measure (\<lambda>(_, buf, _). length buf)") auto

declare pop_front_loop.simps [simp del]

definition lb_append :: "shared_log_buffer \<Rightarrow> u8 list \<Rightarrow> bool \<times> shared_log_buffer" where
  "lb_append b data =
     (if data = [] then (True, b)
      else if lb_strict b then
        (if lb_limit b < length data \<or> lb_limit b < length (lb_buf b) + length data then (False, b)
         else (True, b\<lparr>lb_buf := lb_buf b @ data\<rparr>))
      else
        (let keep = (if lb_limit b < length data then drop (length data - lb_limit b) data else data);
             (buf, head) = pop_front_loop (lb_limit b) (lb_buf b @ keep) (lb_head b)
         in (True, b\<lparr>lb_buf := buf, lb_head := head\<rparr>)))"

text \<open>\<open>read_at\<close> returns the bytes it copies into a buffer of \<open>cap\<close> bytes.\<close>

definition lb_read_at :: "shared_log_buffer \<Rightarrow> nat \<Rightarrow> nat \<Rightarrow> u8 list \<times> nat \<times> bool" where
  "lb_read_at b reader_offset cap =
     (let tail = lb_head b + length (lb_buf b);
          (offset, skipped) = (if reader_offset < lb_head b then (lb_head b, True) else (reader_offset, False))
      in if tail \<le> offset \<or> cap = 0 then ([], offset, skipped)
         else
           let start = offset - lb_head b;
               n = min (length (lb_buf b) - start) cap
           in (take n (drop start (lb_buf b)), offset + n, skipped))"

lemma pop_front_loop_eq:
  "pop_front_loop limit buf head = (drop (length buf - limit) buf, head + (length buf - limit))"
proof (induction limit buf head rule: pop_front_loop.induct)
  case (1 limit buf head)
  show ?case
  proof (cases "limit < length buf")
    case True
    then have "length buf - limit = Suc (length (tl buf) - limit)" by simp
    with 1 True show ?thesis by (subst pop_front_loop.simps) (simp add: drop_Suc)
  qed (simp add: pop_front_loop.simps)
qed

section \<open>The contract of the buffer\<close>

text \<open>
  A reader relies on this of the buffer: it holds the part of an append-only stream from
  some offset on. The locale states it for a representation relation between buffers and
  streams; appends extend the stream and reads return what the stream has at the offset.
\<close>

definition seg :: "nat \<Rightarrow> nat \<Rightarrow> 'a list \<Rightarrow> 'a list" where
  "seg i j xs = take (j - i) (drop i xs)"

lemma seg_append: "i \<le> j \<Longrightarrow> j \<le> k \<Longrightarrow> k \<le> length xs \<Longrightarrow> seg i j xs @ seg j k xs = seg i k xs"
proof -
  assume le: "i \<le> j" "j \<le> k" "k \<le> length xs"
  then have "k - i = (j - i) + (k - j)" by simp
  then have "seg i k xs = take (j - i) (drop i xs) @ take (k - j) (drop (j - i) (drop i xs))"
    unfolding seg_def by (simp only: take_add)
  with le show ?thesis by (simp add: seg_def)
qed

lemma seg_self [simp]: "seg i i xs = []"
  by (simp add: seg_def)

lemma seg_all: "seg i (length xs) xs = drop i xs"
  by (simp add: seg_def)

locale stream_buffer =
  fixes repr :: "'b \<Rightarrow> u8 list \<Rightarrow> bool"
    and first :: "'b \<Rightarrow> nat"
    and read_at :: "'b \<Rightarrow> nat \<Rightarrow> nat \<Rightarrow> u8 list \<times> nat \<times> bool"
  assumes first_le: "repr b S \<Longrightarrow> first b \<le> length S"
    and read_ok: "repr b S \<Longrightarrow> read_at b off cap = (bs, nxt, skipped) \<Longrightarrow>
        skipped = (off < first b) \<and> max off (first b) \<le> nxt \<and>
        (off \<le> length S \<longrightarrow> nxt \<le> length S) \<and> bs = seg (max off (first b)) nxt S"
    and read_progress: "repr b S \<Longrightarrow> 0 < cap \<Longrightarrow> off < length S \<Longrightarrow> read_at b off cap = (bs, nxt, skipped)
        \<Longrightarrow> max off (first b) < length S \<Longrightarrow> bs \<noteq> [] \<and> max off (first b) < nxt"
begin

lemma read_contiguous:
  assumes "repr b S" and "first b \<le> off" and "off \<le> length S" and "read_at b off cap = (bs, nxt, skipped)"
  shows "\<not> skipped \<and> off \<le> nxt \<and> nxt \<le> length S \<and> bs = seg off nxt S"
  using read_ok [OF assms(1,4)] assms(2,3) by (auto simp: max_def)

end

definition lb_repr :: "shared_log_buffer \<Rightarrow> u8 list \<Rightarrow> bool" where
  "lb_repr b S \<longleftrightarrow> lb_head b \<le> length S \<and> lb_buf b = drop (lb_head b) S"

interpretation lb: stream_buffer lb_repr lb_head lb_read_at
  by unfold_locales
    (auto simp: lb_repr_def lb_read_at_def Let_def seg_def max_def split: if_splits prod.splits)

definition lb_wf :: "shared_log_buffer \<Rightarrow> bool" where
  "lb_wf b \<longleftrightarrow> length (lb_buf b) \<le> lb_limit b"

lemma lb_wf_with_mode [wf_intros]: "lb_wf (lb_with_mode limit strict)"
  by (simp add: lb_wf_def lb_with_mode_def)

lemma lb_append_wf [wf_intros]: "lb_wf b \<Longrightarrow> lb_wf (snd (lb_append b data))"
  by (auto simp: lb_wf_def lb_append_def Let_def pop_front_loop_eq)

lemma lb_append_limit [simp]:
  "lb_limit (snd (lb_append b data)) = lb_limit b" "lb_strict (snd (lb_append b data)) = lb_strict b"
  by (auto simp: lb_append_def Let_def pop_front_loop_eq)

text \<open>An append of at most \<open>limit\<close> bytes extends the stream the buffer stands for.\<close>

lemma lb_append_nonstrict:
  assumes "\<not> lb_strict b" and "length data \<le> lb_limit b" and "data \<noteq> []"
  shows "lb_append b data =
     (True, b\<lparr>lb_buf := drop (length (lb_buf b @ data) - lb_limit b) (lb_buf b @ data),
              lb_head := lb_head b + (length (lb_buf b @ data) - lb_limit b)\<rparr>)"
  using assms by (simp add: lb_append_def pop_front_loop_eq)

lemma lb_append_repr:
  assumes "lb_repr b S" and "length data \<le> lb_limit b" and "lb_append b data = (True, b')"
  shows "lb_repr b' (S @ data)"
proof (cases "lb_strict b \<or> data = []")
  case True
  with assms show ?thesis by (auto simp: lb_repr_def lb_append_def split: if_splits)
next
  case False
  let ?h = "lb_head b" and ?k = "length (lb_buf b @ data) - lb_limit b"
  have S: "?h \<le> length S" "lb_buf b = drop ?h S" using assms(1) by (auto simp: lb_repr_def)
  then have "lb_buf b @ data = drop ?h (S @ data)" by simp
  then have "drop ?k (lb_buf b @ data) = drop (?h + ?k) (S @ data)" by (simp only: drop_drop add.commute)
  moreover have "?h + ?k \<le> length (S @ data)" using S assms(2) by simp
  ultimately show ?thesis using False assms(2,3) by (auto simp: lb_append_nonstrict lb_repr_def)
qed

definition last_n :: "nat \<Rightarrow> 'a list \<Rightarrow> 'a list" where
  "last_n n xs = drop (length xs - n) xs"

lemma last_n_rev: "last_n n xs = rev (take n (rev xs))"
  by (simp add: last_n_def rev_take)

lemma length_last_n [simp]: "length (last_n n xs) = min n (length xs)"
  by (simp add: last_n_def)

lemma last_n_append_last_n: "last_n n (last_n n xs @ ys) = last_n n (xs @ ys)"
  by (simp add: last_n_rev min_def)

lemma last_n_append_right: "last_n n (xs @ last_n n ys) = last_n n (xs @ ys)"
  by (cases "length ys \<le> n") (simp_all add: last_n_rev)

lemma last_n_id [simp]: "length xs \<le> n \<Longrightarrow> last_n n xs = xs"
  by (simp add: last_n_def)

lemma lb_append_follow:
  assumes "\<not> lb_strict b" and "lb_append b data = (r, b')" and "lb_wf b"
  shows "r \<and> lb_buf b' = last_n (lb_limit b) (lb_buf b @ data)"
proof -
  have keep: "(if lb_limit b < length data then drop (length data - lb_limit b) data else data)
      = last_n (lb_limit b) data"
    by (simp add: last_n_def)
  have "fst (pop_front_loop (lb_limit b) xs h) = last_n (lb_limit b) xs" for xs h
    by (simp add: pop_front_loop_eq last_n_def)
  with assms show ?thesis
    unfolding lb_append_def keep
    by (auto simp: lb_wf_def last_n_append_right Let_def case_prod_beta split: if_splits)
qed

lemma lb_append_strict:
  assumes "lb_strict b" and "lb_append b data = (r, b')"
  shows "if r then lb_buf b' = lb_buf b @ data \<and> (lb_wf b \<longrightarrow> length (lb_buf b @ data) \<le> lb_limit b)
         else b' = b \<and> lb_limit b < length (lb_buf b @ data)"
  using assms by (auto simp: lb_append_def lb_wf_def split: if_splits)

section \<open>Draining\<close>

lemma lb_read_at_progress:
  assumes "lb_read_at b off cap = (bs, nxt, sk)" and "bs \<noteq> []"
  shows "off < nxt \<and> off < lb_head b + length (lb_buf b)"
  using assms by (auto simp: lb_read_at_def Let_def split: if_splits)

function drain_loop :: "shared_log_buffer \<Rightarrow> nat \<Rightarrow> u8 list" where
  "drain_loop b offset =
     (let (bs, nxt, _) = lb_read_at b offset READ_CHUNK
      in if bs = [] then [] else bs @ drain_loop b nxt)"
  by pat_completeness auto
termination
proof (relation "measure (\<lambda>(b, off). lb_head b + length (lb_buf b) - off)", simp)
  fix b off x bs y nxt sk
  assume "x = lb_read_at b off READ_CHUNK" "(bs, y) = x" "(nxt, sk) = y" "bs \<noteq> []"
  then have "lb_read_at b off READ_CHUNK = (bs, nxt, sk)" by simp
  from lb_read_at_progress [OF this \<open>bs \<noteq> []\<close>]
  show "((b, nxt), (b, off)) \<in> measure (\<lambda>(b, off). lb_head b + length (lb_buf b) - off)" by auto
qed

declare drain_loop.simps [simp del]

definition drain_buffer :: "shared_log_buffer \<Rightarrow> u8 list" where
  "drain_buffer b = drain_loop b (lb_head b)"

lemma drain_loop_eq:
  "lb_repr b S \<Longrightarrow> lb_head b \<le> off \<Longrightarrow> off \<le> length S \<Longrightarrow> drain_loop b off = drop off S"
proof (induction "length S - off" arbitrary: off rule: less_induct)
  case less
  obtain bs nxt sk where r: "lb_read_at b off READ_CHUNK = (bs, nxt, sk)" by (metis prod_cases3)
  from lb.read_contiguous [OF less.prems(1-3) r]
  have c: "off \<le> nxt" "nxt \<le> length S" "bs = seg off nxt S" by auto
  show ?case
  proof (cases "off = length S")
    case True
    with c r show ?thesis by (subst drain_loop.simps) simp
  next
    case False
    with less.prems lb.read_progress [OF less.prems(1) _ _ r] have "bs \<noteq> []" "off < nxt"
      by (auto simp: READ_CHUNK_def max_def)
    moreover from less.hyps [of nxt] less.prems c \<open>off < nxt\<close> False
    have "drain_loop b nxt = drop nxt S" by simp
    ultimately show ?thesis using r c seg_append [of off nxt "length S" S]
      by (subst drain_loop.simps) (simp add: seg_all)
  qed
qed

lemma drain_buffer_eq: "drain_buffer b = lb_buf b"
proof -
  have "lb_repr b (replicate (lb_head b) 0 @ lb_buf b)" by (simp add: lb_repr_def)
  from drain_loop_eq [OF this, of "lb_head b"] show ?thesis by (simp add: drain_buffer_def)
qed

end
