(* ===== verification/Log_Demux.thy ===== *)
theory Log_Demux
  imports Log_Buffer
begin

text \<open>
  The demultiplexer of Docker's framed log stream (\<open>FrameDemuxer\<close> of
  \<open>src/core/client/docker_log_stream.rs\<close>) and the one-pass decoder of a complete exec body
  (\<open>demux_exec_stream\<close> of \<open>src/core/client/docker_client.rs\<close>). Both are related to a
  byte-at-a-time machine, from which chunk independence, the frame round trip and the
  equivalence of the two decoders follow.
\<close>

section \<open>The incremental demultiplexer\<close>

definition FRAME_HEADER_LEN :: nat where
  "FRAME_HEADER_LEN = 8"

definition u32_from_be_bytes :: "u8 \<Rightarrow> u8 \<Rightarrow> u8 \<Rightarrow> u8 \<Rightarrow> nat" where
  "u32_from_be_bytes a b c d = unat a * 2 ^ 24 + unat b * 2 ^ 16 + unat c * 2 ^ 8 + unat d"

record frame_demuxer =
  in_payload :: bool
  header :: "u8 list"
  header_pos :: nat
  stream_type :: u8
  payload_remaining :: nat

definition demuxer_new :: frame_demuxer where
  "demuxer_new = \<lparr>in_payload = False, header = replicate FRAME_HEADER_LEN 0, header_pos = 0,
     stream_type = 0, payload_remaining = 0\<rparr>"

definition reset_header :: "frame_demuxer \<Rightarrow> frame_demuxer" where
  "reset_header d = d\<lparr>in_payload := False, header_pos := 0, stream_type := 0, payload_remaining := 0\<rparr>"

text \<open>The two branches of the loop body of \<open>feed\<close>.\<close>

definition feed_header :: "frame_demuxer \<Rightarrow> u8 list \<Rightarrow> frame_demuxer \<times> u8 list" where
  "feed_header d data =
     (let tk = min (FRAME_HEADER_LEN - header_pos d) (length data);
          h = take (header_pos d) (header d) @ take tk data @ drop (header_pos d + tk) (header d);
          d1 = d\<lparr>header := h, header_pos := header_pos d + tk\<rparr>;
          d2 = (if header_pos d1 = FRAME_HEADER_LEN then
                  (let d' = d1\<lparr>stream_type := h ! 0,
                         payload_remaining := u32_from_be_bytes (h ! 4) (h ! 5) (h ! 6) (h ! 7),
                         in_payload := True\<rparr>
                   in if payload_remaining d' = 0 then reset_header d' else d')
                else d1)
      in (d2, drop tk data))"

definition feed_payload ::
  "frame_demuxer \<Rightarrow> u8 list \<Rightarrow> shared_log_buffer \<Rightarrow> shared_log_buffer \<Rightarrow>
   (io_error + bool \<times> bool \<times> frame_demuxer \<times> u8 list) \<times> shared_log_buffer \<times> shared_log_buffer" where
  "feed_payload d data out err =
     (let tk = min (payload_remaining d) (length data);
          chunk = take tk data;
          d1 = d\<lparr>payload_remaining := payload_remaining d - tk\<rparr>;
          d2 = (if payload_remaining d1 = 0 then reset_header d1 else d1);
          rest = drop tk data
      in if stream_type d = 1 then
           (case lb_append out chunk of
              (False, out') \<Rightarrow>
                (Inl (io_other (''stdout output exceeds '' @ show_nat (lb_limit out) @ '' bytes limit'')), out', err)
            | (True, out') \<Rightarrow> (Inr (chunk \<noteq> [], False, d2, rest), out', err))
         else if stream_type d = 2 then
           (case lb_append err chunk of
              (False, err') \<Rightarrow>
                (Inl (io_other (''stderr output exceeds '' @ show_nat (lb_limit err) @ '' bytes limit'')), out, err')
            | (True, err') \<Rightarrow> (Inr (False, chunk \<noteq> [], d2, rest), out, err'))
         else (Inr (False, False, d2, rest), out, err))"

text \<open>
  The loop. A header position past the header would underflow the subtraction and panic;
  \<open>demux_wf\<close> below shows that it never gets there.
\<close>

definition feed_rank :: "frame_demuxer \<Rightarrow> nat" where
  "feed_rank d = (if in_payload d then if payload_remaining d = 0 then 1 else 0
                  else if FRAME_HEADER_LEN \<le> header_pos d then 2 else 0)"

lemma feed_header_decreases:
  assumes "feed_header d data = (d', data')" "data \<noteq> []" "\<not> in_payload d" "header_pos d \<le> FRAME_HEADER_LEN"
  shows "length data' < length data \<or> length data' = length data \<and> feed_rank d' < feed_rank d"
proof (cases "header_pos d = FRAME_HEADER_LEN")
  case True
  then have "data' = data" and "feed_rank d = 2" and "feed_rank d' < 2"
    using assms(1,3)
    by (auto simp: feed_header_def Let_def feed_rank_def reset_header_def FRAME_HEADER_LEN_def split: if_splits)
  then show ?thesis by simp
next
  case False
  with assms(4) have "header_pos d < FRAME_HEADER_LEN" by simp
  moreover have "data' = drop (min (FRAME_HEADER_LEN - header_pos d) (length data)) data"
    using assms(1) by (simp add: feed_header_def Let_def)
  ultimately show ?thesis using assms(2) by (cases data) auto
qed

lemma feed_payload_rest:
  assumes "feed_payload d data out err = (Inr (wo, we, d', data'), out', err')"
  shows "data' = drop (min (payload_remaining d) (length data)) data \<and>
         (payload_remaining d = 0 \<longrightarrow> \<not> in_payload d' \<and> header_pos d' = 0)"
proof (cases "stream_type d = 1")
  case True
  with assms show ?thesis
    by (cases "lb_append out (take (min (payload_remaining d) (length data)) data)")
      (auto simp: feed_payload_def Let_def reset_header_def split: bool.splits)
next
  case False
  with assms show ?thesis
    by (cases "lb_append err (take (min (payload_remaining d) (length data)) data)"; cases "stream_type d = 2")
      (auto simp: feed_payload_def Let_def reset_header_def split: bool.splits)
qed

lemma feed_payload_decreases:
  assumes "feed_payload d data out err = (Inr (wo, we, d', data'), out', err')" "data \<noteq> []" "in_payload d"
  shows "length data' < length data \<or> length data' = length data \<and> feed_rank d' < feed_rank d"
  using feed_payload_rest [OF assms(1)] assms(2,3)
  by (cases "payload_remaining d = 0"; cases data) (auto simp: feed_rank_def FRAME_HEADER_LEN_def)

function feed_loop ::
  "frame_demuxer \<Rightarrow> u8 list \<Rightarrow> shared_log_buffer \<Rightarrow> shared_log_buffer \<Rightarrow> bool \<Rightarrow> bool \<Rightarrow>
   (io_error + bool \<times> bool) \<times> frame_demuxer \<times> shared_log_buffer \<times> shared_log_buffer" where
  "feed_loop d data out err wrote_out wrote_err =
     (if data = [] then (Inr (wrote_out, wrote_err), d, out, err)
      else if \<not> in_payload d then
        (if FRAME_HEADER_LEN < header_pos d
         then (Inl (io_other ''attempt to subtract with overflow''), d, out, err)
         else case feed_header d data of
           (d', data') \<Rightarrow> feed_loop d' data' out err wrote_out wrote_err)
      else
        (case feed_payload d data out err of
           (Inl e, out', err') \<Rightarrow> (Inl e, d, out', err')
         | (Inr (wo, we, d', data'), out', err') \<Rightarrow>
             feed_loop d' data' out' err' (wrote_out \<or> wo) (wrote_err \<or> we)))"
  by pat_completeness auto
termination
  by (relation "measures [\<lambda>(d, data, _). length data, \<lambda>(d, data, _). feed_rank d]")
    (auto dest!: sym [of _ "feed_header _ _"] sym [of _ "feed_payload _ _ _ _"]
      feed_header_decreases feed_payload_decreases)

declare feed_loop.simps [simp del]

definition feed ::
  "frame_demuxer \<Rightarrow> u8 list \<Rightarrow> shared_log_buffer \<Rightarrow> shared_log_buffer \<Rightarrow>
   (io_error + bool \<times> bool) \<times> frame_demuxer \<times> shared_log_buffer \<times> shared_log_buffer" where
  "feed d data out err = feed_loop d data out err False False"

definition demux_wf :: "frame_demuxer \<Rightarrow> bool" where
  "demux_wf d \<longleftrightarrow> length (header d) = 8 \<and>
     (if in_payload d then 0 < payload_remaining d else header_pos d < 8)"

section \<open>The complete-body decoder\<close>

function demux_exec_loop :: "u8 list \<Rightarrow> nat \<Rightarrow> u8 list \<Rightarrow> u8 list \<Rightarrow> u8 list \<times> u8 list" where
  "demux_exec_loop data pos out err =
     (if pos + FRAME_HEADER_LEN \<le> length data then
        (let st = data ! pos;
             payload_len = u32_from_be_bytes (data ! (pos + 4)) (data ! (pos + 5)) (data ! (pos + 6)) (data ! (pos + 7));
             pos' = pos + FRAME_HEADER_LEN;
             end = min (pos' + payload_len) (length data);
             chunk = take (end - pos') (drop pos' data)
         in if st = 1 then demux_exec_loop data end (out @ chunk) err
            else if st = 2 then demux_exec_loop data end out (err @ chunk)
            else demux_exec_loop data end out err)
      else (out, err))"
  by pat_completeness auto
termination
  by (relation "measure (\<lambda>(data, pos, _). length data - pos)") (auto simp: FRAME_HEADER_LEN_def Let_def)

declare demux_exec_loop.simps [simp del]

definition demux_exec_stream :: "u8 list \<Rightarrow> u8 list \<times> u8 list" where
  "demux_exec_stream data = demux_exec_loop data 0 [] []"

section \<open>A byte at a time\<close>

definition demux_byte :: "frame_demuxer \<Rightarrow> u8 \<Rightarrow> frame_demuxer \<times> (u8 \<times> u8) list" where
  "demux_byte d b =
     (if in_payload d then
        (let d1 = d\<lparr>payload_remaining := payload_remaining d - 1\<rparr>
         in (if payload_remaining d1 = 0 then reset_header d1 else d1, [(stream_type d, b)]))
      else
        (let h = (header d)[header_pos d := b];
             d1 = d\<lparr>header := h, header_pos := header_pos d + 1\<rparr>
         in (if header_pos d1 = 8 then
               (let n = u32_from_be_bytes (h ! 4) (h ! 5) (h ! 6) (h ! 7);
                    d' = d1\<lparr>stream_type := h ! 0, payload_remaining := n, in_payload := True\<rparr>
                in if n = 0 then reset_header d' else d')
             else d1, [])))"

fun demux_bytes :: "frame_demuxer \<Rightarrow> u8 list \<Rightarrow> frame_demuxer \<times> (u8 \<times> u8) list" where
  "demux_bytes d [] = (d, [])"
| "demux_bytes d (b # bs) =
     (let (d1, e1) = demux_byte d b; (d2, e2) = demux_bytes d1 bs in (d2, e1 @ e2))"

definition stream_of :: "u8 \<Rightarrow> (u8 \<times> u8) list \<Rightarrow> u8 list" where
  "stream_of t es = map snd (filter (\<lambda>e. fst e = t) es)"

lemma stream_of_simps [simp]:
  "stream_of t [] = []"
  "stream_of t (es @ fs) = stream_of t es @ stream_of t fs"
  "stream_of t (map (Pair t') bs) = (if t = t' then bs else [])"
  by (auto simp: stream_of_def filter_map comp_def)

lemma demux_bytes_append:
  "demux_bytes d (as @ bs) =
     (let (d1, e1) = demux_bytes d as; (d2, e2) = demux_bytes d1 bs in (d2, e1 @ e2))"
  by (induction as arbitrary: d) (auto simp: Let_def split: prod.splits)

lemma demux_byte_wf: "demux_wf d \<Longrightarrow> demux_wf (fst (demux_byte d b))"
  by (auto simp: demux_wf_def demux_byte_def reset_header_def Let_def split: if_splits)

lemma demux_bytes_wf: "demux_wf d \<Longrightarrow> demux_wf (fst (demux_bytes d bs))"
proof (induction bs arbitrary: d)
  case (Cons b bs)
  then show ?case using demux_byte_wf [of d b] by (simp add: Let_def case_prod_beta)
qed simp

lemma demux_wf_new [wf_intros]: "demux_wf demuxer_new"
  by (simp add: demux_wf_def demuxer_new_def FRAME_HEADER_LEN_def)

section \<open>Feeding a chunk is feeding its bytes\<close>

definition advance_header :: "frame_demuxer \<Rightarrow> u8 list \<Rightarrow> frame_demuxer" where
  "advance_header d bs =
     d\<lparr>header := take (header_pos d) (header d) @ bs @ drop (header_pos d + length bs) (header d),
       header_pos := header_pos d + length bs\<rparr>"

definition complete_header :: "frame_demuxer \<Rightarrow> frame_demuxer" where
  "complete_header d =
     (if header_pos d = 8 then
        (let h = header d; n = u32_from_be_bytes (h ! 4) (h ! 5) (h ! 6) (h ! 7);
             d' = d\<lparr>stream_type := h ! 0, payload_remaining := n, in_payload := True\<rparr>
         in if n = 0 then reset_header d' else d')
      else d)"

definition advance_payload :: "frame_demuxer \<Rightarrow> nat \<Rightarrow> frame_demuxer" where
  "advance_payload d n =
     (let d1 = d\<lparr>payload_remaining := payload_remaining d - n\<rparr>
      in if payload_remaining d1 = 0 then reset_header d1 else d1)"

lemma feed_header_eq:
  "feed_header d data =
     (let tk = min (8 - header_pos d) (length data)
      in (complete_header (advance_header d (take tk data)), drop tk data))"
  by (simp add: feed_header_def complete_header_def advance_header_def Let_def FRAME_HEADER_LEN_def)

lemma demux_byte_header:
  assumes "\<not> in_payload d" and "header_pos d < length (header d)"
  shows "demux_byte d b = (complete_header (advance_header d [b]), [])"
  using assms
  by (simp add: demux_byte_def complete_header_def advance_header_def Let_def upd_conv_take_nth_drop)

lemma advance_header_append:
  assumes "header_pos d + length as \<le> length (header d)"
  shows "advance_header (advance_header d as) bs = advance_header d (as @ bs)"
  using assms by (simp add: advance_header_def ac_simps)

lemma demux_bytes_header:
  "\<not> in_payload d \<Longrightarrow> length (header d) = 8 \<Longrightarrow> bs \<noteq> [] \<Longrightarrow> header_pos d + length bs \<le> 8 \<Longrightarrow>
   demux_bytes d bs = (complete_header (advance_header d bs), [])"
proof (induction bs arbitrary: d)
  case (Cons b bs)
  show ?case
  proof (cases "bs = []")
    case True
    with Cons.prems show ?thesis by (simp add: demux_byte_header)
  next
    case False
    let ?d = "advance_header d [b]"
    have "demux_byte d b = (?d, [])"
      using Cons.prems False by (cases bs) (auto simp: demux_byte_header complete_header_def advance_header_def)
    moreover have "demux_bytes ?d bs = (complete_header (advance_header ?d bs), [])"
      using Cons.prems False by (intro Cons.IH) (auto simp: advance_header_def)
    ultimately show ?thesis using Cons.prems advance_header_append [of d "[b]" bs] by simp
  qed
qed simp

lemma demux_bytes_payload:
  "in_payload d \<Longrightarrow> bs \<noteq> [] \<Longrightarrow> length bs \<le> payload_remaining d \<Longrightarrow>
   demux_bytes d bs = (advance_payload d (length bs), map (Pair (stream_type d)) bs)"
proof (induction bs arbitrary: d)
  case (Cons b bs)
  show ?case
  proof (cases "bs = []")
    case True
    with Cons.prems show ?thesis by (simp add: demux_byte_def advance_payload_def Let_def)
  next
    case False
    let ?d = "d\<lparr>payload_remaining := payload_remaining d - 1\<rparr>"
    have "demux_byte d b = (?d, [(stream_type d, b)])"
      using Cons.prems False by (cases bs) (auto simp: demux_byte_def Let_def)
    moreover have "demux_bytes ?d bs = (advance_payload ?d (length bs), map (Pair (stream_type ?d)) bs)"
      using Cons.prems False by (intro Cons.IH) auto
    ultimately show ?thesis by (simp add: advance_payload_def Let_def)
  qed
qed simp

text \<open>
  \<open>appends n b S b'\<close>: the buffer \<open>b'\<close> results from \<open>b\<close> by successful appends of pieces of at
  most \<open>n\<close> bytes that make up \<open>S\<close>.
\<close>

inductive appends :: "nat \<Rightarrow> shared_log_buffer \<Rightarrow> u8 list \<Rightarrow> shared_log_buffer \<Rightarrow> bool" for n where
  appends_Nil: "appends n b [] b"
| appends_Cons: "lb_append b c = (True, b') \<Longrightarrow> length c \<le> n \<Longrightarrow> appends n b' S b'' \<Longrightarrow> appends n b (c @ S) b''"

lemma appends_trans: "appends n b S b' \<Longrightarrow> appends n b' T b'' \<Longrightarrow> appends n b (S @ T) b''"
  by (induction rule: appends.induct) (auto intro: appends.intros)

lemma appends_one: "lb_append b c = (True, b') \<Longrightarrow> length c \<le> n \<Longrightarrow> appends n b c b'"
  using appends_Cons [OF _ _ appends_Nil] by fastforce

lemma appends_mono: "appends n b S b' \<Longrightarrow> n \<le> m \<Longrightarrow> appends m b S b'"
  by (induction rule: appends.induct) (auto intro: appends.intros)

lemma appends_limit: "appends n b S b' \<Longrightarrow> lb_limit b' = lb_limit b \<and> lb_strict b' = lb_strict b"
proof (induction rule: appends.induct)
  case (appends_Cons b c b' S b'')
  then show ?case using lb_append_limit [of b c] by simp
qed simp

lemma appends_wf: "appends n b S b' \<Longrightarrow> lb_wf b \<Longrightarrow> lb_wf b'"
proof (induction rule: appends.induct)
  case (appends_Cons b c b' S b'')
  then show ?case using lb_append_wf [of b c] by simp
qed

lemma appends_follow:
  "appends n b S b' \<Longrightarrow> \<not> lb_strict b \<Longrightarrow> lb_wf b \<Longrightarrow> lb_buf b' = last_n (lb_limit b) (lb_buf b @ S)"
proof (induction rule: appends.induct)
  case (appends_Nil b)
  then show ?case by (simp add: lb_wf_def)
next
  case (appends_Cons b c b' S b'')
  have "lb_buf b' = last_n (lb_limit b) (lb_buf b @ c)" "lb_limit b' = lb_limit b" "\<not> lb_strict b'" "lb_wf b'"
    using appends_Cons lb_append_follow [of b c True b'] lb_append_limit [of b c] lb_append_wf [of b c] by auto
  with appends_Cons.IH show ?case by (simp add: last_n_append_last_n)
qed

lemma appends_strict:
  "appends n b S b' \<Longrightarrow> lb_strict b \<Longrightarrow> lb_wf b \<Longrightarrow>
   lb_buf b' = lb_buf b @ S \<and> length (lb_buf b @ S) \<le> lb_limit b"
proof (induction rule: appends.induct)
  case (appends_Nil b)
  then show ?case by (simp add: lb_wf_def)
next
  case (appends_Cons b c b' S b'')
  have "lb_buf b' = lb_buf b @ c" "lb_limit b' = lb_limit b" "lb_strict b'" "lb_wf b'"
    using appends_Cons lb_append_strict [of b c True b'] lb_append_limit [of b c] lb_append_wf [of b c] by auto
  with appends_Cons.IH show ?case by simp
qed

lemma appends_repr: "appends n b S b' \<Longrightarrow> lb_repr b T \<Longrightarrow> n \<le> lb_limit b \<Longrightarrow> lb_repr b' (T @ S)"
proof (induction arbitrary: T rule: appends.induct)
  case (appends_Cons b c b' S b'')
  then have "lb_repr b' (T @ c)" by (intro lb_append_repr [of b T c b']) auto
  with appends_Cons.IH [of "T @ c"] appends_Cons lb_append_limit [of b c] show ?case by simp
qed simp

text \<open>
  What a pass of the loop does: on success the demultiplexer has moved on as if byte by byte and the
  two buffers have received the bytes of their streams; it fails only when a strict buffer
  would exceed its limit.
\<close>

definition over_limit :: "shared_log_buffer \<Rightarrow> u8 list \<Rightarrow> bool" where
  "over_limit b S \<longleftrightarrow> lb_strict b \<and> lb_limit b < length (lb_buf b) + length S"

definition feed_spec ::
  "nat \<Rightarrow> frame_demuxer \<Rightarrow> u8 list \<Rightarrow> shared_log_buffer \<Rightarrow> shared_log_buffer \<Rightarrow> bool \<Rightarrow> bool \<Rightarrow>
   (io_error + bool \<times> bool) \<times> frame_demuxer \<times> shared_log_buffer \<times> shared_log_buffer \<Rightarrow> bool" where
  "feed_spec n d data out err wo we res \<longleftrightarrow>
     (let es = snd (demux_bytes d data) in
      case res of
        (Inr w, d', out', err') \<Rightarrow>
          d' = fst (demux_bytes d data) \<and> w = (wo \<or> stream_of 1 es \<noteq> [], we \<or> stream_of 2 es \<noteq> []) \<and>
          appends n out (stream_of 1 es) out' \<and> appends n err (stream_of 2 es) err'
      | (Inl _, _, _, _) \<Rightarrow> over_limit out (stream_of 1 es) \<or> over_limit err (stream_of 2 es))"

lemma demux_bytes_split:
  assumes "demux_bytes d (take tk data) = (d', es)"
  shows "demux_bytes d data = (fst (demux_bytes d' (drop tk data)), es @ snd (demux_bytes d' (drop tk data)))"
  using demux_bytes_append [of d "take tk data" "drop tk data"] assms by (simp add: case_prod_beta)

lemma feed_header_bytes:
  assumes "demux_wf d" "\<not> in_payload d" "data \<noteq> []" "feed_header d data = (d', data')"
  shows "demux_wf d'" and "demux_bytes d data = demux_bytes d' data'" and "length data' \<le> length data"
proof -
  let ?tk = "min (8 - header_pos d) (length data)"
  have "take ?tk data \<noteq> []" using assms by (cases data) (auto simp: demux_wf_def)
  then have bytes: "demux_bytes d (take ?tk data) = (d', [])" and rest: "data' = drop ?tk data"
    using assms demux_bytes_header [of d "take ?tk data"] by (auto simp: feed_header_eq demux_wf_def Let_def)
  show "demux_wf d'" using demux_bytes_wf [OF assms(1), of "take ?tk data"] bytes by simp
  show "demux_bytes d data = demux_bytes d' data'" using demux_bytes_split [OF bytes] rest by simp
  show "length data' \<le> length data" using rest by simp
qed

lemma feed_payload_bytes:
  assumes "demux_wf d" "in_payload d" "data \<noteq> []"
  defines "tk \<equiv> min (payload_remaining d) (length data)"
  shows "demux_bytes d (take tk data) = (advance_payload d tk, map (Pair (stream_type d)) (take tk data))"
    and "demux_wf (advance_payload d tk)"
proof -
  have "take tk data \<noteq> []" and len: "length (take tk data) = tk"
    using assms by (auto simp: demux_wf_def)
  then show eq: "demux_bytes d (take tk data) = (advance_payload d tk, map (Pair (stream_type d)) (take tk data))"
    using assms demux_bytes_payload [of d "take tk data"] by simp
  from demux_bytes_wf [OF assms(1), of "take tk data"] eq show "demux_wf (advance_payload d tk)" by simp
qed

text \<open>A payload step appends one piece, to the buffer of its stream.\<close>

lemma feed_payload_eq:
  assumes "tk = min (payload_remaining d) (length data)"
  shows "feed_payload d data out err =
     (if stream_type d = 1 then
        (case lb_append out (take tk data) of
           (False, out') \<Rightarrow>
             (Inl (io_other (''stdout output exceeds '' @ show_nat (lb_limit out) @ '' bytes limit'')), out', err)
         | (True, out') \<Rightarrow> (Inr (take tk data \<noteq> [], False, advance_payload d tk, drop tk data), out', err))
      else if stream_type d = 2 then
        (case lb_append err (take tk data) of
           (False, err') \<Rightarrow>
             (Inl (io_other (''stderr output exceeds '' @ show_nat (lb_limit err) @ '' bytes limit'')), out, err')
         | (True, err') \<Rightarrow> (Inr (False, take tk data \<noteq> [], advance_payload d tk, drop tk data), out, err'))
      else (Inr (False, False, advance_payload d tk, drop tk data), out, err))"
  unfolding feed_payload_def assms advance_payload_def Let_def ..

lemma lb_append_Nil [simp]: "lb_append b [] = (True, b)"
  by (simp add: lb_append_def)

lemma lb_append_False: "lb_append b c = (False, b') \<Longrightarrow> over_limit b (c @ S)"
  by (auto simp: lb_append_def over_limit_def Let_def pop_front_loop_eq split: if_splits)

lemma feed_payload_cases:
  assumes "demux_wf d" "in_payload d" "data \<noteq> []" "feed_payload d data out err = (res, out', err')"
  shows "case res of
      Inl _ \<Rightarrow>
        over_limit out (stream_of 1 (snd (demux_bytes d data))) \<or> over_limit err (stream_of 2 (snd (demux_bytes d data)))
    | Inr (wo', we', d', data') \<Rightarrow>
        \<exists>es. demux_wf d' \<and> wo' = (stream_of 1 es \<noteq> []) \<and> we' = (stream_of 2 es \<noteq> []) \<and>
          demux_bytes d data = (fst (demux_bytes d' data'), es @ snd (demux_bytes d' data')) \<and>
          lb_append out (stream_of 1 es) = (True, out') \<and> length (stream_of 1 es) \<le> length data \<and>
          lb_append err (stream_of 2 es) = (True, err') \<and> length (stream_of 2 es) \<le> length data \<and>
          length data' \<le> length data"
proof -
  obtain tk where tk: "tk = min (payload_remaining d) (length data)" by simp
  note bytes = feed_payload_bytes [OF assms(1-3), folded tk]
  note split = demux_bytes_split [OF bytes(1)]
  note eq = assms(4) [unfolded feed_payload_eq [OF tk]]
  show ?thesis
  proof (cases res)
    case (Inl e)
    with eq consider "stream_type d = 1" "lb_append out (take tk data) = (False, out')"
      | "stream_type d = 2" "lb_append err (take tk data) = (False, err')"
      by (auto split: if_splits prod.splits bool.splits)
    then show ?thesis by cases (simp_all add: Inl split lb_append_False)
  next
    case (Inr r)
    let ?es = "map (Pair (stream_type d)) (take tk data)"
    have "r = (stream_of 1 ?es \<noteq> [], stream_of 2 ?es \<noteq> [], advance_payload d tk, drop tk data)"
      "lb_append out (stream_of 1 ?es) = (True, out')" "lb_append err (stream_of 2 ?es) = (True, err')"
      using eq Inr by (auto split: if_splits prod.splits bool.splits)
    then show ?thesis using Inr bytes(2) split by (auto intro!: exI [of _ ?es])
  qed
qed

text \<open>Every call of \<open>feed\<close> meets its specification.\<close>

lemma over_limit_append:
  assumes "lb_append b c = (True, b')" and "over_limit b' S"
  shows "over_limit b (c @ S)"
  using assms lb_append_limit [of b c] lb_append_strict [of b c True b'] by (auto simp: over_limit_def)

lemma feed_loop_spec:
  "demux_wf d \<Longrightarrow> length data \<le> n \<Longrightarrow>
   feed_spec n d data out err wo we (feed_loop d data out err wo we)"
proof (induction d data out err wo we rule: feed_loop.induct)
  case (1 d data out err wo we)
  consider "data = []" | "data \<noteq> []" "\<not> in_payload d" | "data \<noteq> []" "in_payload d" by blast
  then show ?case
  proof cases
    case 1
    then show ?thesis by (simp add: feed_loop.simps feed_spec_def appends_Nil)
  next
    case 2
    obtain d' data' where h: "feed_header d data = (d', data')" by fastforce
    have pos: "\<not> FRAME_HEADER_LEN < header_pos d"
      using "1.prems" 2 by (simp add: demux_wf_def FRAME_HEADER_LEN_def)
    note step = feed_header_bytes [OF "1.prems"(1) 2(2,1) h]
    then have "feed_spec n d' data' out err wo we (feed_loop d' data' out err wo we)"
      using "1.IH"(1) [OF 2 pos h [symmetric]] "1.prems" by simp
    then have "feed_spec n d data out err wo we (feed_loop d' data' out err wo we)"
      by (simp only: feed_spec_def step(2))
    then show ?thesis using 2 pos h by (subst feed_loop.simps) simp
  next
    case 3
    obtain res out' err' where p: "feed_payload d data out err = (res, out', err')" by (metis prod_cases3)
    note step = feed_payload_cases [OF "1.prems"(1) 3(2,1) p]
    show ?thesis
    proof (cases res)
      case (Inl e)
      with step p 3 show ?thesis by (subst feed_loop.simps) (simp add: feed_spec_def)
    next
      case (Inr r)
      obtain wo' we' d' data' where r: "r = (wo', we', d', data')" by (metis prod_cases4)
      with step Inr obtain es where es: "demux_wf d'" "wo' = (stream_of 1 es \<noteq> [])" "we' = (stream_of 2 es \<noteq> [])"
        "demux_bytes d data = (fst (demux_bytes d' data'), es @ snd (demux_bytes d' data'))"
        "lb_append out (stream_of 1 es) = (True, out')" "length (stream_of 1 es) \<le> length data"
        "lb_append err (stream_of 2 es) = (True, err')" "length (stream_of 2 es) \<le> length data"
        "length data' \<le> length data" by auto
      let ?res = "feed_loop d' data' out' err' (wo \<or> wo') (we \<or> we')"
      have IH: "feed_spec n d' data' out' err' (wo \<or> wo') (we \<or> we') ?res"
        using "1.IH"(2) [of res "(out', err')" r wo' "(we', d', data')" we' "(d', data')" d' data' out' err']
          3 p Inr r es "1.prems" by simp
      have "feed_spec n d data out err wo we ?res"
      proof (cases "fst ?res")
        case (Inl e)
        then show ?thesis using IH es over_limit_append [OF es(5)] over_limit_append [OF es(7)]
          by (cases ?res) (auto simp: feed_spec_def Let_def)
      next
        case (Inr w)
        then show ?thesis using IH es "1.prems" appends_Cons [OF es(5)] appends_Cons [OF es(7)]
          by (cases ?res) (auto simp: feed_spec_def Let_def)
      qed
      then show ?thesis using 3 p Inr r by (subst feed_loop.simps) simp
    qed
  qed
qed

lemma feed_meets_spec: "demux_wf d \<Longrightarrow> feed_spec (length data) d data out err False False (feed d data out err)"
  by (simp add: feed_def feed_loop_spec)

section \<open>A log session\<close>

text \<open>
  The body pieces of a session, one \<open>feed\<close> each, up to the first error. \<open>session_streams\<close>
  is what the whole body holds for stream \<open>t\<close>.
\<close>

fun feed_all ::
  "frame_demuxer \<Rightarrow> u8 list list \<Rightarrow> shared_log_buffer \<Rightarrow> shared_log_buffer \<Rightarrow>
   (io_error + unit) \<times> frame_demuxer \<times> shared_log_buffer \<times> shared_log_buffer" where
  "feed_all d [] out err = (Inr (), d, out, err)"
| "feed_all d (data # rest) out err =
     (case feed d data out err of
        (Inl e, d', out', err') \<Rightarrow> (Inl e, d', out', err')
      | (Inr _, d', out', err') \<Rightarrow> feed_all d' rest out' err')"

definition frames_stream :: "u8 \<Rightarrow> u8 list \<Rightarrow> u8 list" where
  "frames_stream t body = stream_of t (snd (demux_bytes demuxer_new body))"

lemma feed_all_ok:
  assumes "demux_wf d" and "feed_all d pieces out err = (Inr (), d', out', err')"
    and "\<forall>p \<in> set pieces. length p \<le> n"
  shows "d' = fst (demux_bytes d (concat pieces)) \<and>
         appends n out (stream_of 1 (snd (demux_bytes d (concat pieces)))) out' \<and>
         appends n err (stream_of 2 (snd (demux_bytes d (concat pieces)))) err'"
  using assms
proof (induction pieces arbitrary: d out err)
  case Nil
  then show ?case by (simp add: appends_Nil)
next
  case (Cons p ps)
  from Cons.prems obtain w d1 out1 err1 where f: "feed d p out err = (Inr w, d1, out1, err1)"
    and rest: "feed_all d1 ps out1 err1 = (Inr (), d', out', err')"
    by (auto split: prod.splits sum.splits)
  let ?es = "snd (demux_bytes d p)"
  have spec: "d1 = fst (demux_bytes d p)" "appends (length p) out (stream_of 1 ?es) out1"
    "appends (length p) err (stream_of 2 ?es) err1"
    using feed_meets_spec [OF Cons.prems(1), of p out err] f by (auto simp: feed_spec_def Let_def)
  then have "demux_wf d1" and "length p \<le> n" using demux_bytes_wf Cons.prems by auto
  with Cons.IH [OF _ rest] Cons.prems(3) spec appends_mono [of "length p" _ _ _ n] appends_trans
  show ?case by (simp add: demux_bytes_append case_prod_beta) blast
qed

lemma feed_all_err:
  assumes "demux_wf d" and "feed_all d pieces out err = (Inl e, d', out', err')"
    and "lb_wf out" and "lb_wf err"
  shows "over_limit out (stream_of 1 (snd (demux_bytes d (concat pieces)))) \<or>
         over_limit err (stream_of 2 (snd (demux_bytes d (concat pieces))))"
  using assms
proof (induction pieces arbitrary: d out err)
  case (Cons p ps)
  let ?es = "snd (demux_bytes d p)"
  note spec = feed_meets_spec [OF Cons.prems(1), of p out err]
  have more: "over_limit b S \<Longrightarrow> over_limit b (S @ T)" for b S T by (simp add: over_limit_def)
  show ?case
  proof (cases "fst (feed d p out err)")
    case (Inl e')
    then have "over_limit out (stream_of 1 ?es) \<or> over_limit err (stream_of 2 ?es)"
      using spec by (cases "feed d p out err") (auto simp: feed_spec_def Let_def)
    then show ?thesis using more by (auto simp: demux_bytes_append case_prod_beta)
  next
    case (Inr w)
    then obtain d1 out1 err1 where f: "feed d p out err = (Inr w, d1, out1, err1)"
      by (cases "feed d p out err") auto
    then have s: "d1 = fst (demux_bytes d p)" "appends (length p) out (stream_of 1 ?es) out1"
      "appends (length p) err (stream_of 2 ?es) err1"
      using spec by (auto simp: feed_spec_def Let_def)
    have IH: "over_limit out1 (stream_of 1 (snd (demux_bytes d1 (concat ps)))) \<or>
          over_limit err1 (stream_of 2 (snd (demux_bytes d1 (concat ps))))"
      using Cons f s demux_bytes_wf appends_wf by (intro Cons.IH) auto
    have lift: "over_limit b' T \<Longrightarrow> appends k b S b' \<Longrightarrow> lb_wf b \<Longrightarrow> over_limit b (S @ T)" for b b' S T k
      using appends_strict [of k b S b'] appends_limit [of k b S b'] by (auto simp: over_limit_def)
    from IH lift [OF _ s(2)] lift [OF _ s(3)] Cons.prems s(1) show ?thesis
      by (auto simp: demux_bytes_append case_prod_beta)
  qed
qed simp

section \<open>Frames on the wire\<close>

definition be32 :: "nat \<Rightarrow> u8 list" where
  "be32 n = map of_nat [n div 2 ^ 24 mod 256, n div 2 ^ 16 mod 256, n div 2 ^ 8 mod 256, n mod 256]"

definition encode_frame :: "u8 \<times> u8 list \<Rightarrow> u8 list" where
  "encode_frame f = [fst f, 0, 0, 0] @ be32 (length (snd f)) @ snd f"

lemma u32_from_be32:
  assumes "n < 2 ^ 32"
  shows "u32_from_be_bytes (be32 n ! 0) (be32 n ! 1) (be32 n ! 2) (be32 n ! 3) = n"
proof -
  have "unat (of_nat k :: u8) = k" if "k < 256" for k using that by (simp add: unat_of_nat)
  then have "u32_from_be_bytes (be32 n ! 0) (be32 n ! 1) (be32 n ! 2) (be32 n ! 3) =
      n div 2 ^ 24 mod 256 * 2 ^ 24 + n div 2 ^ 16 mod 256 * 2 ^ 16 + n div 2 ^ 8 mod 256 * 2 ^ 8 + n mod 256"
    by (simp add: be32_def u32_from_be_bytes_def)
  also have "\<dots> = n"
  proof -
    let ?a = "n div 256" let ?b = "?a div 256" let ?c = "?b div 256"
    have "n = ?a * 256 + n mod 256" "?a = ?b * 256 + ?a mod 256" "?b = ?c * 256 + ?b mod 256" by simp_all
    then have "?c * 16777216 + ?b mod 256 * 65536 + ?a mod 256 * 256 + n mod 256 = n" by linarith
    moreover have "n div 2 ^ 8 = ?a" "n div 2 ^ 16 = ?b" "n div 2 ^ 24 = ?c"
      by (simp_all add: div_mult2_eq [symmetric])
    moreover have "?c < 256" using assms by (simp add: less_mult_imp_div_less)
    ultimately show ?thesis by (simp del: div_mult_mod_eq)
  qed
  finally show ?thesis .
qed

text \<open>Between frames: at a frame boundary the demultiplexer waits for a new header.\<close>

definition at_boundary :: "frame_demuxer \<Rightarrow> bool" where
  "at_boundary d \<longleftrightarrow> length (header d) = 8 \<and> \<not> in_payload d \<and> header_pos d = 0"

lemma demux_bytes_raw_frame:
  assumes "at_boundary d" and "length h = 8"
    and "length payload \<le> u32_from_be_bytes (h ! 4) (h ! 5) (h ! 6) (h ! 7)"
  shows "\<exists>d'. demux_bytes d (h @ payload) = (d', map (Pair (h ! 0)) payload) \<and>
     (length payload = u32_from_be_bytes (h ! 4) (h ! 5) (h ! 6) (h ! 7) \<longrightarrow> at_boundary d')"
proof -
  let ?n = "u32_from_be_bytes (h ! 4) (h ! 5) (h ! 6) (h ! 7)"
  let ?d = "advance_header d h" let ?d' = "complete_header ?d"
  have hd: "demux_bytes d h = (?d', [])"
    using assms(1,2) by (intro demux_bytes_header) (auto simp: at_boundary_def)
  have d: "header ?d = h" "header_pos ?d = 8"
    using assms(1,2) by (simp_all add: advance_header_def at_boundary_def)
  show ?thesis
  proof (cases "payload = []")
    case True
    with d assms(2) have "?n = 0 \<longrightarrow> at_boundary ?d'"
      by (simp add: complete_header_def at_boundary_def reset_header_def Let_def)
    with hd True show ?thesis by simp
  next
    case False
    then have d': "in_payload ?d'" "stream_type ?d' = h ! 0" "payload_remaining ?d' = ?n" "length (header ?d') = 8"
      using d assms(2,3) by (auto simp: complete_header_def Let_def)
    then have "demux_bytes ?d' payload = (advance_payload ?d' (length payload), map (Pair (h ! 0)) payload)"
      using demux_bytes_payload [of ?d' payload] False assms(3) by simp
    moreover have "length payload = ?n \<longrightarrow> at_boundary (advance_payload ?d' (length payload))"
      using d' by (simp add: advance_payload_def at_boundary_def reset_header_def)
    ultimately show ?thesis using hd demux_bytes_append [of d h payload] by simp
  qed
qed

lemma demux_bytes_frame:
  assumes "at_boundary d" and "length payload < 2 ^ 32"
  shows "\<exists>d'. at_boundary d' \<and> demux_bytes d (encode_frame (t, payload)) = (d', map (Pair t) payload)"
proof -
  let ?h = "[t, 0, 0, 0] @ be32 (length payload)"
  have len: "length ?h = 8" by (simp add: be32_def)
  have n: "u32_from_be_bytes (?h ! 4) (?h ! 5) (?h ! 6) (?h ! 7) = length payload"
    using u32_from_be32 [OF assms(2)] by (simp add: nth_append numeral_nat)
  from demux_bytes_raw_frame [OF assms(1) len, of payload] n show ?thesis
    by (auto simp: encode_frame_def)
qed

lemma demux_bytes_frames:
  assumes "at_boundary d" and "\<forall>f \<in> set fs. length (snd f) < 2 ^ 32"
  shows "\<exists>d'. at_boundary d' \<and>
     demux_bytes d (concat (map encode_frame fs)) = (d', concat (map (\<lambda>f. map (Pair (fst f)) (snd f)) fs))"
  using assms
proof (induction fs arbitrary: d)
  case (Cons f fs)
  obtain d1 where d1: "at_boundary d1" "demux_bytes d (encode_frame f) = (d1, map (Pair (fst f)) (snd f))"
    using demux_bytes_frame [of d "snd f" "fst f"] Cons.prems by auto
  from Cons.IH [OF d1(1)] Cons.prems obtain d2 where "at_boundary d2"
    "demux_bytes d1 (concat (map encode_frame fs)) = (d2, concat (map (\<lambda>f. map (Pair (fst f)) (snd f)) fs))" by auto
  with d1 show ?case by (auto simp: demux_bytes_append case_prod_beta)
qed simp

lemma at_boundary_new [simp]: "at_boundary demuxer_new"
  by (simp add: at_boundary_def demuxer_new_def FRAME_HEADER_LEN_def)

definition payloads :: "u8 \<Rightarrow> (u8 \<times> u8 list) list \<Rightarrow> u8 list" where
  "payloads t fs = concat (map snd (filter (\<lambda>f. fst f = t) fs))"

lemma stream_of_frames: "stream_of t (concat (map (\<lambda>f. map (Pair (fst f)) (snd f)) fs)) = payloads t fs"
  by (induction fs) (auto simp: payloads_def)

lemma frames_stream_frames:
  "\<forall>f \<in> set fs. length (snd f) < 2 ^ 32 \<Longrightarrow> frames_stream t (concat (map encode_frame fs)) = payloads t fs"
  using demux_bytes_frames [of demuxer_new fs] by (auto simp: frames_stream_def stream_of_frames)

section \<open>The two decoders agree\<close>

lemma demux_exec_loop_bytes:
  "at_boundary d \<Longrightarrow> demux_exec_loop data pos out err =
     (out @ stream_of 1 (snd (demux_bytes d (drop pos data))),
      err @ stream_of 2 (snd (demux_bytes d (drop pos data))))"
proof (induction "length data - pos" arbitrary: pos d out err rule: less_induct)
  case less
  show ?case
  proof (cases "pos + 8 \<le> length data")
    case False
    then have "demux_bytes d (drop pos data) = (fst (demux_bytes d (drop pos data)), [])"
      using less.prems demux_bytes_header [of d "drop pos data"]
      by (cases "drop pos data = []") (auto simp: at_boundary_def)
    then show ?thesis using False
      by (subst demux_exec_loop.simps) (simp add: FRAME_HEADER_LEN_def prod_eq_iff)
  next
    case True
    define h where "h = take 8 (drop pos data)"
    define n where "n = u32_from_be_bytes (h ! 4) (h ! 5) (h ! 6) (h ! 7)"
    define stop where "stop = min (pos + 8 + n) (length data)"
    define chunk where "chunk = take (stop - (pos + 8)) (drop (pos + 8) data)"
    have h: "length h = 8" "h ! 0 = data ! pos" "n = u32_from_be_bytes (data ! (pos + 4)) (data ! (pos + 5)) (data ! (pos + 6)) (data ! (pos + 7))"
      using True by (simp_all add: h_def n_def)
    have stop: "pos + 8 \<le> stop" "stop \<le> length data" using True by (auto simp: stop_def)
    have chunk: "length chunk = stop - (pos + 8)" using stop by (simp add: chunk_def)
    have split: "drop pos data = h @ chunk @ drop stop data"
    proof -
      have "drop pos data = h @ drop (pos + 8) data" 
        using append_take_drop_id [of 8 "drop pos data"] by (simp add: h_def add.commute)
      moreover have "drop (pos + 8) data = chunk @ drop stop data"
        using stop append_take_drop_id [of "stop - (pos + 8)" "drop (pos + 8) data"] by (simp add: chunk_def)
      ultimately show ?thesis by simp
    qed
    have loop: "demux_exec_loop data pos out err =
        (if h ! 0 = 1 then demux_exec_loop data stop (out @ chunk) err
         else if h ! 0 = 2 then demux_exec_loop data stop out (err @ chunk)
         else demux_exec_loop data stop out err)"
      using True by (subst demux_exec_loop.simps)
        (simp add: FRAME_HEADER_LEN_def Let_def h(2) h(3) [symmetric] flip: stop_def chunk_def)
    have "length chunk \<le> n" using chunk by (simp add: stop_def)
    then obtain d' where d': "demux_bytes d (h @ chunk) = (d', map (Pair (h ! 0)) chunk)"
      and bd: "length chunk = n \<Longrightarrow> at_boundary d'"
      using demux_bytes_raw_frame [OF less.prems h(1), of chunk] n_def by auto
    have es: "snd (demux_bytes d (drop pos data)) = map (Pair (h ! 0)) chunk @ snd (demux_bytes d' (drop stop data))"
      using split d' demux_bytes_append [of d "h @ chunk" "drop stop data"] by (simp add: case_prod_beta)
    show ?thesis
    proof (cases "stop = length data")
      case True
      then have "demux_exec_loop data stop o1 e1 = (o1, e1)" for o1 e1
        by (subst demux_exec_loop.simps) (simp add: FRAME_HEADER_LEN_def)
      then show ?thesis using loop es True by simp
    next
      case False
      then have "at_boundary d'" using bd chunk stop by (simp add: stop_def min_def split: if_splits)
      then have "demux_exec_loop data stop o1 e1 = (o1 @ stream_of 1 (snd (demux_bytes d' (drop stop data))),
          e1 @ stream_of 2 (snd (demux_bytes d' (drop stop data))))" for o1 e1
        using less.hyps [of stop d' o1 e1] stop True by simp
      then show ?thesis using loop es by simp
    qed
  qed
qed

lemma demux_exec_stream_frames: "demux_exec_stream data = (frames_stream 1 data, frames_stream 2 data)"
  using demux_exec_loop_bytes [OF at_boundary_new, of data 0 "[]" "[]"]
  by (simp add: demux_exec_stream_def frames_stream_def)

section \<open>Properties\<close>

lemma lb_new_simps [simp]:
  "lb_buf (lb_new l) = []" "lb_limit (lb_new l) = l" "lb_strict (lb_new l) = False" "lb_wf (lb_new l)"
  "lb_repr (lb_new l) []" "lb_head (lb_new l) = 0"
  "lb_buf (lb_new_strict l) = []" "lb_limit (lb_new_strict l) = l" "lb_strict (lb_new_strict l) = True"
  "lb_wf (lb_new_strict l)" "lb_repr (lb_new_strict l) []" "lb_head (lb_new_strict l) = 0"
  by (simp_all add: lb_new_def lb_new_strict_def lb_with_mode_def lb_wf_def lb_repr_def)

lemma demux_wf_new_simp [simp]: "demux_wf demuxer_new"
  by (rule demux_wf_new)

lemma feed_all_follow:
  "\<exists>d' out' err'. feed_all demuxer_new pieces (lb_new limit) (lb_new limit) = (Inr (), d', out', err') \<and>
     lb_buf out' = last_n limit (frames_stream 1 (concat pieces)) \<and>
     lb_buf err' = last_n limit (frames_stream 2 (concat pieces))"
proof -
  obtain r d' out' err' where r: "feed_all demuxer_new pieces (lb_new limit) (lb_new limit) = (r, d', out', err')"
    by (metis prod_cases4)
  have "r = Inr ()" using feed_all_err [OF demux_wf_new, of pieces "lb_new limit" "lb_new limit"] r
    by (cases r) (auto simp: over_limit_def)
  with r feed_all_ok [OF demux_wf_new, of pieces "lb_new limit" "lb_new limit" d' out' err' "sum_list (map length pieces)"]
  have "appends (sum_list (map length pieces)) (lb_new limit) (frames_stream 1 (concat pieces)) out'"
    "appends (sum_list (map length pieces)) (lb_new limit) (frames_stream 2 (concat pieces)) err'"
    by (simp_all add: frames_stream_def member_le_sum_list)
  with r \<open>r = Inr ()\<close> show ?thesis by (auto dest!: appends_follow)
qed

lemma demux_bytes_length: "length (snd (demux_bytes d bs)) \<le> length bs"
proof (induction bs arbitrary: d)
  case (Cons b bs)
  have "length (snd (demux_byte d b)) \<le> 1" by (simp add: demux_byte_def Let_def)
  with Cons [of "fst (demux_byte d b)"] show ?case by (simp add: case_prod_beta)
qed simp

lemma frames_stream_length: "length (frames_stream t body) \<le> length body"
  using demux_bytes_length [of demuxer_new body] order.trans [OF length_filter_le]
  by (simp add: frames_stream_def stream_of_def)

text \<open>Strict buffers receive the whole streams, or the feed fails because one exceeds the limit.\<close>

lemma feed_all_strict:
  "case feed_all demuxer_new pieces (lb_new_strict limit) (lb_new_strict limit) of
     (Inr _, _, out', err') \<Rightarrow>
       drain_buffer out' = frames_stream 1 (concat pieces) \<and> drain_buffer err' = frames_stream 2 (concat pieces) \<and>
       length (frames_stream 1 (concat pieces)) \<le> limit \<and> length (frames_stream 2 (concat pieces)) \<le> limit
   | (Inl _, _, _, _) \<Rightarrow>
       limit < length (frames_stream 1 (concat pieces)) \<or> limit < length (frames_stream 2 (concat pieces))"
proof -
  obtain r d' out' err' where r:
    "feed_all demuxer_new pieces (lb_new_strict limit) (lb_new_strict limit) = (r, d', out', err')"
    by (metis prod_cases4)
  show ?thesis
  proof (cases r)
    case (Inl e)
    with r feed_all_err [OF demux_wf_new, of pieces "lb_new_strict limit" "lb_new_strict limit"] show ?thesis
      by (auto simp: over_limit_def frames_stream_def)
  next
    case (Inr u)
    with r feed_all_ok [OF demux_wf_new, of pieces "lb_new_strict limit" "lb_new_strict limit" d' out' err'
        "sum_list (map length pieces)"]
    have "appends (sum_list (map length pieces)) (lb_new_strict limit) (frames_stream 1 (concat pieces)) out'"
      "appends (sum_list (map length pieces)) (lb_new_strict limit) (frames_stream 2 (concat pieces)) err'"
      by (simp_all add: frames_stream_def member_le_sum_list)
    from this [THEN appends_strict] r Inr show ?thesis by (simp add: drain_buffer_eq)
  qed
qed

text \<open>
  C34. The decoder of complete exec bodies and the incremental demultiplexer of log streams agree on
  every body, truncated and malformed ones included, and for every way of cutting it into pieces.
\<close>

theorem demux_exec_stream_agrees:
  "\<exists>d' out' err'. feed_all demuxer_new pieces (lb_new (length (concat pieces))) (lb_new (length (concat pieces)))
       = (Inr (), d', out', err') \<and> demux_exec_stream (concat pieces) = (lb_buf out', lb_buf err')"
  using feed_all_follow [of pieces "length (concat pieces)"]
    frames_stream_length [of 1 "concat pieces"] frames_stream_length [of 2 "concat pieces"]
  by (auto simp: demux_exec_stream_frames)

text \<open>
  Frames that Docker writes decode to their payloads: stream by stream, in order, whatever other
  stream types are interleaved.
\<close>

lemma demux_exec_stream_frames_roundtrip:
  assumes "\<forall>f \<in> set fs. length (snd f) < 2 ^ 32"
  shows "demux_exec_stream (concat (map encode_frame fs)) = (payloads 1 fs, payloads 2 fs)"
  using assms by (simp add: demux_exec_stream_frames frames_stream_frames)

lemma feed_all_repr:
  assumes "feed_all demuxer_new pieces (lb_new limit) err = (Inr (), d', out', err')"
    and "\<forall>p \<in> set pieces. length p \<le> limit"
  shows "lb_repr out' (frames_stream 1 (concat pieces))"
  using feed_all_ok [OF demux_wf_new assms] appends_repr [of limit "lb_new limit" _ out' "[]"]
  by (simp add: frames_stream_def)

text \<open>
  A reader of the shared buffer never sees a byte twice or out of order: while pieces of at
  most \<open>limit\<close> bytes are fed, the buffer stands for the stream fed so far, and a read at an
  offset that is still retained returns the bytes the stream has there, without a skip.
\<close>

lemma follow_session_read:
  assumes "feed_all demuxer_new pieces (lb_new limit) err = (Inr (), d', out', err')"
    and "\<forall>p \<in> set pieces. length p \<le> limit"
    and "lb_head out' \<le> off" and "off \<le> length (frames_stream 1 (concat pieces))"
    and "lb_read_at out' off cap = (bs, nxt, skipped)"
  shows "\<not> skipped \<and> off \<le> nxt \<and> bs = take (nxt - off) (drop off (frames_stream 1 (concat pieces)))"
  using lb.read_contiguous [OF feed_all_repr [OF assms(1,2)] assms(3-5)] by (simp add: seg_def)

text \<open>
  An append longer than the limit breaks the offset accounting: the bytes it discards are not
  counted in the head offset, so a reader that was up to date is handed the surviving bytes as if
  they followed what it had read, and the skip is not reported.
\<close>

lemma oversize_append_hides_loss:
  "\<exists>b b' bs nxt. lb_append (lb_new 2) [1, 2] = (True, b) \<and> lb_append b [3, 4, 5] = (True, b') \<and>
     lb_read_at b' 2 8 = (bs, nxt, False) \<and> bs = [4, 5] \<and> drop 2 ([1, 2] @ [3, 4, 5]) = [3, 4, 5 :: u8]"
  by (simp add: lb_append_def lb_new_def lb_with_mode_def pop_front_loop_eq lb_read_at_def)

end
