(* ===== verification/Log_Session.thy ===== *)
theory Log_Session
  imports Log_Demux
begin

text \<open>
  The log sessions of \<open>src/core/client/docker_log_stream.rs\<close>: the handle and its flags, the
  demultiplexing loop of a follow session, the one-shot fetch, and the readers over the shared
  buffers.

  The HTTP decoder is third-party code (\<open>shiguredo_http11\<close>) and the socket is the operating
  system's: what they answer, call by call, is an argument of the definitions (a list of answers
  in the order of the calls). A list that is too short stands for a call that never returns.
\<close>

section \<open>Streams and the handle\<close>

record log_stream =
  ls_buffer :: shared_log_buffer
  ls_terminated :: bool
  ls_notified :: nat

definition log_stream_new :: "nat \<Rightarrow> log_stream" where
  "log_stream_new limit = \<lparr>ls_buffer = lb_new limit, ls_terminated = False, ls_notified = 0\<rparr>"

definition notify_waiters :: "log_stream \<Rightarrow> log_stream" where
  "notify_waiters s = s\<lparr>ls_notified := ls_notified s + 1\<rparr>"

definition log_stream_terminate :: "log_stream \<Rightarrow> log_stream" where
  "log_stream_terminate s = notify_waiters (s\<lparr>ls_terminated := True\<rparr>)"

record docker_logs_handle =
  dh_socket_path :: string
  dh_id :: string
  dh_stdout :: log_stream
  dh_stderr :: log_stream
  dh_log_stop :: bool
  dh_shutdown_socket :: bool
  dh_demux_done :: bool
  dh_active_consumers :: u64

definition docker_logs_handle_new :: "string \<Rightarrow> string \<Rightarrow> docker_logs_handle" where
  "docker_logs_handle_new socket_path i =
     \<lparr>dh_socket_path = socket_path, dh_id = i,
      dh_stdout = log_stream_new DEFAULT_BUFFER_LIMIT, dh_stderr = log_stream_new DEFAULT_BUFFER_LIMIT,
      dh_log_stop = False, dh_shutdown_socket = False, dh_demux_done = False, dh_active_consumers = 0\<rparr>"

text \<open>\<open>stop\<close>: the result says whether a socket was shut down.\<close>

definition handle_stop :: "docker_logs_handle \<Rightarrow> bool \<times> docker_logs_handle" where
  "handle_stop h = (dh_shutdown_socket h, h\<lparr>dh_log_stop := True, dh_shutdown_socket := False\<rparr>)"

definition terminate_all :: "docker_logs_handle \<Rightarrow> docker_logs_handle" where
  "terminate_all h =
     h\<lparr>dh_stdout := log_stream_terminate (dh_stdout h), dh_stderr := log_stream_terminate (dh_stderr h),
       dh_demux_done := True\<rparr>"

definition logs_terminated :: "docker_logs_handle \<Rightarrow> bool" where
  "logs_terminated h = dh_demux_done h"

definition register_consumer :: "docker_logs_handle \<Rightarrow> docker_logs_handle" where
  "register_consumer h = h\<lparr>dh_active_consumers := dh_active_consumers h + 1\<rparr>"

definition consumer_finished :: "docker_logs_handle \<Rightarrow> docker_logs_handle" where
  "consumer_finished h = h\<lparr>dh_active_consumers := dh_active_consumers h - 1\<rparr>"

definition all_done :: "docker_logs_handle \<Rightarrow> bool" where
  "all_done h \<longleftrightarrow> dh_demux_done h \<and> dh_active_consumers h = 0"

section \<open>Response heads\<close>

text \<open>\<open>is_multiplex_content_type\<close>: \<open>split(';').next()\<close> always yields a first piece.\<close>

definition is_multiplex_content_type :: "string option \<Rightarrow> bool" where
  "is_multiplex_content_type content_type =
     (case content_type of
        None \<Rightarrow> True
      | Some ct \<Rightarrow>
          let media = trim (hd (split_on CHR '';'' ct))
          in media = [] \<or> eq_ignore_ascii_case media ''application/vnd.docker.multiplexed-stream''
             \<or> eq_ignore_ascii_case media ''application/octet-stream'')"

text \<open>
  One turn of reading a head: the room the decoder has, the error of \<open>mut_buf\<close>, the result of the
  socket read, and the decoder's answer (an error, no head yet, or status and content type).
\<close>

record head_turn =
  ht_available :: nat
  ht_mut_buf :: "string option"
  ht_read :: "io_error + nat"
  ht_decode :: "string + (nat \<times> string option) option"

definition check_head :: "nat \<Rightarrow> string option \<Rightarrow> io_error + unit" where
  "check_head status content_type =
     (if status \<noteq> 200 then Inl (io_other (''logs request failed with status '' @ show_nat status))
      else if \<not> is_multiplex_content_type content_type then
        Inl (io_other (''unsupported log stream content type: '' @
          (case content_type of Some ct \<Rightarrow> ct | None \<Rightarrow> ''<absent>'')))
      else Inr ())"

text \<open>
  Both sessions read the head the same way; they differ in two texts and in how an I/O error and a
  decoder error become the error of the function (\<open>of_io\<close>, \<open>of_text\<close>).
\<close>

fun read_head :: "(io_error \<Rightarrow> 'e) \<Rightarrow> (string \<Rightarrow> 'e) \<Rightarrow> string \<Rightarrow> string \<Rightarrow> head_turn list \<Rightarrow> ('e + unit) option" where
  "read_head of_io of_text full closed [] = None"
| "read_head of_io of_text full closed (t # ts) =
     (if min (ht_available t) READ_CHUNK = 0 then Some (Inl (of_io (io_other full)))
      else case ht_mut_buf t of
        Some m \<Rightarrow> Some (Inl (of_text m))
      | None \<Rightarrow>
          (case ht_read t of
             Inl e \<Rightarrow> Some (Inl (of_io e))
           | Inr n \<Rightarrow>
               (case ht_decode t of
                  Inl m \<Rightarrow> Some (Inl (of_text m))
                | Inr (Some (status, ct)) \<Rightarrow> Some (map_err of_io (check_head status ct))
                | Inr None \<Rightarrow>
                    if n = 0 then Some (Inl (of_io (io_other closed)))
                    else read_head of_io of_text full closed ts)))"

definition read_and_validate_head :: "head_turn list \<Rightarrow> unit result option" where
  "read_and_validate_head =
     read_head Io Other ''decoder buffer full while reading log head'' ''connection closed before log head complete''"

section \<open>Draining the decoder\<close>

text \<open>
  The answers of the decoder in a drain loop: a body piece with the error of consuming it, or the
  answer of \<open>progress\<close>.
\<close>

datatype body_progress = Complete | Advanced | NeedData

datatype dec_answer = Peeked "u8 list" "string option" | Progress "string + body_progress"

definition feed_handle ::
  "frame_demuxer \<Rightarrow> u8 list \<Rightarrow> docker_logs_handle \<Rightarrow> (io_error + bool \<times> bool) \<times> frame_demuxer \<times> docker_logs_handle" where
  "feed_handle d data h =
     (case feed d data (ls_buffer (dh_stdout h)) (ls_buffer (dh_stderr h)) of
        (r, d', out, err) \<Rightarrow>
          (r, d', h\<lparr>dh_stdout := (dh_stdout h)\<lparr>ls_buffer := out\<rparr>, dh_stderr := (dh_stderr h)\<lparr>ls_buffer := err\<rparr>\<rparr>))"

definition notify_written :: "bool \<Rightarrow> bool \<Rightarrow> docker_logs_handle \<Rightarrow> docker_logs_handle" where
  "notify_written wrote_out wrote_err h =
     h\<lparr>dh_stdout := (if wrote_out then notify_waiters (dh_stdout h) else dh_stdout h),
       dh_stderr := (if wrote_err then notify_waiters (dh_stderr h) else dh_stderr h)\<rparr>"

fun drain_decoded ::
  "dec_answer list \<Rightarrow> frame_demuxer \<Rightarrow> docker_logs_handle \<Rightarrow>
   (unit result \<times> dec_answer list \<times> frame_demuxer \<times> docker_logs_handle) option" where
  "drain_decoded [] d h = None"
| "drain_decoded (Peeked data consume_err # as) d h =
     (case feed_handle d data h of
        (Inl e, d', h') \<Rightarrow> Some (Inl (Other (io_text e)), as, d', h')
      | (Inr (wrote_out, wrote_err), d', h') \<Rightarrow>
          (case consume_err of
             Some m \<Rightarrow> Some (Inl (Other m), as, d', h')
           | None \<Rightarrow> drain_decoded as d' (notify_written wrote_out wrote_err h')))"
| "drain_decoded (Progress (Inl m) # as) d h = Some (Inl (Other m), as, d, h)"
| "drain_decoded (Progress (Inr Complete) # as) d h = Some (Inr (), as, d, h)"
| "drain_decoded (Progress (Inr Advanced) # as) d h = drain_decoded as d h"
| "drain_decoded (Progress (Inr NeedData) # as) d h = Some (Inr (), as, d, h)"

text \<open>One turn of the demultiplexing loop: the stop flag it reads, and what reading the socket gives.\<close>

record demux_turn =
  dt_log_stop :: bool
  dt_available :: nat
  dt_mut_buf :: "string option"
  dt_read :: "io_error + nat"

fun demux_loop ::
  "demux_turn list \<Rightarrow> dec_answer list \<Rightarrow> frame_demuxer \<Rightarrow> docker_logs_handle \<Rightarrow>
   (unit result \<times> dec_answer list \<times> frame_demuxer \<times> docker_logs_handle) option" where
  "demux_loop [] as d h = None"
| "demux_loop (t # ts) as d h =
     (if dt_log_stop t then Some (Inr (), as, d, h)
      else case drain_decoded as d h of
        None \<Rightarrow> None
      | Some (Inl e, rest) \<Rightarrow> Some (Inl e, rest)
      | Some (Inr _, as', d', h') \<Rightarrow>
          if min (dt_available t) READ_CHUNK = 0
          then Some (Inl (Io (io_other ''decoder buffer full while streaming logs'')), as', d', h')
          else (case dt_mut_buf t of
             Some m \<Rightarrow> Some (Inl (Other m), as', d', h')
           | None \<Rightarrow>
               (case dt_read t of
                  Inl e \<Rightarrow> Some (Inl (Io e), as', d', h')
                | Inr n \<Rightarrow> if n = 0 then drain_decoded as' d' h' else demux_loop ts as' d' h')))"

text \<open>
  The whole session on its blocking thread. Set-up steps that fail before the loop are the
  argument \<open>setup\<close>; \<open>started\<close> is what the caller of \<open>spawn_log_session\<close> is told. Whatever
  happens, the guard terminates both streams.
\<close>

definition run_log_session ::
  "unit result \<Rightarrow> head_turn list \<Rightarrow> bool \<Rightarrow> unit result \<Rightarrow> demux_turn list \<Rightarrow> dec_answer list \<Rightarrow> docker_logs_handle \<Rightarrow>
   (unit result \<times> docker_logs_handle) option" where
  "run_log_session setup head_turns caller_gone unset_timeouts turns as h =
     (case setup of
        Inl e \<Rightarrow> Some (Inl e, terminate_all h)
      | Inr _ \<Rightarrow>
          (case read_and_validate_head head_turns of
             None \<Rightarrow> None
           | Some (Inl e) \<Rightarrow> Some (Inl e, terminate_all h)
           | Some (Inr _) \<Rightarrow>
               if caller_gone then Some (Inr (), terminate_all h)
               else (case unset_timeouts of
                  Inl e \<Rightarrow> Some (Inr (), terminate_all h)
                | Inr _ \<Rightarrow>
                    map_option (\<lambda>(_, _, _, h'). (Inr (), terminate_all h'))
                      (demux_loop turns as demuxer_new h))))"

section \<open>The one-shot fetch\<close>

fun drain_oneshot_body ::
  "dec_answer list \<Rightarrow> frame_demuxer \<Rightarrow> shared_log_buffer \<Rightarrow> shared_log_buffer \<Rightarrow>
   ((io_error + bool) \<times> dec_answer list \<times> frame_demuxer \<times> shared_log_buffer \<times> shared_log_buffer) option" where
  "drain_oneshot_body [] d out err = None"
| "drain_oneshot_body (Peeked data consume_err # as) d out err =
     (case feed d data out err of
        (Inl e, d', out', err') \<Rightarrow> Some (Inl e, as, d', out', err')
      | (Inr _, d', out', err') \<Rightarrow>
          (case consume_err of
             Some m \<Rightarrow> Some (Inl (io_other m), as, d', out', err')
           | None \<Rightarrow> drain_oneshot_body as d' out' err'))"
| "drain_oneshot_body (Progress (Inl m) # as) d out err = Some (Inl (io_other m), as, d, out, err)"
| "drain_oneshot_body (Progress (Inr Complete) # as) d out err = Some (Inr True, as, d, out, err)"
| "drain_oneshot_body (Progress (Inr Advanced) # as) d out err = drain_oneshot_body as d out err"
| "drain_oneshot_body (Progress (Inr NeedData) # as) d out err = Some (Inr False, as, d, out, err)"

fun fetch_body ::
  "(nat \<times> string option \<times> (io_error + nat)) list \<Rightarrow> dec_answer list \<Rightarrow> frame_demuxer \<Rightarrow>
   shared_log_buffer \<Rightarrow> shared_log_buffer \<Rightarrow> ((io_error + u8 list \<times> u8 list) \<times> dec_answer list) option" where
  "fetch_body turns as d out err =
     (case drain_oneshot_body as d out err of
        None \<Rightarrow> None
      | Some (Inl e, as', _) \<Rightarrow> Some (Inl e, as')
      | Some (Inr True, as', d', out', err') \<Rightarrow> Some (Inr (drain_buffer out', drain_buffer err'), as')
      | Some (Inr False, as', d', out', err') \<Rightarrow>
          (case turns of
             [] \<Rightarrow> None
           | (available, mut_buf, rd) # ts \<Rightarrow>
               if min available READ_CHUNK = 0
               then Some (Inl (io_other ''decoder buffer full while reading oneshot body''), as')
               else (case mut_buf of
                  Some m \<Rightarrow> Some (Inl (io_other m), as')
                | None \<Rightarrow>
                    (case rd of
                       Inl e \<Rightarrow> Some (Inl e, as')
                     | Inr n \<Rightarrow>
                         if n = 0 then
                           (case drain_oneshot_body as' d' out' err' of
                              None \<Rightarrow> None
                            | Some (Inl e, as2, _) \<Rightarrow> Some (Inl e, as2)
                            | Some (Inr _, as2, _, out2, err2) \<Rightarrow>
                                Some (Inr (drain_buffer out2, drain_buffer err2), as2))
                         else fetch_body ts as' d' out' err'))))"

definition fetch_logs_oneshot_with_limit ::
  "nat \<Rightarrow> (io_error + unit) \<Rightarrow> head_turn list \<Rightarrow> (nat \<times> string option \<times> (io_error + nat)) list \<Rightarrow> dec_answer list \<Rightarrow>
   ((io_error + u8 list \<times> u8 list) \<times> dec_answer list) option" where
  "fetch_logs_oneshot_with_limit limit setup head_turns turns as =
     (case setup of
        Inl e \<Rightarrow> Some (Inl e, as)
      | Inr _ \<Rightarrow>
          (case read_head (\<lambda>e. e) io_other ''decoder buffer full while reading oneshot head''
                  ''connection closed before oneshot head complete'' head_turns of
             None \<Rightarrow> None
           | Some (Inl e) \<Rightarrow> Some (Inl e, as)
           | Some (Inr _) \<Rightarrow> fetch_body turns as demuxer_new (lb_new_strict limit) (lb_new_strict limit)))"

definition fetch_logs_oneshot ::
  "(io_error + unit) \<Rightarrow> head_turn list \<Rightarrow> (nat \<times> string option \<times> (io_error + nat)) list \<Rightarrow> dec_answer list \<Rightarrow>
   ((io_error + u8 list \<times> u8 list) \<times> dec_answer list) option" where
  "fetch_logs_oneshot = fetch_logs_oneshot_with_limit DOCKER_RESPONSE_BODY_LIMIT"

section \<open>Readers of the shared buffer\<close>

record log_reader =
  lr_offset :: nat
  lr_warned_skip :: bool
  lr_buf :: "u8 list"
  lr_pos :: nat

definition log_reader_new :: log_reader where
  "log_reader_new = \<lparr>lr_offset = 0, lr_warned_skip = False, lr_buf = [], lr_pos = 0\<rparr>"

text \<open>
  \<open>poll_fill\<close> locks the buffer to read it and afterwards loads the termination flag; another
  thread may act in between, so the two are separate functions. The first returns the unread
  bytes when there are some; only when it returns none does the second decide between the end of
  the stream and waiting.
\<close>

definition poll_fill_read :: "shared_log_buffer \<Rightarrow> log_reader \<Rightarrow> u8 list \<times> log_reader" where
  "poll_fill_read b r =
     (if lr_pos r < length (lr_buf r) then (drop (lr_pos r) (lr_buf r), r)
      else
        let (bs, nxt, skipped) = lb_read_at b (lr_offset r) READ_CHUNK
        in (bs, r\<lparr>lr_buf := bs, lr_pos := 0, lr_offset := nxt, lr_warned_skip := lr_warned_skip r \<or> skipped\<rparr>))"

datatype poll = Pending | Ready "u8 list"

definition poll_fill_finish :: "u8 list \<Rightarrow> bool \<Rightarrow> poll" where
  "poll_fill_finish bs terminated =
     (if bs \<noteq> [] then Ready bs else if terminated then Ready [] else Pending)"

definition log_reader_consume :: "nat \<Rightarrow> log_reader \<Rightarrow> log_reader" where
  "log_reader_consume amt r = r\<lparr>lr_pos := min (lr_pos r + amt) (length (lr_buf r))\<rparr>"

text \<open>A poll during which no other thread acts.\<close>

definition poll_fill :: "log_stream \<Rightarrow> log_reader \<Rightarrow> poll \<times> log_reader" where
  "poll_fill s r =
     (case poll_fill_read (ls_buffer s) r of (bs, r') \<Rightarrow> (poll_fill_finish bs (ls_terminated s), r'))"

definition poll_read :: "log_stream \<Rightarrow> nat \<Rightarrow> log_reader \<Rightarrow> poll \<times> log_reader" where
  "poll_read s remaining r =
     (case poll_fill s r of
        (Pending, r') \<Rightarrow> (Pending, r')
      | (Ready data, r') \<Rightarrow>
          let n = min (length data) remaining
          in (Ready (take n data), r'\<lparr>lr_pos := lr_pos r' + n\<rparr>))"

text \<open>The synchronous reader: each turn of its loop sees the buffer and then the flag.\<close>

fun sync_read ::
  "nat \<Rightarrow> (shared_log_buffer \<times> bool) list \<Rightarrow> nat \<times> bool \<Rightarrow> (u8 list \<times> nat \<times> bool) option" where
  "sync_read cap [] st = None"
| "sync_read cap ((b, terminated) # turns) (offset, warned_skip) =
     (let (bs, nxt, skipped) = lb_read_at b offset cap;
          warned = (warned_skip \<or> skipped)
      in if bs \<noteq> [] then Some (bs, nxt, warned)
         else if terminated then Some ([], nxt, warned)
         else sync_read cap turns (nxt, warned))"

section \<open>One-shot readers\<close>

text \<open>\<open>SyncOneshotReader\<close>: the fetch runs on the first read; its answer is the argument \<open>fetch\<close>.\<close>

record sync_oneshot =
  so_stdout :: bool
  so_data :: "u8 list option"
  so_pos :: nat
  so_failed :: bool

definition sync_oneshot_new :: "bool \<Rightarrow> sync_oneshot" where
  "sync_oneshot_new std_out = \<lparr>so_stdout = std_out, so_data = None, so_pos = 0, so_failed = False\<rparr>"

definition sync_oneshot_fetch :: "(io_error + u8 list \<times> u8 list) \<Rightarrow> sync_oneshot \<Rightarrow> (io_error + unit) \<times> sync_oneshot" where
  "sync_oneshot_fetch fetch r =
     (if so_data r = None \<and> \<not> so_failed r then
        (case fetch of
           Inr (out, err) \<Rightarrow> (Inr (), r\<lparr>so_data := Some (if so_stdout r then out else err)\<rparr>)
         | Inl e \<Rightarrow> (Inl e, r\<lparr>so_failed := True\<rparr>))
      else (Inr (), r))"

definition sync_oneshot_read ::
  "(io_error + u8 list \<times> u8 list) \<Rightarrow> nat \<Rightarrow> sync_oneshot \<Rightarrow> (io_error + u8 list) \<times> sync_oneshot" where
  "sync_oneshot_read fetch cap r =
     (case sync_oneshot_fetch fetch r of
        (Inl e, r') \<Rightarrow> (Inl e, r')
      | (Inr _, r') \<Rightarrow>
          if so_failed r' then (Inl (io_other ''oneshot log reader already failed''), r')
          else
            (case so_data r' of
               None \<Rightarrow> (Inl (io_other ''data must be fetched before reading oneshot logs''), r')
             | Some data \<Rightarrow>
                 let remaining = drop (so_pos r') data;
                     n = min (length remaining) cap
                 in (Inr (take n remaining), r'\<lparr>so_pos := so_pos r' + n\<rparr>)))"

text \<open>
  \<open>OneshotReader\<close>: the first poll starts the fetch; \<open>rx\<close> is what polling the channel then gives
  (still pending, the fetch's answer, or a cancelled task).
\<close>

datatype oneshot_state = NotStarted | Running | Done "u8 list" nat | Failed

datatype oneshot_rx = RxPending | RxDone "io_error + u8 list \<times> u8 list" | RxCancelled

datatype oneshot_poll = OnePending | OneReady "io_error + u8 list"

fun oneshot_done_read :: "nat \<Rightarrow> u8 list \<Rightarrow> nat \<Rightarrow> oneshot_poll \<times> oneshot_state" where
  "oneshot_done_read remaining data pos =
     (let bs = take (min (length (drop pos data)) remaining) (drop pos data)
      in (OneReady (Inr bs), Done data (pos + length bs)))"

fun oneshot_running :: "bool \<Rightarrow> oneshot_rx \<Rightarrow> nat \<Rightarrow> oneshot_poll \<times> oneshot_state" where
  "oneshot_running std_out RxPending remaining = (OnePending, Running)"
| "oneshot_running std_out (RxDone (Inr (out, err))) remaining =
     oneshot_done_read remaining (if std_out then out else err) 0"
| "oneshot_running std_out (RxDone (Inl e)) remaining = (OneReady (Inl e), Failed)"
| "oneshot_running std_out RxCancelled remaining =
     (OneReady (Inl (io_other ''oneshot log fetch task cancelled'')), Failed)"

fun oneshot_poll_read :: "bool \<Rightarrow> oneshot_rx \<Rightarrow> nat \<Rightarrow> oneshot_state \<Rightarrow> oneshot_poll \<times> oneshot_state" where
  "oneshot_poll_read std_out rx remaining NotStarted = oneshot_running std_out rx remaining"
| "oneshot_poll_read std_out rx remaining Running = oneshot_running std_out rx remaining"
| "oneshot_poll_read std_out rx remaining (Done data pos) = oneshot_done_read remaining data pos"
| "oneshot_poll_read std_out rx remaining Failed =
     (OneReady (Inl (io_other ''oneshot log reader already failed'')), Failed)"

section \<open>Sessions feed the pieces the decoder hands out\<close>

fun pieces_of :: "dec_answer list \<Rightarrow> u8 list list" where
  "pieces_of [] = []"
| "pieces_of (Peeked data _ # as) = data # pieces_of as"
| "pieces_of (Progress _ # as) = pieces_of as"

lemma pieces_of_append [simp]: "pieces_of (as @ bs) = pieces_of as @ pieces_of bs"
  by (induction as rule: pieces_of.induct) auto

lemma feed_all_append:
  "feed_all d ps out err = (Inr (), d', out', err') \<Longrightarrow>
   feed_all d (ps @ qs) out err = feed_all d' qs out' err'"
  by (induction ps arbitrary: d out err) (auto split: prod.splits sum.splits)

text \<open>\<open>fed as as' d h d' h'\<close>: the session went from \<open>as\<close> to \<open>as'\<close> by feeding the pieces in between.\<close>

definition fed ::
  "dec_answer list \<Rightarrow> dec_answer list \<Rightarrow> frame_demuxer \<Rightarrow> shared_log_buffer \<times> shared_log_buffer \<Rightarrow>
   frame_demuxer \<Rightarrow> shared_log_buffer \<times> shared_log_buffer \<Rightarrow> bool" where
  "fed as as' d bufs d' bufs' \<longleftrightarrow>
     (\<exists>used. as = used @ as' \<and> feed_all d (pieces_of used) (fst bufs) (snd bufs) = (Inr (), d', bufs'))"

lemma fed_refl: "fed as as d bufs d bufs"
  by (simp add: fed_def)

lemma fed_trans: "fed as as1 d b d1 b1 \<Longrightarrow> fed as1 as2 d1 b1 d2 b2 \<Longrightarrow> fed as as2 d b d2 b2"
proof -
  assume "fed as as1 d b d1 b1" "fed as1 as2 d1 b1 d2 b2"
  then obtain u v where "as = u @ as1" "feed_all d (pieces_of u) (fst b) (snd b) = (Inr (), d1, b1)"
    "as1 = v @ as2" "feed_all d1 (pieces_of v) (fst b1) (snd b1) = (Inr (), d2, b2)"
    by (auto simp: fed_def)
  then show ?thesis
    using feed_all_append [of d "pieces_of u" "fst b" "snd b" d1 "fst b1" "snd b1" "pieces_of v"]
    by (auto simp: fed_def intro!: exI [of _ "u @ v"])
qed

lemma fed_Progress: "fed as as' d b d' b' \<Longrightarrow> fed (Progress p # as) as' d b d' b'"
  by (auto simp: fed_def)

lemma fed_Peeked:
  "feed d data (fst b) (snd b) = (Inr w, d1, b1) \<Longrightarrow> fed as as' d1 b1 d' b' \<Longrightarrow> fed (Peeked data ce # as) as' d b d' b'"
proof -
  assume f: "feed d data (fst b) (snd b) = (Inr w, d1, b1)" and "fed as as' d1 b1 d' b'"
  then obtain used where u: "as = used @ as'" "feed_all d1 (pieces_of used) (fst b1) (snd b1) = (Inr (), d', b')"
    by (auto simp: fed_def)
  show ?thesis unfolding fed_def
    by (rule exI [of _ "Peeked data ce # used"]) (use f u in \<open>cases b1; simp\<close>)
qed

abbreviation buffers :: "docker_logs_handle \<Rightarrow> shared_log_buffer \<times> shared_log_buffer" where
  "buffers h \<equiv> (ls_buffer (dh_stdout h), ls_buffer (dh_stderr h))"

lemma buffers_notify [simp]: "buffers (notify_written wo we h) = buffers h"
  by (simp add: notify_written_def notify_waiters_def)

lemma feed_handle_eq:
  assumes "feed_handle d data h = (r, d', h')"
  shows "feed d data (fst (buffers h)) (snd (buffers h)) = (r, d', buffers h')"
  using assms by (auto simp: feed_handle_def split: prod.splits)

lemma feed_nonstrict:
  assumes "demux_wf d" and "\<not> lb_strict out" and "\<not> lb_strict err"
  shows "\<exists>w d' out' err'. feed d data out err = (Inr w, d', out', err') \<and> demux_wf d' \<and>
    \<not> lb_strict out' \<and> \<not> lb_strict err'"
proof (cases "feed d data out err")
  case (fields r d' out' err')
  from feed_meets_spec [OF assms(1), of data out err] fields assms
  show ?thesis by (cases r) (auto simp: feed_spec_def over_limit_def Let_def demux_bytes_wf dest: appends_limit)
qed

definition follow_state :: "frame_demuxer \<Rightarrow> docker_logs_handle \<Rightarrow> bool" where
  "follow_state d h \<longleftrightarrow> demux_wf d \<and> \<not> lb_strict (ls_buffer (dh_stdout h)) \<and> \<not> lb_strict (ls_buffer (dh_stderr h))"

lemma drain_decoded_fed:
  "drain_decoded as d h = Some (r, as', d', h') \<Longrightarrow> follow_state d h \<Longrightarrow>
   fed as as' d (buffers h) d' (buffers h') \<and> follow_state d' h'"
proof (induction as d h rule: drain_decoded.induct)
  case (2 data ce as d h)
  obtain w d1 h1 where f: "feed_handle d data h = (Inr w, d1, h1)" and st: "follow_state d1 h1"
  proof -
    obtain r d1 h1 where f: "feed_handle d data h = (r, d1, h1)" by (metis prod_cases3)
    from feed_nonstrict [of d "ls_buffer (dh_stdout h)" "ls_buffer (dh_stderr h)" data] 2(3)
      feed_handle_eq [OF f] show thesis
      by (intro that [of "projr r" d1 h1]) (auto simp: follow_state_def f)
  qed
  obtain wo we where w: "w = (wo, we)" by fastforce
  have fd: "feed d data (fst (buffers h)) (snd (buffers h)) = (Inr w, d1, buffers h1)"
    using feed_handle_eq [OF f] .
  show ?case
  proof (cases ce)
    case None
    have st': "follow_state d1 (notify_written wo we h1)" using st by (simp add: follow_state_def notify_written_def notify_waiters_def)
    have dr: "drain_decoded as d1 (notify_written wo we h1) = Some (r, as', d', h')" using 2(2) f w None by simp
    from 2(1) [OF f [symmetric] refl w [symmetric] refl None dr st'] fed_Peeked [OF fd]
    show ?thesis by simp
  next
    case (Some m)
    with 2(2) f w have "as' = as" "d' = d1" "h' = h1" by auto
    with st fed_Peeked [OF fd fed_refl] show ?thesis by simp
  qed
qed (auto intro: fed_refl fed_Progress)

lemma demux_loop_fed:
  "demux_loop ts as d h = Some (r, as', d', h') \<Longrightarrow> follow_state d h \<Longrightarrow>
   fed as as' d (buffers h) d' (buffers h')"
proof (induction ts arbitrary: as d h)
  case (Cons t ts)
  show ?case
  proof (cases "dt_log_stop t")
    case True
    with Cons.prems show ?thesis by (simp add: fed_refl)
  next
    case False
    with Cons.prems obtain r1 as1 d1 h1 where dr: "drain_decoded as d h = Some (r1, as1, d1, h1)"
      by (cases "drain_decoded as d h") auto
    note f = drain_decoded_fed [OF dr Cons.prems(2)]
    consider "as' = as1" "d' = d1" "h' = h1"
      | r2 where "drain_decoded as1 d1 h1 = Some (r2, as', d', h')"
      | "demux_loop ts as1 d1 h1 = Some (r, as', d', h')"
      using Cons.prems False dr by (auto split: sum.splits if_splits option.splits)
    then show ?thesis
    proof cases
      case 1
      with f show ?thesis by simp
    next
      case (2 r2)
      with drain_decoded_fed [OF this] f show ?thesis by (blast intro: fed_trans)
    next
      case 3
      with Cons.IH [OF this] f show ?thesis by (blast intro: fed_trans)
    qed
  qed
qed simp

lemma drain_oneshot_body_fed:
  "drain_oneshot_body as d out err = Some (Inr b, as', d', out', err') \<Longrightarrow>
   fed as as' d (out, err) d' (out', err')"
proof (induction as d out err rule: drain_oneshot_body.induct)
  case (2 data ce as d out err)
  then obtain w d1 out1 err1 where f: "feed d data out err = (Inr w, d1, out1, err1)" and "ce = None"
    and dr: "drain_oneshot_body as d1 out1 err1 = Some (Inr b, as', d', out', err')"
    by (auto split: prod.splits sum.splits option.splits)
  with "2.IH" [of "Inr w" "(d1, out1, err1)" w d1 "(out1, err1)" out1 err1] f
  have "fed as as' d1 (out1, err1) d' (out', err')" by simp
  with fed_Peeked [of d data "(out, err)" w d1 "(out1, err1)"] f show ?case by simp
qed (auto intro: fed_refl fed_Progress)

lemma fetch_body_fed:
  "fetch_body turns as d out err = Some (Inr (so, se), as') \<Longrightarrow>
   \<exists>d' out' err'. fed as as' d (out, err) d' (out', err') \<and> so = drain_buffer out' \<and> se = drain_buffer err'"
proof (induction turns arbitrary: as d out err)
  case Nil
  then show ?case
    by (auto split: option.splits sum.splits bool.splits) (blast dest: drain_oneshot_body_fed)+
next
  case (Cons t ts)
  from Cons.prems obtain b as1 d1 out1 err1
    where dr: "drain_oneshot_body as d out err = Some (Inr b, as1, d1, out1, err1)"
    by (auto split: option.splits sum.splits bool.splits prod.splits)
  note f = drain_oneshot_body_fed [OF dr]
  consider "as' = as1" "so = drain_buffer out1" "se = drain_buffer err1"
    | b2 d2 out2 err2 where "drain_oneshot_body as1 d1 out1 err1 = Some (Inr b2, as', d2, out2, err2)"
        "so = drain_buffer out2" "se = drain_buffer err2"
    | "fetch_body ts as1 d1 out1 err1 = Some (Inr (so, se), as')"
    using Cons.prems dr
    by (auto split: option.splits sum.splits bool.splits prod.splits if_splits simp del: fetch_body.simps
        simp: fetch_body.simps [of "t # ts"])
  then show ?case
  proof cases
    case 1
    with f show ?thesis by blast
  next
    case 2
    with fed_trans [OF f drain_oneshot_body_fed [OF 2(1)]] show ?thesis by blast
  next
    case 3
    from Cons.IH [OF this] fed_trans [OF f] show ?thesis by blast
  qed
qed

text \<open>A drain that reports the end of the body has had it from the decoder; a fetch that succeeds, or the connection was closed.\<close>

lemma drain_oneshot_body_complete:
  "drain_oneshot_body as d out err = Some (Inr True, as', d', out', err') \<Longrightarrow> \<exists>pre. as = pre @ Progress (Inr Complete) # as'"
proof (induction as d out err rule: drain_oneshot_body.induct)
  case (2 data ce as d out err)
  then obtain w d1 out1 err1 where f: "feed d data out err = (Inr w, d1, out1, err1)" and "ce = None"
    and dr: "drain_oneshot_body as d1 out1 err1 = Some (Inr True, as', d', out', err')"
    by (auto split: prod.splits sum.splits option.splits)
  with "2.IH" [of "Inr w" "(d1, out1, err1)" w d1 "(out1, err1)" out1 err1] f obtain pre where "as = pre @ Progress (Inr Complete) # as'"
    by auto
  then show ?case by (intro exI [of _ "Peeked data ce # pre"]) simp
next
  case (5 as d out err)
  then obtain pre where "as = pre @ Progress (Inr Complete) # as'" by auto
  then show ?case by (intro exI [of _ "Progress (Inr Advanced) # pre"]) simp
qed auto

lemma fetch_body_ends:
  "fetch_body turns as d out err = Some (Inr bufs, rest) \<Longrightarrow>
   (\<exists>pre. as = pre @ Progress (Inr Complete) # rest) \<or> (\<exists>available. (available, None, Inr 0) \<in> set turns)"
proof (induction turns arbitrary: as d out err)
  case Nil
  then obtain d' out' err' where "drain_oneshot_body as d out err = Some (Inr True, rest, d', out', err')"
    by (auto split: option.splits sum.splits bool.splits prod.splits)
  then show ?case using drain_oneshot_body_complete by blast
next
  case (Cons t ts)
  from Cons.prems obtain b as1 d1 out1 err1
    where dr: "drain_oneshot_body as d out err = Some (Inr b, as1, d1, out1, err1)"
    by (auto split: option.splits sum.splits bool.splits prod.splits)
  consider "b" "as1 = rest" | available where "t = (available, None, Inr 0)" | "fetch_body ts as1 d1 out1 err1 = Some (Inr bufs, rest)"
    using Cons.prems dr
    by (auto split: option.splits sum.splits bool.splits prod.splits if_splits simp del: fetch_body.simps
        simp: fetch_body.simps [of "t # ts"])
  then show ?case
  proof cases
    case 1
    with dr drain_oneshot_body_complete [of as d out err as1] show ?thesis by simp
  next
    case 2
    then show ?thesis by auto
  next
    case 3
    obtain used where "as = used @ as1" using drain_oneshot_body_fed [OF dr] by (auto simp: fed_def)
    with Cons.IH [OF 3] show ?thesis by (metis append.assoc list.set_intros(2))
  qed
qed

section \<open>Readers racing with the demultiplexer\<close>

text \<open>
  The demultiplexing thread appends and finally terminates the stream; the reader locks the buffer
  to read and, when it found nothing, loads the termination flag in a separate step.
\<close>

datatype reader_pc = Idle | Checking | AtEof

record race_state =
  rs_stream :: log_stream
  rs_reader :: log_reader
  rs_pc :: reader_pc
  rs_written :: "u8 list"
  rs_got :: "u8 list"

definition race_init :: "nat \<Rightarrow> race_state" where
  "race_init limit = \<lparr>rs_stream = log_stream_new limit, rs_reader = log_reader_new, rs_pc = Idle,
     rs_written = [], rs_got = []\<rparr>"

inductive race_step :: "race_state \<Rightarrow> race_state \<Rightarrow> bool" where
  race_append: "\<lbrakk> \<not> ls_terminated (rs_stream s); length data \<le> lb_limit (ls_buffer (rs_stream s));
      lb_append (ls_buffer (rs_stream s)) data = (True, b) \<rbrakk> \<Longrightarrow>
    race_step s (s\<lparr>rs_stream := notify_waiters ((rs_stream s)\<lparr>ls_buffer := b\<rparr>), rs_written := rs_written s @ data\<rparr>)"
| race_terminate: "race_step s (s\<lparr>rs_stream := log_stream_terminate (rs_stream s)\<rparr>)"
| race_read: "\<lbrakk> rs_pc s = Idle; poll_fill_read (ls_buffer (rs_stream s)) (rs_reader s) = (bs, r); bs \<noteq> [] \<rbrakk> \<Longrightarrow>
    race_step s (s\<lparr>rs_reader := log_reader_consume (length bs) r, rs_got := rs_got s @ bs\<rparr>)"
| race_read_empty: "\<lbrakk> rs_pc s = Idle; poll_fill_read (ls_buffer (rs_stream s)) (rs_reader s) = ([], r) \<rbrakk> \<Longrightarrow>
    race_step s (s\<lparr>rs_reader := r, rs_pc := Checking\<rparr>)"
| race_check: "rs_pc s = Checking \<Longrightarrow>
    race_step s (s\<lparr>rs_pc := (if poll_fill_finish [] (ls_terminated (rs_stream s)) = Ready [] then AtEof else Idle)\<rparr>)"

inductive_cases race_stepE: "race_step s t"

definition race_reachable :: "nat \<Rightarrow> race_state \<Rightarrow> bool" where
  "race_reachable limit = race_step\<^sup>*\<^sup>* (race_init limit)"

text \<open>
  As long as nothing has been dropped (\<open>limit\<close> bytes have not been exceeded) the reader has
  received a prefix of what was written.
\<close>

definition race_inv :: "nat \<Rightarrow> race_state \<Rightarrow> bool" where
  "race_inv limit s \<longleftrightarrow>
     lb_limit (ls_buffer (rs_stream s)) = limit \<and>
     lb_repr (ls_buffer (rs_stream s)) (rs_written s) \<and> \<not> lb_strict (ls_buffer (rs_stream s)) \<and>
     (length (rs_written s) \<le> limit \<longrightarrow> lb_head (ls_buffer (rs_stream s)) = 0 \<and>
        length (lr_buf (rs_reader s)) \<le> lr_pos (rs_reader s) \<and>
        lr_offset (rs_reader s) \<le> length (rs_written s) \<and>
        rs_got s = take (lr_offset (rs_reader s)) (rs_written s))"

lemma race_inv_init: "race_inv limit (race_init limit)"
  by (simp add: race_inv_def race_init_def log_stream_new_def log_reader_new_def)

lemma lb_append_head:
  assumes "lb_append b data = (True, b')" "\<not> lb_strict b" "length data \<le> lb_limit b"
    and "lb_head b = 0" and "length (lb_buf b) + length data \<le> lb_limit b"
  shows "lb_head b' = 0"
  using assms by (cases "data = []") (auto simp: lb_append_nonstrict)

lemma race_inv_read:
  assumes "race_inv limit s" and "poll_fill_read (ls_buffer (rs_stream s)) (rs_reader s) = (bs, r)"
  shows "race_inv limit (s\<lparr>rs_reader := log_reader_consume (length bs) r, rs_got := rs_got s @ bs\<rparr>)"
proof -
  let ?b = "ls_buffer (rs_stream s)" and ?r = "rs_reader s" and ?S = "rs_written s"
  have "length ?S \<le> limit \<Longrightarrow> lr_offset r \<le> length ?S \<and> length (lr_buf r) \<le> length bs \<and>
      rs_got s @ bs = take (lr_offset r) ?S"
  proof -
    assume short: "length ?S \<le> limit"
    with assms have inv: "lb_repr ?b ?S" "lb_head ?b = 0" "lr_offset ?r \<le> length ?S" "rs_got s = take (lr_offset ?r) ?S"
      and pos: "\<not> lr_pos ?r < length (lr_buf ?r)" by (auto simp: race_inv_def)
    obtain bs' nxt sk where rd: "lb_read_at ?b (lr_offset ?r) READ_CHUNK = (bs', nxt, sk)" by (metis prod_cases3)
    with assms(2) pos have r: "bs' = bs" "lr_offset r = nxt" "lr_buf r = bs" by (auto simp: poll_fill_read_def)
    from lb.read_contiguous [OF inv(1) _ inv(3) rd] inv(2) r
    have "lr_offset ?r \<le> nxt" "nxt \<le> length ?S" "bs = seg (lr_offset ?r) nxt ?S" by auto
    with seg_append [of 0 "lr_offset ?r" nxt ?S] inv(4) r show ?thesis by (simp add: seg_def)
  qed
  then show ?thesis using assms(1) by (auto simp: race_inv_def log_reader_consume_def)
qed

lemma race_inv_step: "race_step s t \<Longrightarrow> race_inv limit s \<Longrightarrow> race_inv limit t"
proof (induction rule: race_step.induct)
  case (race_append s data b)
  have "lb_repr b (rs_written s @ data)" using race_append lb_append_repr by (auto simp: race_inv_def)
  moreover have "lb_limit b = limit" "\<not> lb_strict b"
    using race_append lb_append_limit [of "ls_buffer (rs_stream s)" data] by (auto simp: race_inv_def)
  moreover have "lb_head b = 0" if "length (rs_written s @ data) \<le> limit"
    using lb_append_head [OF race_append(3)] race_append that by (auto simp: race_inv_def lb_repr_def)
  ultimately show ?case using race_append by (auto simp: race_inv_def notify_waiters_def)
next
  case (race_terminate s)
  then show ?case by (simp add: race_inv_def log_stream_terminate_def notify_waiters_def)
next
  case (race_read s bs r)
  then show ?case using race_inv_read by blast
next
  case (race_read_empty s r)
  from race_inv_read [OF race_read_empty(3,2)] show ?case
    by (auto simp: race_inv_def log_reader_consume_def)
next
  case (race_check s)
  then show ?case by (simp add: race_inv_def)
qed

lemma race_inv_reachable: "race_reachable limit s \<Longrightarrow> race_inv limit s"
  unfolding race_reachable_def
  by (induction rule: rtranclp_induct) (auto intro: race_inv_init race_inv_step)

section \<open>Properties\<close>

text \<open>
  C29. A follow session, however it ends (end of stream, stop request, socket or decoder error) and
  however the decoder cuts the body into pieces, leaves both streams terminated and their
  buffers holding exactly the last \<open>DEFAULT_BUFFER_LIMIT\<close> bytes of the standard output and of
  the standard error frames in the part of the body it consumed.
\<close>

theorem follow_session_buffers:
  assumes "run_log_session setup heads caller_gone unset_timeouts turns as (docker_logs_handle_new sock i) = Some (r, h)"
  shows "\<exists>used rest. as = used @ rest \<and>
     lb_buf (ls_buffer (dh_stdout h)) = last_n DEFAULT_BUFFER_LIMIT (frames_stream 1 (concat (pieces_of used))) \<and>
     lb_buf (ls_buffer (dh_stderr h)) = last_n DEFAULT_BUFFER_LIMIT (frames_stream 2 (concat (pieces_of used))) \<and>
     ls_terminated (dh_stdout h) \<and> ls_terminated (dh_stderr h) \<and> logs_terminated h"
proof -
  let ?h0 = "docker_logs_handle_new sock i"
  have new: "buffers ?h0 = (lb_new DEFAULT_BUFFER_LIMIT, lb_new DEFAULT_BUFFER_LIMIT)" "follow_state demuxer_new ?h0"
    by (simp_all add: docker_logs_handle_new_def log_stream_new_def follow_state_def)
  from assms obtain as' d' h' where h: "h = terminate_all h'" and f: "fed as as' demuxer_new (buffers ?h0) d' (buffers h')"
    by (auto simp: run_log_session_def split: sum.splits option.splits if_splits
        dest!: demux_loop_fed [OF _ new(2)] intro: fed_refl)
  then obtain used where used: "as = used @ as'" "feed_all demuxer_new (pieces_of used)
      (lb_new DEFAULT_BUFFER_LIMIT) (lb_new DEFAULT_BUFFER_LIMIT) = (Inr (), d', buffers h')"
    by (auto simp: fed_def new(1))
  with feed_all_follow [of "pieces_of used" DEFAULT_BUFFER_LIMIT] h show ?thesis
    by (auto simp: terminate_all_def log_stream_terminate_def notify_waiters_def logs_terminated_def)
qed

theorem follow_session_buffers_witness:
  "\<exists>h. run_log_session (Inr ()) [\<lparr>ht_available = 1, ht_mut_buf = None, ht_read = Inr 9, ht_decode = Inr (Some (200, None))\<rparr>]
       False (Inr ()) [\<lparr>dt_log_stop = True, dt_available = 1, dt_mut_buf = None, dt_read = Inr 0\<rparr>] [Progress (Inr NeedData)]
       (docker_logs_handle_new ''/s'' ''c'') = Some (Inr (), h) \<and> ls_terminated (dh_stdout h) \<and> ls_terminated (dh_stderr h)"
    (is "\<exists>h. ?run = Some (Inr (), h) \<and> _ h \<and> _ h")
proof -
  have run: "?run = Some (Inr (), terminate_all (docker_logs_handle_new ''/s'' ''c''))"
    by (simp add: run_log_session_def read_and_validate_head_def READ_CHUNK_def check_head_def is_multiplex_content_type_def)
  from follow_session_buffers [OF run] run show ?thesis by blast
qed

text \<open>
  C30. The one-shot fetch drops nothing for want of room: when it succeeds, its results are the payloads of the standard
  output and standard error frames in the part of the body it received, whole and each within the limit; a log beyond the limit is
  an error. That part is the whole body, unless the connection was closed before: the fetch takes this for the
  end of the log as well.
\<close>

theorem oneshot_fetch_keeps_all:
  assumes "fetch_logs_oneshot_with_limit limit setup heads turns as = Some (Inr (out, err), rest)"
  shows "\<exists>used. as = used @ rest \<and>
     out = frames_stream 1 (concat (pieces_of used)) \<and> err = frames_stream 2 (concat (pieces_of used)) \<and>
     length out \<le> limit \<and> length err \<le> limit \<and>
     ((\<exists>pre. used = pre @ [Progress (Inr Complete)]) \<or> (\<exists>available. (available, None, Inr 0) \<in> set turns))"
proof -
  from assms have body: "fetch_body turns as demuxer_new (lb_new_strict limit) (lb_new_strict limit) = Some (Inr (out, err), rest)"
    by (auto simp: fetch_logs_oneshot_with_limit_def split: sum.splits option.splits)
  from fetch_body_fed [OF body] obtain d' out' err' used where used: "as = used @ rest"
    "feed_all demuxer_new (pieces_of used) (lb_new_strict limit) (lb_new_strict limit) = (Inr (), d', out', err')"
    "out = drain_buffer out'" "err = drain_buffer err'"
    by (auto simp: fed_def)
  from fetch_body_ends [OF body] used(1)
  have "(\<exists>pre. used = pre @ [Progress (Inr Complete)]) \<or> (\<exists>available. (available, None, Inr 0) \<in> set turns)"
    by (metis append_Cons append_Nil append_assoc append_same_eq)
  with used feed_all_strict [of limit "pieces_of used"] show ?thesis by auto
qed

text \<open>A fetch whose connection is closed in the middle of the body succeeds with the log so far.\<close>

lemma oneshot_closed_early:
  "fetch_body [(1, None, Inr 0)] [Progress (Inr NeedData), Progress (Inr NeedData)] demuxer_new (lb_new_strict limit) (lb_new_strict limit) =
     Some (Inr (drain_buffer (lb_new_strict limit), drain_buffer (lb_new_strict limit)), [])"
  by (simp add: READ_CHUNK_def)

theorem oneshot_fetch_keeps_all_witness:
  "\<exists>out err. fetch_logs_oneshot_with_limit 4 (Inr ())
       [\<lparr>ht_available = 1, ht_mut_buf = None, ht_read = Inr 9, ht_decode = Inr (Some (200, None))\<rparr>] []
       [Peeked [2, 0, 0, 0, 0] None, Progress (Inr Advanced), Peeked [0, 0, 1, 65] None, Progress (Inr Complete)]
       = Some (Inr (out, err), []) \<and> length out \<le> 4 \<and> length err \<le> 4"
    (is "\<exists>out err. ?fetch = Some (Inr (out, err), []) \<and> _ out \<and> _ err")
proof -
  let ?d = "\<lparr>in_payload = False, header = [2, 0, 0, 0, 0, 0, 0, 1], header_pos = 0, stream_type = 0, payload_remaining = 0\<rparr>"
  let ?err = "(lb_new_strict 4)\<lparr>lb_buf := [65]\<rparr>"
  have f1: "feed demuxer_new [2, 0, 0, 0, 0] (lb_new_strict 4) (lb_new_strict 4) =
      (Inr (False, False), demuxer_new\<lparr>header := [2, 0, 0, 0, 0, 0, 0, 0], header_pos := 5\<rparr>, lb_new_strict 4, lb_new_strict 4)"
    by (simp add: feed_def feed_loop.simps feed_header_def demuxer_new_def FRAME_HEADER_LEN_def Let_def numeral_eq_Suc)
  have f2: "feed (demuxer_new\<lparr>header := [2, 0, 0, 0, 0, 0, 0, 0], header_pos := 5\<rparr>) [0, 0, 1, 65] (lb_new_strict 4) (lb_new_strict 4) =
      (Inr (False, True), ?d, lb_new_strict 4, ?err)"
    by (simp add: feed_def feed_loop.simps feed_header_def feed_payload_def demuxer_new_def FRAME_HEADER_LEN_def Let_def
        u32_from_be_bytes_def reset_header_def lb_append_def)
  have run: "?fetch = Some (Inr (drain_buffer (lb_new_strict 4), drain_buffer ?err), [])"
    by (simp add: fetch_logs_oneshot_with_limit_def READ_CHUNK_def check_head_def is_multiplex_content_type_def f1 f2)
  from oneshot_fetch_keeps_all [OF run] run show ?thesis by blast
qed

text \<open>
  A follow reader that polls concurrently with the demultiplexer receives a prefix of the bytes
  written, in every interleaving in which the buffer has not overflowed: no byte twice, none out
  of order, none lost in the middle.
\<close>

lemma reader_gets_prefix:
  assumes "race_reachable limit s" and "length (rs_written s) \<le> limit"
  shows "prefix (rs_got s) (rs_written s)"
  using race_inv_reachable [OF assms(1)] assms(2) by (auto simp: race_inv_def take_is_prefix)

text \<open>
  C36. The end of the stream can be reported with bytes unread: the reader finds the buffer empty,
  the demultiplexer then appends the last bytes and terminates the stream, and the reader, which
  only now loads the flag, reports the end of the stream. The bytes are in the buffer and no
  overflow has happened, but a caller that stops at the end of the stream never sees them.
\<close>

theorem reader_eof_race:
  "\<exists>s. race_reachable DEFAULT_BUFFER_LIMIT s \<and> rs_pc s = AtEof \<and> rs_got s = [] \<and> rs_written s = [66] \<and>
     lb_buf (ls_buffer (rs_stream s)) = [66]"
proof -
  let ?s0 = "race_init DEFAULT_BUFFER_LIMIT"
  let ?s1 = "?s0\<lparr>rs_pc := Checking\<rparr>"
  obtain b where b: "lb_append (lb_new DEFAULT_BUFFER_LIMIT) [66] = (True, b)" "lb_buf b = [66]"
    by (simp add: lb_append_def lb_new_def lb_with_mode_def pop_front_loop_eq DEFAULT_BUFFER_LIMIT_def)
  let ?s2 = "?s1\<lparr>rs_stream := notify_waiters ((rs_stream ?s1)\<lparr>ls_buffer := b\<rparr>), rs_written := [66]\<rparr>"
  let ?s3 = "?s2\<lparr>rs_stream := log_stream_terminate (rs_stream ?s2)\<rparr>"
  let ?s4 = "?s3\<lparr>rs_pc := AtEof\<rparr>"
  have 1: "race_step ?s0 ?s1"
    using race_read_empty [of ?s0 log_reader_new]
    by (simp add: race_init_def poll_fill_read_def log_reader_new_def log_stream_new_def lb_read_at_def Let_def)
  have 2: "race_step ?s1 ?s2"
    using race_append [of ?s1 "[66]" b] b
    by (simp add: race_init_def log_stream_new_def DEFAULT_BUFFER_LIMIT_def)
  have 3: "race_step ?s2 ?s3" by (rule race_terminate)
  have 4: "race_step ?s3 ?s4"
    using race_check [of ?s3] by (simp add: log_stream_terminate_def notify_waiters_def poll_fill_finish_def)
  from 1 2 3 4 have "race_reachable DEFAULT_BUFFER_LIMIT ?s4"
    unfolding race_reachable_def by (meson rtranclp.rtrancl_into_rtrancl rtranclp.rtrancl_refl)
  then show ?thesis using b(2)
    by (intro exI [of _ ?s4]) (simp add: race_init_def log_stream_terminate_def notify_waiters_def)
qed

end
