(* ===== verification/Log_Wait.thy ===== *)
theory Log_Wait
  imports Log_Session
begin

text \<open>
  \<open>src/core/wait/log_strategy.rs\<close>: waiting for a message in the container log. The stream
  matcher counts the occurrences of a byte pattern across chunk boundaries, the collected-log
  buffer keeps the tail for the diagnosis, and the wait loop combines them. What the readers, the
  exit observation and the clock answer in each turn is the argument of the loop.
\<close>

section \<open>Collected logs\<close>

definition POLL_INTERVAL :: duration where
  "POLL_INTERVAL = from_millis 100"

definition DRAIN_GRACE :: duration where
  "DRAIN_GRACE = from_secs 2"

definition MAX_COLLECTED_LOG_BYTES :: nat where
  "MAX_COLLECTED_LOG_BYTES = 1024 * 1024"

function trim_front :: "nat \<Rightarrow> u8 list \<Rightarrow> u8 list" where
  "trim_front limit buf = (if limit < length buf then trim_front limit (tl buf) else buf)"
  by pat_completeness auto
termination by (relation "measure (\<lambda>(_, buf). length buf)") auto

declare trim_front.simps [simp del]

definition collected_push :: "u8 list \<Rightarrow> u8 list \<Rightarrow> u8 list" where
  "collected_push buf bytes =
     (if bytes = [] then buf
      else
        let keep = (if MAX_COLLECTED_LOG_BYTES < length bytes
                    then drop (length bytes - MAX_COLLECTED_LOG_BYTES) bytes else bytes)
        in trim_front MAX_COLLECTED_LOG_BYTES (buf @ keep))"

lemma trim_front_eq: "trim_front limit buf = last_n limit buf"
proof (induction limit buf rule: trim_front.induct)
  case (1 limit buf)
  show ?case
  proof (cases "limit < length buf")
    case True
    then have "length buf - limit = Suc (length (tl buf) - limit)" by simp
    with 1 True show ?thesis by (subst trim_front.simps) (simp add: drop_Suc last_n_def)
  qed (simp add: trim_front.simps)
qed

lemma collected_push_eq:
  assumes "length buf \<le> MAX_COLLECTED_LOG_BYTES"
  shows "collected_push buf bytes = last_n MAX_COLLECTED_LOG_BYTES (buf @ bytes)"
proof -
  have "(if MAX_COLLECTED_LOG_BYTES < length bytes then drop (length bytes - MAX_COLLECTED_LOG_BYTES) bytes else bytes)
      = last_n MAX_COLLECTED_LOG_BYTES bytes"
    by (simp add: last_n_def)
  with assms show ?thesis by (simp add: collected_push_def trim_front_eq last_n_append_right)
qed

section \<open>The stream matcher\<close>

record stream_matcher =
  sm_pattern :: "u8 list"
  sm_carry :: "u8 list"
  sm_count :: nat

definition matcher_new :: "u8 list \<Rightarrow> stream_matcher" where
  "matcher_new pattern = \<lparr>sm_pattern = pattern, sm_carry = [], sm_count = 0\<rparr>"

definition windows :: "nat \<Rightarrow> 'a list \<Rightarrow> 'a list list" where
  "windows n xs = map (\<lambda>i. take n (drop i xs)) [0..<length xs + 1 - n]"

definition matcher_feed :: "stream_matcher \<Rightarrow> u8 list \<Rightarrow> nat \<times> stream_matcher" where
  "matcher_feed m chunk =
     (if sm_pattern m = [] then (u64_max, m)
      else
        let buf = sm_carry m @ chunk;
            len = length (sm_pattern m);
            m' = (if len \<le> length buf then
                    (let keep = len - 1
                     in m\<lparr>sm_count := sm_count m + length (filter (\<lambda>w. w = sm_pattern m) (windows len buf)),
                          sm_carry := drop (length buf - min keep (length buf)) buf\<rparr>)
                  else m\<lparr>sm_carry := buf\<rparr>)
        in (sm_count m', m'))"

text \<open>Occurrences of a pattern in a byte sequence, overlapping ones counted each.\<close>

definition occurrences :: "'a list \<Rightarrow> 'a list \<Rightarrow> nat" where
  "occurrences p xs = length (filter (\<lambda>w. w = p) (windows (length p) xs))"

lemma occurrences_short: "length xs < length p \<Longrightarrow> occurrences p xs = 0"
  by (simp add: occurrences_def windows_def)

lemma upt_split: "i \<le> j \<Longrightarrow> j \<le> k \<Longrightarrow> [i..<k] = [i..<j] @ map (\<lambda>n. n + j) [0..<k - j]"
proof -
  assume "i \<le> j" "j \<le> k"
  then have "[i..<k] = [i..<j] @ [j..<k]" by (metis le_add_diff_inverse upt_add_eq_append)
  moreover have "[j..<k] = map (\<lambda>n. n + j) [0..<k - j]"
    using \<open>j \<le> k\<close> by (simp add: map_add_upt)
  ultimately show ?thesis by simp
qed

lemma windows_append:
  assumes "0 < n" and "n \<le> length xs + 1"
  shows "windows n (xs @ ys) = windows n xs @ windows n (drop (length xs + 1 - n) xs @ ys)"
proof -
  let ?k = "length xs + 1 - n"
  have up: "[0..<length (xs @ ys) + 1 - n] = [0..<?k] @ map (\<lambda>i. i + ?k) [0..<length ys]"
    using assms upt_split [of 0 ?k "length (xs @ ys) + 1 - n"] by simp
  have "take n (drop i (xs @ ys)) = take n (drop i xs)" if "i < ?k" for i
    using that assms by simp
  then have left: "map (\<lambda>i. take n (drop i (xs @ ys))) [0..<?k] = windows n xs"
    by (simp add: windows_def)
  have "?k \<le> length xs" using assms by simp
  then have "drop ?k (xs @ ys) = drop ?k xs @ ys" by simp
  then have dd: "drop (i + ?k) (xs @ ys) = drop i (drop ?k xs @ ys)" for i by (metis drop_drop)
  have "length (drop ?k xs @ ys) + 1 - n = length ys" using assms by simp
  then have right: "map (\<lambda>i. take n (drop (i + ?k) (xs @ ys))) [0..<length ys] = windows n (drop ?k xs @ ys)"
    by (simp only: windows_def dd)
  show ?thesis unfolding windows_def [of n "xs @ ys"] up map_append left
    using right by (simp add: comp_def)
qed

lemma occurrences_append:
  assumes "p \<noteq> []"
  shows "occurrences p (xs @ ys) = occurrences p xs + occurrences p (last_n (length p - 1) xs @ ys)"
proof (cases "length p \<le> length xs + 1")
  case True
  have "length xs + 1 - length p = length xs - (length p - 1)" using assms by (cases p) auto
  then have "last_n (length p - 1) xs = drop (length xs + 1 - length p) xs" by (simp only: last_n_def)
  moreover have "0 < length p" using assms by simp
  ultimately show ?thesis using windows_append [OF _ True, of ys] by (simp only: occurrences_def filter_append length_append)
next
  case False
  then show ?thesis by (simp add: occurrences_short)
qed

text \<open>The matcher's state after a stream: the count so far and the tail that a match may still use.\<close>

definition matches_stream :: "stream_matcher \<Rightarrow> u8 list \<Rightarrow> u8 list \<Rightarrow> bool" where
  "matches_stream m p S \<longleftrightarrow> sm_pattern m = p \<and> sm_count m = occurrences p S \<and> sm_carry m = last_n (length p - 1) S"

lemma matches_stream_new: "p \<noteq> [] \<Longrightarrow> matches_stream (matcher_new p) p []"
  by (cases p) (simp_all add: matches_stream_def matcher_new_def occurrences_short last_n_def)

lemma matcher_feed_stream:
  assumes "p \<noteq> []" and "matches_stream m p S" and "matcher_feed m chunk = (c, m')"
  shows "c = occurrences p (S @ chunk) \<and> matches_stream m' p (S @ chunk)"
proof -
  let ?buf = "last_n (length p - 1) S @ chunk"
  have m: "sm_pattern m = p" "sm_count m = occurrences p S" "sm_carry m = last_n (length p - 1) S"
    using assms(2) by (simp_all add: matches_stream_def)
  have occ: "occurrences p (S @ chunk) = occurrences p S + occurrences p ?buf"
    using occurrences_append [OF assms(1)] .
  have carry: "last_n (length p - 1) ?buf = last_n (length p - 1) (S @ chunk)"
    by (rule last_n_append_last_n)
  show ?thesis
  proof (cases "length p \<le> length ?buf")
    case True
    then have "min (length p - 1) (length ?buf) = length p - 1" by linarith
    then have "drop (length ?buf - min (length p - 1) (length ?buf)) ?buf = last_n (length p - 1) (S @ chunk)"
      using carry by (simp only: last_n_def)
    with True assms m occ show ?thesis
      by (auto simp: matcher_feed_def matches_stream_def occurrences_def Let_def)
  next
    case False
    then have "?buf = last_n (length p - 1) (S @ chunk)"
      using carry last_n_id [of ?buf "length p - 1"] by simp
    with False assms m occ occurrences_short [of ?buf p] show ?thesis
      by (auto simp: matcher_feed_def matches_stream_def Let_def)
  qed
qed

section \<open>The wait loop\<close>

record log_wait_strategy =
  lw_source :: log_source
  lw_message :: "u8 list"
  lw_times :: nat

definition log_wait_new :: "log_source \<Rightarrow> u8 list \<Rightarrow> log_wait_strategy" where
  "log_wait_new source message = \<lparr>lw_source = source, lw_message = message, lw_times = 1\<rparr>"

definition with_times :: "nat \<Rightarrow> log_wait_strategy \<Rightarrow> log_wait_strategy" where
  "with_times wanted lw = lw\<lparr>lw_times := max wanted 1\<rparr>"

fun reader_count :: "log_source \<Rightarrow> nat" where
  "reader_count SrcStdOut = 1"
| "reader_count SrcStdErr = 1"
| "reader_count SrcBothStd = 2"

text \<open>
  One turn: what each reader gives within \<open>POLL_INTERVAL\<close> (a timeout and the end of the stream both
  count as no bytes), whether the container is seen to have exited or its log to have ended, and the
  two clock readings of the grace period.
\<close>

record log_turn =
  lt_reads :: "(io_error + u8 list) list"
  lt_exited :: bool
  lt_now :: duration
  lt_later :: duration

fun log_turn_reads ::
  "(io_error + u8 list) list \<Rightarrow> stream_matcher list \<Rightarrow> u8 list \<Rightarrow> nat \<Rightarrow> bool \<Rightarrow>
   io_error + stream_matcher list \<times> u8 list \<times> nat \<times> bool" where
  "log_turn_reads (Inl e # rs) (m # ms) collected total_n progressed = Inl e"
| "log_turn_reads (Inr bs # rs) (m # ms) collected total_n progressed =
     (let (count, m') = matcher_feed m bs;
          collected' = (if bs \<noteq> [] then collected_push collected bs else collected)
      in rbind (log_turn_reads rs ms collected' (min u64_max (total_n + count)) (progressed \<or> bs \<noteq> []))
           (\<lambda>(ms', rest). Inr (m' # ms', rest)))"
| "log_turn_reads _ ms collected total_n progressed = Inr (ms, collected, total_n, progressed)"

fun log_wait_loop ::
  "nat \<Rightarrow> log_turn list \<Rightarrow> stream_matcher list \<Rightarrow> duration option \<Rightarrow> u8 list \<Rightarrow> (unit result \<times> log_turn list) option" where
  "log_wait_loop wanted [] ms exited_at collected = None"
| "log_wait_loop wanted (t # ts) ms exited_at collected =
     (case log_turn_reads (lt_reads t) ms collected 0 False of
        Inl e \<Rightarrow> Some (Inl (error_of_wait_log (WaitLogIo e)), ts)
      | Inr (ms', collected', total_n, progressed) \<Rightarrow>
          if wanted \<le> total_n then Some (Inr (), ts)
          else if progressed then log_wait_loop wanted ts ms' exited_at collected'
          else if lt_exited t then
            (let at = (case exited_at of Some a \<Rightarrow> a | None \<Rightarrow> lt_now t)
             in if DRAIN_GRACE \<le> lt_later t - at
                then Some (Inl (WaitContainer (WaitLog (EndOfStream collected'))), ts)
                else log_wait_loop wanted ts ms' (Some at) collected')
          else log_wait_loop wanted ts ms' exited_at collected')"

definition log_wait_until_ready :: "log_wait_strategy \<Rightarrow> log_turn list \<Rightarrow> (unit result \<times> log_turn list) option" where
  "log_wait_until_ready lw turns =
     (if lw_message lw = [] then Some (Inr (), turns)
      else log_wait_loop (lw_times lw) turns
             (replicate (reader_count (lw_source lw)) (matcher_new (lw_message lw))) None [])"

section \<open>What the wait has seen\<close>

definition read_bytes :: "io_error + u8 list \<Rightarrow> u8 list" where
  "read_bytes r = (case r of Inl _ \<Rightarrow> [] | Inr bs \<Rightarrow> bs)"

definition streams_read :: "nat \<Rightarrow> log_turn list \<Rightarrow> u8 list list" where
  "streams_read n ts = foldl (\<lambda>Ss t. map2 (@) Ss (map read_bytes (lt_reads t))) (replicate n []) ts"

definition all_read :: "log_turn list \<Rightarrow> u8 list" where
  "all_read ts = concat (map (\<lambda>t. concat (map read_bytes (lt_reads t))) ts)"

definition seen :: "u8 list \<Rightarrow> nat \<Rightarrow> log_turn list \<Rightarrow> nat" where
  "seen message n ts = sum_list (map (occurrences message) (streams_read n ts))"

lemma streams_read_snoc [simp]:
  "streams_read n (ts @ [t]) = map2 (@) (streams_read n ts) (map read_bytes (lt_reads t))"
  by (simp add: streams_read_def)

lemma all_read_snoc [simp]: "all_read (ts @ [t]) = all_read ts @ concat (map read_bytes (lt_reads t))"
  by (simp add: all_read_def)

lemma log_turn_reads_ok:
  assumes "log_turn_reads rs ms coll total_n prog = Inr (ms', coll', total_n', prog')"
    and "list_all2 (\<lambda>m S. matches_stream m p S) ms Ss" and "length rs = length ms" and "p \<noteq> []"
    and "coll = last_n MAX_COLLECTED_LOG_BYTES A" and "total_n \<le> u64_max"
  shows "list_all2 (\<lambda>m S. matches_stream m p S) ms' (map2 (@) Ss (map read_bytes rs)) \<and>
     coll' = last_n MAX_COLLECTED_LOG_BYTES (A @ concat (map read_bytes rs)) \<and>
     total_n' = min u64_max (total_n + sum_list (map (occurrences p) (map2 (@) Ss (map read_bytes rs)))) \<and>
     (\<forall>r \<in> set rs. \<exists>bs. r = Inr bs)"
  using assms
proof (induction rs ms coll total_n prog arbitrary: Ss A ms' rule: log_turn_reads.induct)
  case (2 bs rs m ms coll total_n prog)
  obtain c m1 where f: "matcher_feed m bs = (c, m1)" by fastforce
  from "2.prems"(2) obtain S Ss' where Ss: "Ss = S # Ss'" "matches_stream m p S"
    "list_all2 (\<lambda>m S. matches_stream m p S) ms Ss'" by (cases Ss) auto
  let ?coll = "if bs \<noteq> [] then collected_push coll bs else coll"
  have coll: "?coll = last_n MAX_COLLECTED_LOG_BYTES (A @ bs)"
    using "2.prems"(5) by (simp add: collected_push_eq last_n_append_last_n)
  from "2.prems"(1) f obtain ms1 where rec:
    "log_turn_reads rs ms ?coll (min u64_max (total_n + c)) (prog \<or> bs \<noteq> []) = Inr (ms1, coll', total_n', prog')"
    and ms': "ms' = m1 # ms1" by (auto simp: rbind_eq_Inr_iff)
  from matcher_feed_stream [OF "2.prems"(4) Ss(2) f]
  have m1: "c = occurrences p (S @ bs)" "matches_stream m1 p (S @ bs)" by auto
  from "2.IH" [OF refl f [symmetric] refl rec Ss(3) _ "2.prems"(4) coll] "2.prems"(3) Ss(1) m1 ms'
  show ?case by (auto simp: read_bytes_def min_def)
qed (auto simp: min_def)

text \<open>The state of the loop after the turns \<open>past\<close>.\<close>

definition waiting :: "u8 list \<Rightarrow> nat \<Rightarrow> log_turn list \<Rightarrow> stream_matcher list \<Rightarrow> u8 list \<Rightarrow> bool" where
  "waiting p n past ms coll \<longleftrightarrow>
     list_all2 (\<lambda>m S. matches_stream m p S) ms (streams_read n past) \<and> length ms = n \<and>
     coll = last_n MAX_COLLECTED_LOG_BYTES (all_read past)"

lemma waiting_init: "p \<noteq> [] \<Longrightarrow> waiting p n [] (replicate n (matcher_new p)) []"
  by (auto simp: waiting_def streams_read_def all_read_def list_all2_conv_all_nth matches_stream_new last_n_def)

lemma waiting_turn:
  assumes "waiting p n past ms coll" and "length (lt_reads t) = n" and "p \<noteq> []"
    and "log_turn_reads (lt_reads t) ms coll 0 False = Inr (ms', coll', total_n, progressed)"
  shows "waiting p n (past @ [t]) ms' coll'" and "total_n = min u64_max (seen p n (past @ [t]))"
proof -
  have st: "list_all2 (\<lambda>m S. matches_stream m p S) ms (streams_read n past)" "length ms = n"
    "coll = last_n MAX_COLLECTED_LOG_BYTES (all_read past)"
    using assms(1) by (auto simp: waiting_def)
  note ok = log_turn_reads_ok [OF assms(4) st(1) _ assms(3) st(3)]
  from ok assms(2) st(2) list_all2_lengthD [OF st(1)] show "waiting p n (past @ [t]) ms' coll'"
    by (auto simp: waiting_def dest: list_all2_lengthD)
  from ok assms(2) st(2) show "total_n = min u64_max (seen p n (past @ [t]))"
    by (simp add: seen_def)
qed

lemma log_turn_reads_err:
  "log_turn_reads rs ms coll total_n prog = Inl e \<Longrightarrow> Inl e \<in> set rs"
  by (induction rs ms coll total_n prog rule: log_turn_reads.induct) (auto simp: rbind_eq_Inl_iff Let_def split: prod.splits)

definition wait_outcome :: "u8 list \<Rightarrow> nat \<Rightarrow> nat \<Rightarrow> log_turn list \<Rightarrow> log_turn list \<Rightarrow> unit result \<Rightarrow> bool" where
  "wait_outcome p n wanted past used r \<longleftrightarrow>
     (case r of
        Inr _ \<Rightarrow> wanted \<le> seen p n (past @ used)
      | Inl e \<Rightarrow>
          (\<exists>io. e = error_of_wait_log (WaitLogIo io) \<and> (\<exists>t \<in> set used. Inl io \<in> set (lt_reads t))) \<or>
          (\<exists>t1 \<in> set (past @ used). \<exists>t2 \<in> set used. lt_exited t1 \<and> lt_exited t2 \<and>
             DRAIN_GRACE \<le> lt_later t2 - lt_now t1 \<and> seen p n (past @ used) < wanted \<and>
             e = WaitContainer (WaitLog (EndOfStream (last_n MAX_COLLECTED_LOG_BYTES (all_read (past @ used)))))))"

lemma wait_outcome_Cons: "wait_outcome p n wanted (past @ [t]) used r \<Longrightarrow> wait_outcome p n wanted past (t # used) r"
  by (auto simp: wait_outcome_def split: sum.splits)

definition exited_ok :: "log_turn list \<Rightarrow> duration option \<Rightarrow> bool" where
  "exited_ok past at \<longleftrightarrow> (\<forall>a. at = Some a \<longrightarrow> (\<exists>t \<in> set past. lt_exited t \<and> lt_now t = a))"

lemma log_wait_loop_outcome:
  assumes "log_wait_loop wanted ts ms at coll = Some (r, rest)"
    and "waiting p n past ms coll" and "\<forall>t \<in> set ts. length (lt_reads t) = n" and "p \<noteq> []" and "wanted \<le> u64_max"
    and "exited_ok past at"
  shows "\<exists>used. ts = used @ rest \<and> wait_outcome p n wanted past used r"
  using assms
proof (induction ts arbitrary: ms at coll past)
  case (Cons t ts)
  have len: "length (lt_reads t) = n" using Cons.prems by simp
  have one: "ts = rest \<Longrightarrow> wait_outcome p n wanted past [t] r \<Longrightarrow> ?case"
    by (intro exI [of _ "[t]"]) simp
  have more: "\<exists>used. ts = used @ rest \<and> wait_outcome p n wanted (past @ [t]) used r \<Longrightarrow> ?case"
    using wait_outcome_Cons by (metis append_Cons)
  show ?case
  proof (cases "log_turn_reads (lt_reads t) ms coll 0 False")
    case (Inl e)
    with Cons.prems(1) log_turn_reads_err [OF Inl] show ?thesis
      by (intro one) (auto simp: wait_outcome_def)
  next
    case (Inr st)
    obtain ms' coll' tot prog where st: "st = (ms', coll', tot, prog)" by (metis prod_cases4)
    note turn = waiting_turn [OF Cons.prems(2) len Cons.prems(4) Inr [unfolded st]]
    let ?at = "case at of Some a \<Rightarrow> a | None \<Rightarrow> lt_now t"
    have at: "exited_ok (past @ [t]) at" "lt_exited t \<Longrightarrow> exited_ok (past @ [t]) (Some ?at)"
      using Cons.prems(6) by (auto simp: exited_ok_def split: option.splits)
    consider (found) "wanted \<le> tot" "r = Inr ()" "ts = rest"
      | (on) "log_wait_loop wanted ts ms' at coll' = Some (r, rest)"
      | (grace) "lt_exited t" "log_wait_loop wanted ts ms' (Some ?at) coll' = Some (r, rest)"
      | (eos) "tot < wanted" "lt_exited t" "DRAIN_GRACE \<le> lt_later t - ?at" "ts = rest"
          "r = Inl (WaitContainer (WaitLog (EndOfStream coll')))"
      using Cons.prems(1) Inr st by (auto simp: Let_def not_le split: if_splits)
    then show ?thesis
    proof cases
      case found
      with turn(2) Cons.prems(5) show ?thesis by (intro one) (auto simp: wait_outcome_def)
    next
      case on
      from Cons.IH [OF on turn(1)] Cons.prems at(1) show ?thesis by (intro more) simp
    next
      case grace
      from Cons.IH [OF grace(2) turn(1)] Cons.prems at(2) [OF grace(1)] show ?thesis by (intro more) simp
    next
      case eos
      from at(2) [OF eos(2)] obtain t1 where "t1 \<in> set (past @ [t])" "lt_exited t1" "lt_now t1 = ?at"
        by (auto simp: exited_ok_def)
      moreover have "seen p n (past @ [t]) < wanted" using eos(1) turn(2) Cons.prems(5) by (simp add: min_def split: if_splits)
      moreover have "coll' = last_n MAX_COLLECTED_LOG_BYTES (all_read (past @ [t]))" using turn(1) by (simp add: waiting_def)
      ultimately have "wait_outcome p n wanted past [t] r" using eos unfolding wait_outcome_def by auto
      with eos(4) show ?thesis by (intro one)
    qed
  qed
qed simp




section \<open>Properties\<close>

text \<open>
  The incremental matcher counts every occurrence of the pattern exactly once, overlapping
  ones and those across chunk boundaries included: after any sequence of chunks its count is the
  number of occurrences in their concatenation.
\<close>

lemma stream_matcher_counts:
  assumes "p \<noteq> []"
  shows "sm_count (foldl (\<lambda>m c. snd (matcher_feed m c)) (matcher_new p) chunks) = occurrences p (concat chunks)"
proof -
  have "matches_stream (foldl (\<lambda>m c. snd (matcher_feed m c)) m chunks) p (S @ concat chunks)"
    if "matches_stream m p S" for m S
    using that
  proof (induction chunks arbitrary: m S)
    case (Cons c cs)
    from matcher_feed_stream [OF assms Cons.prems, of c] have "matches_stream (snd (matcher_feed m c)) p (S @ c)"
      by (cases "matcher_feed m c") simp
    from Cons.IH [OF this] show ?case by simp
  qed simp
  from this [OF matches_stream_new [OF assms]] show ?thesis by (simp add: matches_stream_def)
qed

text \<open>
  C31. A log wait that succeeds has seen the message at least \<open>times\<close> times over its streams; one
  that gives up has failed to read, or has seen it fewer times, has watched the exited container
  for the whole grace period, and reports exactly the last \<open>MAX_COLLECTED_LOG_BYTES\<close> bytes it read.
\<close>

theorem log_wait_sound:
  assumes "log_wait_until_ready lw turns = Some (r, rest)" and "lw_message lw \<noteq> []" and "lw_times lw \<le> u64_max"
    and "\<forall>t \<in> set turns. length (lt_reads t) = reader_count (lw_source lw)"
  shows "\<exists>used. turns = used @ rest \<and>
     (case r of
        Inr _ \<Rightarrow> lw_times lw \<le> seen (lw_message lw) (reader_count (lw_source lw)) used
      | Inl e \<Rightarrow>
          (\<exists>io. e = WaitContainer (WaitLog (WaitLogIo io)) \<and> (\<exists>t \<in> set used. Inl io \<in> set (lt_reads t))) \<or>
          (\<exists>t1 \<in> set used. \<exists>t2 \<in> set used. lt_exited t1 \<and> lt_exited t2 \<and>
             DRAIN_GRACE \<le> lt_later t2 - lt_now t1 \<and>
             seen (lw_message lw) (reader_count (lw_source lw)) used < lw_times lw \<and>
             e = WaitContainer (WaitLog (EndOfStream (last_n MAX_COLLECTED_LOG_BYTES (all_read used))))))"
proof -
  let ?n = "reader_count (lw_source lw)"
  have "log_wait_loop (lw_times lw) turns (replicate ?n (matcher_new (lw_message lw))) None [] = Some (r, rest)"
    using assms(1,2) by (simp add: log_wait_until_ready_def)
  from log_wait_loop_outcome [OF this waiting_init [OF assms(2)] assms(4,2,3)]
  obtain used where "turns = used @ rest" "wait_outcome (lw_message lw) ?n (lw_times lw) [] used r"
    by (auto simp: exited_ok_def)
  then show ?thesis
    by (intro exI [of _ used]) (simp only: wait_outcome_def error_of_wait_log_def append_Nil simp_thms)
qed

theorem log_wait_sound_witness:
  "log_wait_until_ready (log_wait_new SrcStdOut [104])
     [\<lparr>lt_reads = [Inr [111, 104]], lt_exited = False, lt_now = 0, lt_later = 0\<rparr>] = Some (Inr (), []) \<and>
   1 \<le> seen [104] 1 [\<lparr>lt_reads = [Inr [111, 104]], lt_exited = False, lt_now = 0, lt_later = 0\<rparr>]"
proof -
  let ?lw = "log_wait_new SrcStdOut [104]"
  let ?ts = "[\<lparr>lt_reads = [Inr [111, 104]], lt_exited = False, lt_now = 0, lt_later = 0\<rparr>]"
  have run: "log_wait_until_ready ?lw ?ts = Some (Inr (), [])"
    by (simp add: log_wait_until_ready_def log_wait_new_def matcher_new_def matcher_feed_def windows_def Let_def)
  from log_wait_sound [OF run] run show ?thesis by (auto simp: log_wait_new_def)
qed



end
