(* ===== verification/Docker_Tar.thy ===== *)
theory Docker_Tar
  imports Errors
begin

text \<open>
  \<open>src/core/client/docker_tar.rs\<close> and the error types of \<open>src/core/copy.rs\<close>: the ustar
  archives that are sent to and received from the Docker daemon. A header is a list of 512
  bytes that is filled field by field at the offsets of the source; paths are UTF-8 strings.
\<close>

section \<open>Errors\<close>

datatype copy_to_container_error =
  CopyToIo io_error
| PathNameError string
| SizeLimitExceeded nat string

datatype copy_from_container_error =
  CopyFromIo io_error
| IsDirectory
| EmptyArchive
| UnsupportedEntry string

fun copy_to_error_text :: "copy_to_container_error \<Rightarrow> string" where
  "copy_to_error_text (CopyToIo e) = ''I/O error: '' @ io_text e"
| "copy_to_error_text (PathNameError s) = ''copy path error: '' @ s"
| "copy_to_error_text (SizeLimitExceeded limit name) =
     ''copy size exceeds '' @ show_nat limit @ '' bytes: '' @ name"

abbreviation overflow_err :: "string \<Rightarrow> copy_to_container_error" where
  "overflow_err m \<equiv> CopyToIo (IoError InvalidData m)"

abbreviation invalid_data :: "string \<Rightarrow> copy_from_container_error" where
  "invalid_data m \<equiv> CopyFromIo (IoError InvalidData m)"

section \<open>Constants\<close>

definition BLOCK_SIZE :: nat where "BLOCK_SIZE = 512"
definition NAME_OFF :: nat where "NAME_OFF = 0"
definition NAME_LEN :: nat where "NAME_LEN = 100"
definition MODE_OFF :: nat where "MODE_OFF = 100"
definition UID_OFF :: nat where "UID_OFF = 108"
definition GID_OFF :: nat where "GID_OFF = 116"
definition SIZE_OFF :: nat where "SIZE_OFF = 124"
definition SIZE_LEN :: nat where "SIZE_LEN = 12"
definition MTIME_OFF :: nat where "MTIME_OFF = 136"
definition CHKSUM_OFF :: nat where "CHKSUM_OFF = 148"
definition CHKSUM_LEN :: nat where "CHKSUM_LEN = 8"
definition TYPEFLAG_OFF :: nat where "TYPEFLAG_OFF = 156"
definition MAGIC_OFF :: nat where "MAGIC_OFF = 257"
definition VERSION_OFF :: nat where "VERSION_OFF = 263"
definition PREFIX_OFF :: nat where "PREFIX_OFF = 345"
definition PREFIX_LEN :: nat where "PREFIX_LEN = 155"
definition NAME_MAX :: nat where "NAME_MAX = NAME_LEN - 1"
definition TYPEFLAG_REGULAR :: u8 where "TYPEFLAG_REGULAR = 48"
definition TYPEFLAG_DIRECTORY :: u8 where "TYPEFLAG_DIRECTORY = 53"
definition OCTAL_7DIGIT_MAX :: nat where "OCTAL_7DIGIT_MAX = 2097151"
definition OCTAL_11DIGIT_MAX :: nat where "OCTAL_11DIGIT_MAX = 8589934591"

lemmas tar_offsets =
  BLOCK_SIZE_def NAME_OFF_def NAME_LEN_def MODE_OFF_def UID_OFF_def GID_OFF_def SIZE_OFF_def SIZE_LEN_def
  MTIME_OFF_def CHKSUM_OFF_def CHKSUM_LEN_def TYPEFLAG_OFF_def MAGIC_OFF_def VERSION_OFF_def
  PREFIX_OFF_def PREFIX_LEN_def NAME_MAX_def

section \<open>Octal fields\<close>

text \<open>The digit loops run from the last position to the first: \<open>v & 7\<close>, then \<open>v >>= 3\<close>.\<close>

fun octal_digits :: "nat \<Rightarrow> nat \<Rightarrow> u8 list" where
  "octal_digits 0 v = []"
| "octal_digits (Suc n) v = octal_digits n (v div 8) @ [48 + of_nat (v mod 8)]"

definition write_octal :: "nat \<Rightarrow> nat \<Rightarrow> u8 list" where
  "write_octal v digits = octal_digits digits v @ [0]"

definition write_chksum :: "nat \<Rightarrow> u8 list" where
  "write_chksum v = octal_digits 6 v @ [0, 32]"

fun parse_octal_loop :: "nat \<Rightarrow> string \<Rightarrow> string \<Rightarrow> nat \<Rightarrow> u8 list \<Rightarrow> copy_from_container_error + nat" where
  "parse_octal_loop bound invalid over v [] = Inr v"
| "parse_octal_loop bound invalid over v (b # bs) =
     (if b = 0 \<or> b = 32 then Inr v
      else if \<not> (48 \<le> b \<and> b \<le> 55) then Inl (invalid_data invalid)
      else if bound < v * 8 \<or> bound < v * 8 + unat (b - 48) then Inl (invalid_data over)
      else parse_octal_loop bound invalid over (v * 8 + unat (b - 48)) bs)"

definition parse_octal :: "u8 list \<Rightarrow> copy_from_container_error + nat" where
  "parse_octal = parse_octal_loop u64_max ''invalid octal field'' ''octal field overflow'' 0"

definition parse_chksum :: "u8 list \<Rightarrow> copy_from_container_error + nat" where
  "parse_chksum = parse_octal_loop 4294967295 ''invalid checksum field'' ''checksum field overflow'' 0"

section \<open>Splitting paths\<close>

definition best_split :: "string \<Rightarrow> (nat \<times> nat) option \<Rightarrow> nat \<Rightarrow> (nat \<times> nat) option" where
  "best_split path best i =
     (if path ! i \<noteq> CHR ''/'' then best
      else
        let prefix_len = i; name_len = length path - (i + 1)
        in if \<not> (1 \<le> name_len \<and> name_len \<le> NAME_MAX) then best
           else if \<not> (1 \<le> prefix_len \<and> prefix_len \<le> PREFIX_LEN) then best
           else case best of
             None \<Rightarrow> Some (name_len, prefix_len)
           | Some (best_name, _) \<Rightarrow> if best_name < name_len then Some (name_len, prefix_len) else best)"

definition split_ustar_path :: "string \<Rightarrow> copy_to_container_error + string \<times> string" where
  "split_ustar_path path =
     (if path = [] then Inl (PathNameError ''tar entry path must not be empty'')
      else if CHR 0x00 \<in> set path then Inl (PathNameError ''tar entry path must not contain NUL'')
      else if length path \<le> NAME_MAX then Inr (path, [])
      else
        let search_end = (if last path = CHR ''/'' then length path - 1 else length path)
        in if search_end = 0 then Inl (PathNameError ''tar entry path must not be empty'')
           else case foldl (best_split path) None [0..<search_end] of
             None \<Rightarrow> Inl (PathNameError (''tar entry path too long to fit ustar name/prefix: ''
                       @ show_nat (length path) @ '' bytes''))
           | Some (name_len, prefix_len) \<Rightarrow> Inr (drop (prefix_len + 1) path, take prefix_len path))"

section \<open>Headers\<close>

text \<open>\<open>header[off..off + len].copy_from_slice(bytes)\<close>.\<close>

definition copy_at :: "nat \<Rightarrow> u8 list \<Rightarrow> u8 list \<Rightarrow> u8 list" where
  "copy_at off bytes h = take off h @ bytes @ drop (off + length bytes) h"

definition byte_sum :: "u8 list \<Rightarrow> nat" where
  "byte_sum h = sum_list (map unat h)"

definition header_fields :: "string \<Rightarrow> string \<Rightarrow> u8 \<Rightarrow> nat \<Rightarrow> u32 \<Rightarrow> u32 \<Rightarrow> u32 \<Rightarrow> u8 list" where
  "header_fields name pre typeflag sz mode uid gid =
     (let h = replicate BLOCK_SIZE 0;
          h = copy_at NAME_OFF (as_bytes name) h;
          h = (if pre \<noteq> [] then copy_at PREFIX_OFF (as_bytes pre) h else h);
          h = copy_at MODE_OFF (write_octal (unat (mode AND 4095)) 7) h;
          h = copy_at UID_OFF (write_octal (unat uid) 7) h;
          h = copy_at GID_OFF (write_octal (unat gid) 7) h;
          h = copy_at SIZE_OFF (write_octal sz 11) h;
          h = copy_at MTIME_OFF (write_octal 0 11) h;
          h = copy_at TYPEFLAG_OFF [typeflag] h;
          h = copy_at MAGIC_OFF (as_bytes ''ustar'' @ [0]) h;
          h = copy_at VERSION_OFF (as_bytes ''00'') h
      in copy_at CHKSUM_OFF (replicate CHKSUM_LEN 32) h)"

definition append_header ::
  "u8 list \<Rightarrow> string \<Rightarrow> u8 \<Rightarrow> nat \<Rightarrow> u32 \<Rightarrow> u32 \<Rightarrow> u32 \<Rightarrow> copy_to_container_error + u8 list" where
  "append_header out relative_path typeflag sz mode uid gid =
     (if OCTAL_7DIGIT_MAX < unat uid then
        Inl (overflow_err (''uid '' @ show_nat (unat uid) @ '' exceeds ustar 7-octal-digit limit (''
          @ show_nat OCTAL_7DIGIT_MAX @ '')''))
      else if OCTAL_7DIGIT_MAX < unat gid then
        Inl (overflow_err (''gid '' @ show_nat (unat gid) @ '' exceeds ustar 7-octal-digit limit (''
          @ show_nat OCTAL_7DIGIT_MAX @ '')''))
      else if OCTAL_11DIGIT_MAX < sz then
        Inl (overflow_err (''data size '' @ show_nat sz @ '' exceeds ustar 11-octal-digit limit (''
          @ show_nat OCTAL_11DIGIT_MAX @ '')''))
      else
        rbind (split_ustar_path relative_path) (\<lambda>(name, pre).
          let header = header_fields name pre typeflag sz mode uid gid
          in Inr (out @ copy_at CHKSUM_OFF (write_chksum (byte_sum header)) header)))"

section \<open>The builder\<close>

text \<open>A builder is its buffer; an operation returns its result and the buffer after it.\<close>

type_synonym ustar_builder = "u8 list"

definition builder_new :: ustar_builder where
  "builder_new = []"

definition check_limit :: "ustar_builder \<Rightarrow> string \<Rightarrow> copy_to_container_error + unit" where
  "check_limit buf name =
     (if DOCKER_RESPONSE_BODY_LIMIT < length buf then Inl (SizeLimitExceeded DOCKER_RESPONSE_BODY_LIMIT name) else Inr ())"

definition append_directory ::
  "ustar_builder \<Rightarrow> string \<Rightarrow> u32 \<Rightarrow> u32 \<Rightarrow> u32 \<Rightarrow> (copy_to_container_error + unit) \<times> ustar_builder" where
  "append_directory buf path mode uid gid =
     (if \<not> ends_with path ''/'' then
        (Inl (PathNameError ''directory tar entry path must end with a slash''), buf)
      else case append_header buf path TYPEFLAG_DIRECTORY 0 mode uid gid of
        Inl e \<Rightarrow> (Inl e, buf)
      | Inr buf' \<Rightarrow> (check_limit buf' path, buf'))"

definition pad_len :: "nat \<Rightarrow> nat" where
  "pad_len n = (BLOCK_SIZE - n mod BLOCK_SIZE) mod BLOCK_SIZE"

text \<open>\<open>checked_add\<close> fails past the width of \<open>usize\<close>; every partial sum is bounded by the last.\<close>

definition append_file ::
  "ustar_builder \<Rightarrow> string \<Rightarrow> u8 list \<Rightarrow> u32 \<Rightarrow> u32 \<Rightarrow> u32 \<Rightarrow> (copy_to_container_error + unit) \<times> ustar_builder" where
  "append_file buf path data mode uid gid =
     (if ends_with path ''/'' then
        (Inl (PathNameError ''file tar entry path must not end with a slash''), buf)
      else
        let pad = pad_len (length data);
            projected = length buf + BLOCK_SIZE + length data + pad
        in if u64_max < projected then (Inl (overflow_err ''tar size overflow''), buf)
           else if DOCKER_RESPONSE_BODY_LIMIT < projected then (Inl (SizeLimitExceeded DOCKER_RESPONSE_BODY_LIMIT path), buf)
           else case append_header buf path TYPEFLAG_REGULAR (length data) mode uid gid of
             Inl e \<Rightarrow> (Inl e, buf)
           | Inr buf' \<Rightarrow> (Inr (), buf' @ data @ replicate pad 0))"

definition builder_finish :: "ustar_builder \<Rightarrow> copy_to_container_error + u8 list" where
  "builder_finish buf =
     (let buf' = buf @ replicate (BLOCK_SIZE * 2) 0
      in rbind (check_limit buf' ''tar trailer'') (\<lambda>_. Inr buf'))"

definition build_single_file_ustar ::
  "string \<Rightarrow> u8 list \<Rightarrow> u32 \<Rightarrow> u32 \<Rightarrow> u32 \<Rightarrow> copy_to_container_error + u8 list" where
  "build_single_file_ustar name data mode uid gid =
     (case append_file builder_new name data mode uid gid of
        (Inl e, _) \<Rightarrow> Inl e
      | (Inr _, buf) \<Rightarrow> builder_finish buf)"

section \<open>Reading the first entry\<close>

definition check_typeflag :: "u8 \<Rightarrow> copy_from_container_error + unit" where
  "check_typeflag t =
     (if t = TYPEFLAG_DIRECTORY then Inl IsDirectory
      else if t = 0 \<or> t = TYPEFLAG_REGULAR then Inr ()
      else if t = 49 then Inl (UnsupportedEntry ''hardlink'')
      else if t = 50 then Inl (UnsupportedEntry ''symlink'')
      else if t = 51 then Inl (UnsupportedEntry ''char device'')
      else if t = 52 then Inl (UnsupportedEntry ''block device'')
      else if t = 54 then Inl (UnsupportedEntry ''fifo'')
      else Inl (UnsupportedEntry ''unknown typeflag''))"

definition slice :: "nat \<Rightarrow> nat \<Rightarrow> 'a list \<Rightarrow> 'a list" where
  "slice off len xs = take len (drop off xs)"

text \<open>A \<open>u64\<close> size always fits a 64-bit \<open>usize\<close>; the sum with the header may not.\<close>

definition parse_first_regular_file_from_ustar :: "u8 list \<Rightarrow> copy_from_container_error + u8 list" where
  "parse_first_regular_file_from_ustar bytes =
     (if 2 \<le> length bytes \<and> bytes ! 0 = 31 \<and> bytes ! 1 = 139 then Inl (UnsupportedEntry ''gzip'')
      else if length bytes < BLOCK_SIZE then Inl (invalid_data ''truncated tar header'')
      else
        let header = take BLOCK_SIZE bytes
        in if list_all (\<lambda>b. b = 0) header then Inl EmptyArchive
           else
             rbind (check_typeflag (header ! TYPEFLAG_OFF)) (\<lambda>_.
             rbind (parse_chksum (slice CHKSUM_OFF CHKSUM_LEN header)) (\<lambda>stored.
               if stored \<noteq> byte_sum (copy_at CHKSUM_OFF (replicate CHKSUM_LEN 32) header)
               then Inl (invalid_data ''tar header checksum mismatch'')
               else
                 rbind (parse_octal (slice SIZE_OFF SIZE_LEN header)) (\<lambda>sz.
                   if u64_max < BLOCK_SIZE + sz then Inl (invalid_data ''tar size overflow'')
                   else if length bytes < BLOCK_SIZE + sz then Inl (invalid_data ''truncated tar data'')
                   else Inr (take sz (drop BLOCK_SIZE bytes))))))"

section \<open>Octal fields read back\<close>

lemma length_octal_digits [simp]: "length (octal_digits n v) = n"
  by (induction n arbitrary: v) auto

lemma octal_digit_value:
  assumes "d < 8"
  shows "unat (48 + of_nat d - 48 :: u8) = d" and "48 \<le> (48 + of_nat d :: u8)" and "(48 + of_nat d :: u8) \<le> 55"
    and "(48 + of_nat d :: u8) \<noteq> 0" and "(48 + of_nat d :: u8) \<noteq> 32"
proof -
  have "d = 0 \<or> d = 1 \<or> d = 2 \<or> d = 3 \<or> d = 4 \<or> d = 5 \<or> d = 6 \<or> d = 7" using assms by linarith
  then show "unat (48 + of_nat d - 48 :: u8) = d" "48 \<le> (48 + of_nat d :: u8)" "(48 + of_nat d :: u8) \<le> 55"
    "(48 + of_nat d :: u8) \<noteq> 0" "(48 + of_nat d :: u8) \<noteq> 32"
    by auto
qed

lemma parse_octal_digits:
  "acc * 8 ^ n + v mod 8 ^ n \<le> bound \<Longrightarrow>
   parse_octal_loop bound i ov acc (octal_digits n v @ bs) = parse_octal_loop bound i ov (acc * 8 ^ n + v mod 8 ^ n) bs"
proof (induction n arbitrary: v bs)
  case (Suc n)
  let ?a = "acc * 8 ^ n + v div 8 mod 8 ^ n"
  have m: "v mod 8 ^ Suc n = 8 * (v div 8 mod 8 ^ n) + v mod 8"
    by (simp add: mod_mult2_eq)
  then have next_acc: "?a * 8 + v mod 8 = acc * 8 ^ Suc n + v mod 8 ^ Suc n" by simp
  with Suc.prems have le: "?a * 8 + v mod 8 \<le> bound" by (simp only:)
  moreover have "x \<le> x * 8 + y" for x y :: nat by simp
  ultimately have "?a \<le> bound" by (rule order.trans [rotated])
  with le have "parse_octal_loop bound i ov acc (octal_digits (Suc n) v @ bs)
      = parse_octal_loop bound i ov (?a * 8 + v mod 8) bs"
    using Suc.IH [of "v div 8" "(48 + of_nat (v mod 8)) # bs"] octal_digit_value [of "v mod 8"]
    by (simp del: add_diff_cancel_left')
  with next_acc show ?case by (simp only:)
qed simp

lemma parse_octal_write:
  assumes "v < 8 ^ digits" and "v \<le> u64_max"
  shows "parse_octal (write_octal v digits) = Inr v"
  using assms parse_octal_digits [of 0 digits v u64_max _ _ "[0]"]
  by (simp add: parse_octal_def write_octal_def)

lemma parse_chksum_write:
  assumes "v < 8 ^ 6"
  shows "parse_chksum (write_chksum v) = Inr v"
  using assms parse_octal_digits [of 0 6 v 4294967295 _ _ "[0, 32]"]
  by (simp add: parse_chksum_def write_chksum_def)

section \<open>Writing and reading fields\<close>

lemma length_copy_at [simp]: "off + length bs \<le> length h \<Longrightarrow> length (copy_at off bs h) = length h"
  by (simp add: copy_at_def)

lemma slice_copy_at_same: "off + length bs \<le> length h \<Longrightarrow> slice off (length bs) (copy_at off bs h) = bs"
  by (simp add: slice_def copy_at_def)

lemma nth_copy_at:
  assumes "off + length bs \<le> length h"
  shows "copy_at off bs h ! i = (if off \<le> i \<and> i < off + length bs then bs ! (i - off) else h ! i)"
  using assms by (auto simp: copy_at_def nth_append)

lemma slice_copy_at_other:
  assumes "off + length bs \<le> length h" and "i + n \<le> off \<or> off + length bs \<le> i" and "i + n \<le> length h"
  shows "slice i n (copy_at off bs h) = slice i n h"
  using assms by (intro nth_equalityI) (auto simp: slice_def nth_copy_at)

lemma copy_at_copy_at:
  assumes "length bs = length cs" and "off + length bs \<le> length h"
  shows "copy_at off bs (copy_at off cs h) = copy_at off bs h"
  using assms by (intro nth_equalityI) (auto simp: nth_copy_at)

lemma length_write_octal [simp]: "length (write_octal v n) = Suc n"
  by (simp add: write_octal_def)

lemma length_write_chksum [simp]: "length (write_chksum v) = 8"
  by (simp add: write_chksum_def)

lemma byte_sum_bound: "byte_sum h \<le> length h * 255"
proof (induction h)
  case (Cons b h)
  have "unat b \<le> 255" using unsigned_less [of b, where ?'a = nat] by simp
  with Cons show ?case by (simp add: byte_sum_def)
qed (simp add: byte_sum_def)

section \<open>Path splitting\<close>

definition legal_split :: "string \<Rightarrow> nat \<Rightarrow> bool" where
  "legal_split path i \<longleftrightarrow>
     path ! i = CHR ''/'' \<and> 1 \<le> length path - (i + 1) \<and> length path - (i + 1) \<le> NAME_MAX \<and> 1 \<le> i \<and> i \<le> PREFIX_LEN"

lemma best_split_None:
  "best_split path None k = (if legal_split path k then Some (length path - (k + 1), k) else None)"
  by (auto simp: best_split_def legal_split_def Let_def)

text \<open>The loop ends with the first legal split point, the one with the longest name.\<close>

lemma best_split_loop:
  "k \<le> length path \<Longrightarrow>
   (case foldl (best_split path) None [0..<k] of
      None \<Rightarrow> \<forall>i < k. \<not> legal_split path i
    | Some (n, p) \<Rightarrow> n = length path - (p + 1) \<and> p < k \<and> legal_split path p \<and> (\<forall>i < p. \<not> legal_split path i))"
proof (induction k)
  case (Suc k)
  let ?b = "foldl (best_split path) None [0..<k]"
  have step: "foldl (best_split path) None [0..<Suc k] = best_split path ?b k" by simp
  show ?case
  proof (cases ?b)
    case None
    with Suc show ?thesis unfolding step by (auto simp: best_split_None less_Suc_eq)
  next
    case (Some np)
    with Suc obtain n p where b: "?b = Some (n, p)" "n = length path - (p + 1)" "p < k" "legal_split path p"
      "\<forall>i < p. \<not> legal_split path i" by (cases np) auto
    then have "length path - (k + 1) < n" using Suc.prems by linarith
    with b have "best_split path ?b k = Some (n, p)" by (auto simp: best_split_def Let_def)
    with b show ?thesis unfolding step by simp
  qed
qed simp

definition search_end :: "string \<Rightarrow> nat" where
  "search_end path = (if last path = CHR ''/'' then length path - 1 else length path)"

lemma split_ustar_path_alt:
  assumes "path \<noteq> []" and "CHR 0x00 \<notin> set path" and "\<not> length path \<le> NAME_MAX"
  shows "split_ustar_path path =
     (case foldl (best_split path) None [0..<search_end path] of
        None \<Rightarrow> Inl (PathNameError (''tar entry path too long to fit ustar name/prefix: ''
                  @ show_nat (length path) @ '' bytes''))
      | Some (name_len, prefix_len) \<Rightarrow> Inr (drop (prefix_len + 1) path, take prefix_len path))"
proof -
  have "search_end path \<noteq> 0" using assms by (simp add: search_end_def NAME_MAX_def NAME_LEN_def)
  with assms show ?thesis unfolding split_ustar_path_def Let_def search_end_def by (simp only: if_False simp_thms)
qed

lemma split_ustar_path_cases:
  assumes "path \<noteq> []" and "CHR 0x00 \<notin> set path" and "\<not> length path \<le> NAME_MAX"
  shows "case split_ustar_path path of
      Inl e \<Rightarrow> \<forall>i < search_end path. \<not> legal_split path i
    | Inr (name, pre) \<Rightarrow> \<exists>p < search_end path. legal_split path p \<and> (\<forall>i < p. \<not> legal_split path i) \<and>
        name = drop (p + 1) path \<and> pre = take p path"
proof -
  have "search_end path \<le> length path" by (simp add: search_end_def)
  note loop = best_split_loop [OF this]
  show ?thesis
  proof (cases "foldl (best_split path) None [0..<search_end path]")
    case None
    with loop show ?thesis unfolding split_ustar_path_alt [OF assms] by simp
  next
    case (Some np)
    with loop show ?thesis unfolding split_ustar_path_alt [OF assms] by (cases np) auto
  qed
qed

lemma split_ustar_path_ok:
  assumes "split_ustar_path path = Inr (name, pre)"
  shows "path \<noteq> []" and "CHR 0x00 \<notin> set path" and "name \<noteq> []" and "length name \<le> 99" and "length pre \<le> 155"
    and "path = (if pre = [] then name else pre @ ''/'' @ name)"
proof -
  show ne: "path \<noteq> []" and nul: "CHR 0x00 \<notin> set path"
    using assms by (auto simp: split_ustar_path_def split: if_splits)
  have "name \<noteq> [] \<and> length name \<le> 99 \<and> length pre \<le> 155 \<and> path = (if pre = [] then name else pre @ ''/'' @ name)"
  proof (cases "length path \<le> NAME_MAX")
    case True
    with assms ne nul show ?thesis by (auto simp: split_ustar_path_def tar_offsets)
  next
    case False
    have "search_end path \<le> length path" by (simp add: search_end_def)
    with split_ustar_path_cases [OF ne nul False] assms
    obtain p where p: "legal_split path p" "p < length path" "name = drop (p + 1) path" "pre = take p path"
      by auto
    then have "path = take p path @ ''/'' @ drop (p + 1) path"
      using id_take_nth_drop [of p path] by (simp add: legal_split_def)
    with p show ?thesis by (auto simp: legal_split_def tar_offsets)
  qed
  then show "name \<noteq> []" "length name \<le> 99" "length pre \<le> 155" "path = (if pre = [] then name else pre @ ''/'' @ name)"
    by auto
qed

section \<open>What a header holds\<close>

definition fits :: "string \<Rightarrow> string \<Rightarrow> bool" where
  "fits name pre \<longleftrightarrow> length name \<le> 99 \<and> length pre \<le> 155"

lemma length_header_fields: "fits name pre \<Longrightarrow> length (header_fields name pre t sz mode uid gid) = 512"
  by (simp add: fits_def header_fields_def tar_offsets Let_def)

lemma header_fields_typeflag: "fits name pre \<Longrightarrow> header_fields name pre t sz mode uid gid ! 156 = t"
  by (simp add: fits_def header_fields_def tar_offsets Let_def nth_copy_at)

lemma header_fields_size:
  "fits name pre \<Longrightarrow> slice 124 12 (header_fields name pre t sz mode uid gid) = write_octal sz 11"
  using slice_copy_at_same [of 124 "write_octal sz 11"]
  by (simp add: fits_def header_fields_def tar_offsets Let_def slice_copy_at_other)

lemma header_fields_name:
  "fits name pre \<Longrightarrow> i < 100 \<Longrightarrow>
   header_fields name pre t sz mode uid gid ! i = (if i < length name then as_bytes name ! i else 0)"
  by (simp add: fits_def header_fields_def tar_offsets Let_def nth_copy_at)

lemma header_fields_spaces:
  "fits name pre \<Longrightarrow>
   copy_at 148 (replicate 8 32) (header_fields name pre t sz mode uid gid) = header_fields name pre t sz mode uid gid"
  by (simp add: fits_def header_fields_def tar_offsets Let_def copy_at_copy_at)

text \<open>The complete header: the fields with the checksum written over the spaces.\<close>

definition ustar_header :: "string \<Rightarrow> string \<Rightarrow> u8 \<Rightarrow> nat \<Rightarrow> u32 \<Rightarrow> u32 \<Rightarrow> u32 \<Rightarrow> u8 list" where
  "ustar_header name pre t sz mode uid gid =
     (let h = header_fields name pre t sz mode uid gid in copy_at 148 (write_chksum (byte_sum h)) h)"

lemma ustar_header_facts:
  fixes name pre :: string and t :: u8 and sz :: nat and mode uid gid :: u32
  assumes "fits name pre"
  defines "H \<equiv> ustar_header name pre t sz mode uid gid"
  shows "length H = 512" and "H ! 156 = t" and "slice 124 12 H = write_octal sz 11"
    and "parse_chksum (slice 148 8 H) = Inr (byte_sum (copy_at 148 (replicate 8 32) H))"
    and "\<And>i. i < 100 \<Longrightarrow> H ! i = (if i < length name then as_bytes name ! i else 0)"
proof -
  let ?h = "header_fields name pre t sz mode uid gid"
  have len: "length ?h = 512" using assms(1) by (rule length_header_fields)
  then show "length H = 512" by (simp add: H_def ustar_header_def Let_def)
  show "H ! 156 = t" using len header_fields_typeflag [OF assms(1)]
    by (simp add: H_def ustar_header_def Let_def nth_copy_at)
  show "slice 124 12 H = write_octal sz 11" using len header_fields_size [OF assms(1)]
    by (simp add: H_def ustar_header_def Let_def slice_copy_at_other)
  have "byte_sum ?h < 8 ^ 6" using byte_sum_bound [of ?h] len by simp
  then have "parse_chksum (slice 148 8 H) = Inr (byte_sum ?h)"
    using len slice_copy_at_same [of 148 "write_chksum (byte_sum ?h)" ?h] parse_chksum_write
    by (simp add: H_def ustar_header_def Let_def)
  moreover have "copy_at 148 (replicate 8 32) H = ?h"
    using len header_fields_spaces [OF assms(1)] by (simp add: H_def ustar_header_def Let_def copy_at_copy_at)
  ultimately show "parse_chksum (slice 148 8 H) = Inr (byte_sum (copy_at 148 (replicate 8 32) H))" by simp
  show "H ! i = (if i < length name then as_bytes name ! i else 0)" if "i < 100" for i
    using that len header_fields_name [OF assms(1) that] by (simp add: H_def ustar_header_def Let_def nth_copy_at)
qed

lemma append_header_ok:
  assumes "append_header out path t sz mode uid gid = Inr buf"
  obtains name pre where "split_ustar_path path = Inr (name, pre)" "fits name pre" "sz \<le> OCTAL_11DIGIT_MAX"
    "buf = out @ ustar_header name pre t sz mode uid gid"
proof -
  from assms obtain name pre where "split_ustar_path path = Inr (name, pre)" "sz \<le> OCTAL_11DIGIT_MAX"
    "buf = out @ ustar_header name pre t sz mode uid gid"
    by (auto simp: append_header_def ustar_header_def Let_def tar_offsets rbind_eq_Inr_iff split: if_splits)
  moreover from split_ustar_path_ok(4,5) [OF this(1)] have "fits name pre" by (simp add: fits_def)
  ultimately show thesis using that by blast
qed

section \<open>Archives\<close>

lemma utf8_step_cont:
  assumes "fst (utf8_step bs)" and "1 \<le> i" and "i < snd (utf8_step bs)"
  shows "is_cont (byte_at bs i)"
proof -
  have "snd (utf8_step bs) \<le> 4" by (simp add: utf8_step_def Let_def)
  with assms consider "i = 1" | "i = 2" | "i = 3" by linarith
  then show ?thesis using assms by cases (auto simp: utf8_step_def Let_def split: if_splits)
qed

lemma utf8_step_head: "fst (utf8_step bs) \<Longrightarrow> \<not> is_cont (byte_at bs 0)"
  by (auto simp: utf8_step_def is_cont_def Let_def split: if_splits)

lemma utf8_step_ascii: "byte_at bs 0 < 128 \<Longrightarrow> snd (utf8_step bs) = 1"
  by (simp add: utf8_step_def)

lemma utf8_ascii_cont:
  "utf8_valid bs \<Longrightarrow> i + 1 < length bs \<Longrightarrow> unat (bs ! i) < 128 \<Longrightarrow> \<not> is_cont (unat (bs ! (i + 1)))"
proof (induction bs arbitrary: i rule: utf8_valid.induct)
  case (1 bs)
  let ?n = "snd (utf8_step bs)"
  from "1.prems" have ne: "bs \<noteq> []" by auto
  with "1.prems" have v: "fst (utf8_step bs)" "utf8_valid (drop ?n bs)"
    using utf8_valid.simps [of bs] by simp_all
  show ?case
  proof (cases "?n \<le> i")
    case True
    with "1.IH" [OF ne, of "i - ?n"] v "1.prems" show ?thesis by simp
  next
    case False
    have b: "byte_at bs i < 128" using "1.prems" by (simp add: byte_at_def)
    with utf8_step_cont [OF v(1), of i] False have "i = 0" by (cases "1 \<le> i") (auto simp: is_cont_def)
    with b utf8_step_ascii have n: "?n = 1" by simp
    moreover have "drop 1 bs \<noteq> []" using "1.prems" by auto
    ultimately have "fst (utf8_step (drop 1 bs))" using v(2) utf8_valid.simps [of "drop 1 bs"] by simp
    from utf8_step_head [OF this] \<open>i = 0\<close> "1.prems" show ?thesis by (simp add: byte_at_def)
  qed
qed

lemma not_gzip_name:
  assumes "utf8_valid (as_bytes path)" and "split_ustar_path path = Inr (name, pre)" and "2 \<le> length name"
  shows "\<not> (as_bytes name ! 0 = 31 \<and> as_bytes name ! 1 = 139)"
proof
  assume g: "as_bytes name ! 0 = 31 \<and> as_bytes name ! 1 = 139"
  define u where "u = (if pre = [] then [] else as_bytes (pre @ ''/''))"
  have path: "as_bytes path = u @ as_bytes name"
    using split_ustar_path_ok(6) [OF assms(2)] by (simp add: u_def)
  then have "as_bytes path ! length u = as_bytes name ! 0" "as_bytes path ! (length u + 1) = as_bytes name ! 1"
    "length u + 1 < length (as_bytes path)"
    using assms(3) by (simp_all only: nth_append length_append) simp_all
  with utf8_ascii_cont [OF assms(1), of "length u"] g show False by (simp add: is_cont_def)
qed

text \<open>Reading the first entry of an archive that starts with a header the builder wrote.\<close>

lemma parse_first_header:
  assumes "split_ustar_path path = Inr (name, pre)" and "utf8_valid (as_bytes path)" and "t \<noteq> 0"
    and "sz \<le> OCTAL_11DIGIT_MAX"
  shows "parse_first_regular_file_from_ustar (ustar_header name pre t sz mode uid gid @ rest) =
     rbind (check_typeflag t) (\<lambda>_.
       if length rest < sz then Inl (invalid_data ''truncated tar data'') else Inr (take sz rest))"
proof -
  let ?H = "ustar_header name pre t sz mode uid gid"
  have fits: "fits name pre" using split_ustar_path_ok(4,5) [OF assms(1)] by (simp add: fits_def)
  note H = ustar_header_facts [OF fits, where t = t and sz = sz and mode = mode and uid = uid and gid = gid]
  have ne: "name \<noteq> []" using split_ustar_path_ok(3) [OF assms(1)] .
  have "\<not> (?H ! 0 = 31 \<and> ?H ! 1 = 139)"
    using not_gzip_name [OF assms(2,1)] H(5) [of 0] H(5) [of 1] ne by (cases "2 \<le> length name") auto
  then have gz: "\<not> ((?H @ rest) ! 0 = 31 \<and> (?H @ rest) ! 1 = 139)" using H(1) by (simp add: nth_append)
  have nz: "\<not> list_all (\<lambda>b. b = 0) ?H"
    using H(1,2) assms(3) nth_mem [of 156 ?H] by (auto simp: list_all_iff)
  have sz: "sz \<le> 8589934591" using assms(4) by (simp add: OCTAL_11DIGIT_MAX_def)
  then have oct: "parse_octal (write_octal sz 11) = Inr sz" by (intro parse_octal_write) simp_all
  show ?thesis
    using gz nz oct H(1-4) sz unfolding parse_first_regular_file_from_ustar_def
    by (auto simp: tar_offsets Let_def simp del: Let_def)
qed

text \<open>The builder's buffer: whole blocks, within the limit.\<close>

definition builder_wf :: "ustar_builder \<Rightarrow> bool" where
  "builder_wf buf \<longleftrightarrow> length buf mod BLOCK_SIZE = 0 \<and> length buf \<le> DOCKER_RESPONSE_BODY_LIMIT"

lemma builder_wf_new [wf_intros]: "builder_wf builder_new"
  by (simp add: builder_wf_def builder_new_def)

lemma pad_len_blocks: "512 dvd n + pad_len n"
proof (cases "n mod 512 = 0")
  case True
  then show ?thesis by (simp add: pad_len_def BLOCK_SIZE_def mod_eq_0_iff_dvd)
next
  case False
  have "n mod 512 < 512" by simp
  with False have pad: "pad_len n = 512 - n mod 512" by (simp add: pad_len_def BLOCK_SIZE_def)
  have "n + (512 - r) = (n - r) + 512" if "r \<le> n" "r < 512" for r using that by simp
  from this [OF mod_less_eq_dividend \<open>n mod 512 < 512\<close>] pad
  have "n + pad_len n = (n - n mod 512) + 512" by (simp only:)
  moreover have "512 dvd n - n mod 512" by (rule dvd_minus_mod)
  ultimately show ?thesis by (simp only: dvd_add_triv_right_iff)
qed

lemma append_file_ok:
  assumes "append_file buf path data mode uid gid = (Inr (), buf')"
  obtains name pre where "split_ustar_path path = Inr (name, pre)" "length data \<le> OCTAL_11DIGIT_MAX"
    "buf' = buf @ ustar_header name pre TYPEFLAG_REGULAR (length data) mode uid gid @ data @ replicate (pad_len (length data)) 0"
    "length buf' \<le> DOCKER_RESPONSE_BODY_LIMIT"
proof -
  from assms obtain buf1 where h: "append_header buf path TYPEFLAG_REGULAR (length data) mode uid gid = Inr buf1"
    and buf': "buf' = buf1 @ data @ replicate (pad_len (length data)) 0"
    and le: "length buf + BLOCK_SIZE + length data + pad_len (length data) \<le> DOCKER_RESPONSE_BODY_LIMIT"
    by (auto simp: append_file_def Let_def split: if_splits sum.splits)
  from h obtain name pre where n: "split_ustar_path path = Inr (name, pre)" "fits name pre" "length data \<le> OCTAL_11DIGIT_MAX"
    "buf1 = buf @ ustar_header name pre TYPEFLAG_REGULAR (length data) mode uid gid"
    by (rule append_header_ok)
  with ustar_header_facts(1) [OF n(2)] le buf' have "length buf' \<le> DOCKER_RESPONSE_BODY_LIMIT"
    by (simp add: BLOCK_SIZE_def)
  with that [OF n(1,3)] n(4) buf' show thesis by simp
qed

lemma append_directory_ok:
  assumes "append_directory buf path mode uid gid = (Inr (), buf')"
  obtains name pre where "split_ustar_path path = Inr (name, pre)"
    "buf' = buf @ ustar_header name pre TYPEFLAG_DIRECTORY 0 mode uid gid" "length buf' \<le> DOCKER_RESPONSE_BODY_LIMIT"
proof -
  from assms have h: "append_header buf path TYPEFLAG_DIRECTORY 0 mode uid gid = Inr buf'"
    and le: "length buf' \<le> DOCKER_RESPONSE_BODY_LIMIT"
    by (auto simp: append_directory_def check_limit_def split: if_splits sum.splits)
  from h show thesis using that le by (metis append_header_ok)
qed

lemma append_file_wf [wf_intros]:
  assumes "builder_wf buf" and "append_file buf path data mode uid gid = (Inr (), buf')"
  shows "builder_wf buf'"
proof -
  from assms(2) obtain name pre where *: "split_ustar_path path = Inr (name, pre)"
    "buf' = buf @ ustar_header name pre TYPEFLAG_REGULAR (length data) mode uid gid @ data @ replicate (pad_len (length data)) 0"
    "length buf' \<le> DOCKER_RESPONSE_BODY_LIMIT" by (rule append_file_ok)
  have "fits name pre" using split_ustar_path_ok(4,5) [OF *(1)] by (simp add: fits_def)
  from ustar_header_facts(1) [OF this] *(2) have "length buf' = length buf + 512 + (length data + pad_len (length data))" by simp
  moreover have "512 dvd length buf" using assms(1) by (simp add: builder_wf_def BLOCK_SIZE_def mod_eq_0_iff_dvd)
  ultimately have "512 dvd length buf'" using pad_len_blocks [of "length data"] by simp
  with *(3) show ?thesis by (simp add: builder_wf_def BLOCK_SIZE_def)
qed

lemma append_directory_wf [wf_intros]:
  assumes "builder_wf buf" and "append_directory buf path mode uid gid = (Inr (), buf')"
  shows "builder_wf buf'"
proof -
  from assms(2) obtain name pre where *: "split_ustar_path path = Inr (name, pre)"
    "buf' = buf @ ustar_header name pre TYPEFLAG_DIRECTORY 0 mode uid gid" "length buf' \<le> DOCKER_RESPONSE_BODY_LIMIT"
    by (rule append_directory_ok)
  have "fits name pre" using split_ustar_path_ok(4,5) [OF *(1)] by (simp add: fits_def)
  from ustar_header_facts(1) [OF this] *(2,3) assms(1) show ?thesis
    by (simp add: builder_wf_def BLOCK_SIZE_def)
qed

lemma builder_finish_ok:
  "builder_finish buf = Inr archive \<Longrightarrow> archive = buf @ replicate 1024 0 \<and> length archive \<le> DOCKER_RESPONSE_BODY_LIMIT"
  by (auto simp: builder_finish_def check_limit_def BLOCK_SIZE_def Let_def split: if_splits)

text \<open>A sequence of entries, as the copy operations append them.\<close>

datatype tar_entry = TarFile string "u8 list" u32 u32 u32 | TarDir string u32 u32 u32

fun append_entry :: "ustar_builder \<Rightarrow> tar_entry \<Rightarrow> copy_to_container_error + ustar_builder" where
  "append_entry buf (TarFile path data mode uid gid) =
     (case append_file buf path data mode uid gid of (Inl e, _) \<Rightarrow> Inl e | (Inr _, buf') \<Rightarrow> Inr buf')"
| "append_entry buf (TarDir path mode uid gid) =
     (case append_directory buf path mode uid gid of (Inl e, _) \<Rightarrow> Inl e | (Inr _, buf') \<Rightarrow> Inr buf')"

lemma append_entry_wf: "builder_wf buf \<Longrightarrow> append_entry buf x = Inr buf' \<Longrightarrow> builder_wf buf'"
  by (cases x) (auto split: prod.splits sum.splits intro: append_file_wf append_directory_wf)

section \<open>Properties\<close>

text \<open>
  C35. An archive with one regular file reads back: whenever building it succeeds, parsing its first
  entry returns exactly the data that went in (the path being the UTF-8 text that a \<open>&str\<close> is).
\<close>

theorem single_file_roundtrip:
  assumes "build_single_file_ustar path data mode uid gid = Inr archive" and "utf8_valid (as_bytes path)"
  shows "parse_first_regular_file_from_ustar archive = Inr data"
proof -
  from assms(1) obtain buf where b: "append_file builder_new path data mode uid gid = (Inr (), buf)"
    and fin: "builder_finish buf = Inr archive"
    by (auto simp: build_single_file_ustar_def split: prod.splits sum.splits)
  from b obtain name pre where n: "split_ustar_path path = Inr (name, pre)" "length data \<le> OCTAL_11DIGIT_MAX"
    "buf = builder_new @ ustar_header name pre TYPEFLAG_REGULAR (length data) mode uid gid @ data @ replicate (pad_len (length data)) 0"
    by (rule append_file_ok)
  have "archive = ustar_header name pre TYPEFLAG_REGULAR (length data) mode uid gid @ (data @ replicate (pad_len (length data)) 0 @ replicate 1024 0)"
    using builder_finish_ok [OF fin] n(3) by (simp add: builder_new_def)
  with parse_first_header [OF n(1) assms(2) _ n(2), of TYPEFLAG_REGULAR] show ?thesis
    by (simp add: check_typeflag_def TYPEFLAG_REGULAR_def TYPEFLAG_DIRECTORY_def)
qed

theorem single_file_roundtrip_witness:
  "\<exists>archive. build_single_file_ustar ''f'' [7, 0] 420 0 0 = Inr archive \<and>
     parse_first_regular_file_from_ustar archive = Inr [7, 0]"
proof -
  have fits: "fits ''f'' []" by (simp add: fits_def)
  have "\<exists>archive. build_single_file_ustar ''f'' [7, 0] 420 0 0 = Inr archive"
    using length_header_fields [OF fits]
    by (simp add: build_single_file_ustar_def append_file_def append_header_def split_ustar_path_def ends_with_def
        builder_new_def builder_finish_def check_limit_def tar_offsets pad_len_def Let_def suffix_def
        DOCKER_RESPONSE_BODY_LIMIT_def OCTAL_11DIGIT_MAX_def)
  then obtain archive where a: "build_single_file_ustar ''f'' [7, 0] 420 0 0 = Inr archive" ..
  moreover have "utf8_valid (as_bytes ''f'')" by (simp add: str_simps)
  ultimately show ?thesis using single_file_roundtrip [OF a] by blast
qed

text \<open>
  A path that is split into prefix and name is rejoined by a slash to the same path, both parts
  fit their fields, and the name is the longest one possible; a path is refused as too long only
  when no split at a slash fits.
\<close>

lemma split_ustar_path_correct:
  "case split_ustar_path path of
     Inr (name, pre) \<Rightarrow>
       path = (if pre = [] then name else pre @ ''/'' @ name) \<and> name \<noteq> [] \<and> length name \<le> 99 \<and> length pre \<le> 155 \<and>
       (99 < length path \<longrightarrow> (\<forall>i < search_end path. legal_split path i \<longrightarrow> length (drop (i + 1) path) \<le> length name))
   | Inl _ \<Rightarrow> path = [] \<or> CHR 0x00 \<in> set path \<or> 99 < length path \<and> (\<forall>i < search_end path. \<not> legal_split path i)"
proof (cases "split_ustar_path path")
  case (Inl e)
  have "path \<noteq> [] \<Longrightarrow> CHR 0x00 \<notin> set path \<Longrightarrow> \<not> length path \<le> NAME_MAX"
    using Inl by (auto simp: split_ustar_path_def)
  with Inl split_ustar_path_cases [of path] show ?thesis by (auto simp: tar_offsets)
next
  case (Inr np)
  obtain name pre where np: "np = (name, pre)" by fastforce
  note ok = split_ustar_path_ok [OF Inr [unfolded np]]
  have "length (drop (i + 1) path) \<le> length name" if "99 < length path" "legal_split path i" for i
  proof -
    from that(1) split_ustar_path_cases [OF ok(1,2)] Inr np
    obtain p where "\<forall>i < p. \<not> legal_split path i" "name = drop (p + 1) path" by (auto simp: tar_offsets)
    with that(2) show ?thesis by (cases "i < p") auto
  qed
  with Inr np ok(3-6) show ?thesis by simp
qed

text \<open>
  Every archive the builder finishes consists of whole 512-byte blocks, ends with two zero
  blocks and is within the 64 MiB limit, whatever sequence of files and directories went in.
\<close>

lemma archive_shape:
  assumes "foldr_res append_entry builder_new entries = Inr buf" and "builder_finish buf = Inr archive"
  shows "length archive mod 512 = 0 \<and> length archive \<le> 67108864 \<and> drop (length archive - 1024) archive = replicate 1024 0"
proof -
  have "builder_wf buf" using foldr_res_invariant [where P = builder_wf, OF assms(1) builder_wf_new] append_entry_wf by blast
  with builder_finish_ok [OF assms(2)] show ?thesis
    by (auto simp: builder_wf_def BLOCK_SIZE_def DOCKER_RESPONSE_BODY_LIMIT_def)
qed

text \<open>
  An archive whose first entry is a directory is reported as a directory, never as a file.
\<close>

lemma directory_first_is_directory:
  assumes "append_directory builder_new path mode uid gid = (Inr (), buf)" and "utf8_valid (as_bytes path)"
  shows "parse_first_regular_file_from_ustar (buf @ rest) = Inl IsDirectory"
proof -
  from assms(1) obtain name pre where "split_ustar_path path = Inr (name, pre)"
    "buf = builder_new @ ustar_header name pre TYPEFLAG_DIRECTORY 0 mode uid gid"
    by (rule append_directory_ok)
  with parse_first_header [OF this(1) assms(2), of TYPEFLAG_DIRECTORY 0] show ?thesis
    by (simp add: check_typeflag_def TYPEFLAG_DIRECTORY_def builder_new_def OCTAL_11DIGIT_MAX_def)
qed

end
