(* ===== verification/Env_Util.thy ===== *)
theory Env_Util
  imports Errors
begin

text \<open>
  \<open>src/core/env.rs\<close> and \<open>src/core/util.rs\<close>: the keep/remove command of the process
  environment, the folding of environment variables, container names.
\<close>

section \<open>The command of the environment\<close>

datatype command = Remove | Keep

text \<open>The argument is the value of \<open>TESTCONTAINERS_COMMAND\<close>, \<open>None\<close> when unset or not Unicode.\<close>

definition env_command :: "string option \<Rightarrow> command" where
  "env_command var = (if var = Some ''keep'' then Keep else Remove)"

section \<open>Environment variables\<close>

definition env_entry :: "string \<times> string \<Rightarrow> string" where
  "env_entry kv = fst kv @ ''='' @ snd kv"

definition fold_env :: "(string \<times> string) list \<Rightarrow> (string \<times> string) list \<Rightarrow> string list" where
  "fold_env base overrides =
     (let merged = fold (\<lambda>(k, v). bt_insert k v) base [];
          merged' = fold (\<lambda>(k, v). bt_insert k v) overrides merged
      in map env_entry merged')"

section \<open>Container names\<close>

text \<open>
  The counter is the static \<open>AtomicU64\<close>; the process id and the clock are inputs of a call.
\<close>

definition unique_suffix :: "u32 \<Rightarrow> nat \<Rightarrow> u64 \<Rightarrow> string \<times> u64" where
  "unique_suffix pid nanos counter =
     (show_nat (unat pid) @ ''-'' @ show_nat nanos @ ''-'' @ show_nat (unat counter), counter + 1)"

definition is_valid_container_id :: "string \<Rightarrow> bool" where
  "is_valid_container_id i =
     (if length i < 2 \<or> 63 < length i then False
      else if \<not> is_ascii_alphanumeric (i ! 0) then False
      else list_all (\<lambda>b. is_ascii_alphanumeric b \<or> b \<in> {CHR ''_'', CHR ''.'', CHR ''-''}) (drop 1 i))"

section \<open>Facts\<close>

lemma fold_env_alt: "fold_env base overrides = map env_entry (bt.insert_all (base @ overrides) [])"
  by (simp add: fold_env_def bt.insert_all_def Let_def)

lemma fold_env_lookup:
  "map_of (bt.insert_all kvs []) = map_of (rev kvs)" for kvs :: "(string \<times> string) list"
  by (subst bt.lookup_insert_all) (simp_all add: bt.inv_empty)

lemma fold_env_sorted: "sorted_wrt (<) (map fst (bt.insert_all kvs []))" for kvs :: "(string \<times> string) list"
  by (rule bt.entries_sorted [OF bt.inv_insert_all [OF bt.inv_empty]])

lemma split_once_env_entry [str_simps]: "CHR ''='' \<notin> set (fst kv) \<Longrightarrow> split_once CHR ''='' (env_entry kv) = Some kv"
  by (cases kv) (simp add: env_entry_def str_simps)

lemma length_show_nat: "n < 10 ^ k \<Longrightarrow> 0 < k \<Longrightarrow> length (show_nat n) \<le> k"
proof (induction n arbitrary: k rule: show_nat.induct)
  case (1 n)
  show ?case
  proof (cases "n < 10")
    case True
    then show ?thesis using 1(3) by (subst show_nat.simps) simp
  next
    case False
    with 1 obtain k' where k: "k = Suc k'" "0 < k'" by (cases k; cases "k - 1") auto
    then have "n div 10 < 10 ^ k'" using 1(2) by (simp add: less_mult_imp_div_less mult.commute)
    with 1(1) False k have "length (show_nat (n div 10)) \<le> k'" by simp
    with False k show ?thesis by (subst show_nat.simps) simp
  qed
qed

lemma suffix_alphabet:
  "b \<in> set (fst (unique_suffix pid nanos c)) \<Longrightarrow> is_ascii_digit b \<or> b = CHR ''-''"
  by (auto simp: unique_suffix_def dest: show_nat_digits)

lemma unique_suffix_fields:
  assumes "fst (unique_suffix pid nanos c) = fst (unique_suffix pid' nanos' c')"
  shows "pid = pid' \<and> c = c'"
proof -
  have nd: "CHR ''-'' \<notin> set (show_nat n)" for n using show_nat_digits [of "CHR ''-''" n] by auto
  let ?s = "fst (unique_suffix pid nanos c)"
  have "split_once CHR ''-'' (fst (unique_suffix p n k)) = Some (show_nat (unat p), show_nat n @ ''-'' @ show_nat (unat k))"
    and "rsplit_once CHR ''-'' (fst (unique_suffix p n k)) = Some (show_nat (unat p) @ ''-'' @ show_nat n, show_nat (unat k))"
    for p n k using nd split_once_append rsplit_once_append [of "CHR ''-''" "show_nat (unat k)" "show_nat (unat p) @ ''-'' @ show_nat n"]
    by (simp_all add: unique_suffix_def)
  from this [of pid nanos c] this [of pid' nanos' c'] assms show ?thesis
    by simp (metis word_unat_eq_iff)
qed

section \<open>Properties\<close>

text \<open>
  The environment sent to a container has one entry per variable, in key order, and the value of a
  variable is its last binding, an override winning over the base.
\<close>

lemma fold_env_last_wins:
  "\<exists>m. fold_env base overrides = map env_entry m \<and> sorted_wrt (<) (map fst m) \<and>
     map_of m = map_of (rev base) ++ map_of (rev overrides)"
  using fold_env_sorted [of "base @ overrides"] fold_env_lookup [of "base @ overrides"]
  by (auto simp: fold_env_alt)

text \<open>
  Names that \<open>start\<close> makes up never collide between two processes or between two values of the
  counter, and pass the name check of the runtime (the clock reading has at most 29 digits).
\<close>

lemma generated_ids_unique_and_valid:
  assumes "nanos < 10 ^ 29"
  shows "is_valid_container_id (''c-'' @ fst (unique_suffix pid nanos c)) \<and>
     (''c-'' @ fst (unique_suffix pid nanos c) = ''c-'' @ fst (unique_suffix pid' nanos' c') \<longrightarrow> pid = pid' \<and> c = c')"
proof
  have "unat pid < 10 ^ 10" using unsigned_less [of pid, where ?'a = nat] by simp
  moreover have "unat c < 10 ^ 20" using unsigned_less [of c, where ?'a = nat] by simp
  ultimately have "length (fst (unique_suffix pid nanos c)) \<le> 10 + 29 + 20 + 2"
    using assms length_show_nat [of "unat pid" 10] length_show_nat [of nanos 29] length_show_nat [of "unat c" 20]
    by (simp add: unique_suffix_def)
  then show "is_valid_container_id (''c-'' @ fst (unique_suffix pid nanos c))"
    using suffix_alphabet [of _ pid nanos c]
    by (auto simp: is_valid_container_id_def list_all_iff is_ascii_alphanumeric_def less_eq_char_def)
next
  show "''c-'' @ fst (unique_suffix pid nanos c) = ''c-'' @ fst (unique_suffix pid' nanos' c') \<longrightarrow> pid = pid' \<and> c = c'"
    using unique_suffix_fields [of pid nanos c pid' nanos' c'] by simp
qed

end
