(* ===== verification/Json_Text.thy ===== *)
theory Json_Text
  imports Errors
begin

text \<open>
  The text encoders of \<open>src/core/client/docker_client.rs\<close>: JSON string literals, arrays and
  objects, and percent encoding. Strings are UTF-8 byte strings; the bytes of non-ASCII characters
  are at least 128, so a loop over characters that treats only ASCII specially is a loop over
  bytes. The reader of JSON texts below is the specification the encoders are checked against: it
  reads the grammar of RFC 8259 without white space, with numbers that are unsigned integers and
  \<open>\u\<close> escapes of ASCII code points.
\<close>

section \<open>Encoders\<close>

definition hex_digit :: "nat \<Rightarrow> char" where
  "hex_digit d = char_of (if d < 10 then 48 + d else 87 + d)"

definition HEX :: "nat \<Rightarrow> char" where
  "HEX d = char_of (if d < 10 then 48 + d else 55 + d)"

definition escape_char :: "char \<Rightarrow> string" where
  "escape_char c =
     (if c = CHR 0x22 then [CHR 0x5C, CHR 0x22]
      else if c = CHR 0x5C then [CHR 0x5C, CHR 0x5C]
      else if c = CHR 0x08 then [CHR 0x5C, CHR ''b'']
      else if c = CHR 0x0C then [CHR 0x5C, CHR ''f'']
      else if c = CHR 0x0A then [CHR 0x5C, CHR ''n'']
      else if c = CHR 0x0D then [CHR 0x5C, CHR ''r'']
      else if c = CHR 0x09 then [CHR 0x5C, CHR ''t'']
      else if of_char c < (32 :: nat) then
        [CHR 0x5C, CHR ''u'', hex_digit 0, hex_digit 0, hex_digit (of_char c div 16), hex_digit (of_char c mod 16)]
      else [c])"

definition escape_json_value :: "string \<Rightarrow> string" where
  "escape_json_value s = concat (map escape_char s)"

definition escape_json :: "string \<Rightarrow> string" where
  "escape_json s = [CHR 0x22] @ escape_json_value s @ [CHR 0x22]"

definition json_array :: "string list \<Rightarrow> string" where
  "json_array items = ''['' @ join_with '','' (map escape_json items) @ '']''"

definition json_object :: "(string, string) btree_map \<Rightarrow> string" where
  "json_object m = ''{'' @ join_with '','' (map (\<lambda>(k, v). escape_json k @ '':'' @ escape_json v) m) @ ''}''"

definition unreserved :: "char \<Rightarrow> bool" where
  "unreserved b = (is_ascii_alphanumeric b \<or> b \<in> {CHR ''-'', CHR ''_'', CHR ''.'', CHR ''~''})"

definition percent_encode :: "string \<Rightarrow> string" where
  "percent_encode s =
     concat (map (\<lambda>b. if unreserved b then [b]
       else [CHR ''%'', HEX (of_char b div 16), HEX (of_char b mod 16)]) s)"

section \<open>Percent decoding\<close>

definition hex_value :: "char \<Rightarrow> nat" where
  "hex_value c =
     (let n = of_char c in if n \<le> 57 then n - 48 else if n \<le> 70 then n - 55 else n - 87)"

lemma hex_value_digits [simp]: "d < 16 \<Longrightarrow> hex_value (HEX d) = d" "d < 16 \<Longrightarrow> hex_value (hex_digit d) = d"
  by (auto simp: hex_value_def HEX_def hex_digit_def Let_def)

fun percent_decode :: "string \<Rightarrow> string" where
  "percent_decode [] = []"
| "percent_decode (c # cs) =
     (if c = CHR ''%'' then
        (case cs of a # b # r \<Rightarrow> char_of (16 * hex_value a + hex_value b) # percent_decode r | _ \<Rightarrow> [])
      else c # percent_decode cs)"

lemma of_char_less [simp]: "(of_char c :: nat) < 256" "(of_char c :: nat) div 16 < 16"
  using nat_of_char_less_256 [of c] by (simp_all add: less_mult_imp_div_less)

lemma unreserved_percent [simp]: "\<not> unreserved CHR ''%''"
  by (simp add: unreserved_def is_ascii_alphanumeric_def is_ascii_digit_def less_eq_char_def)

lemma percent_decode_encode_append:
  "percent_decode (percent_encode s @ t) = s @ percent_decode t"
proof (induction s)
  case (Cons c s)
  have "char_of (16 * (of_char c div 16) + of_char c mod 16 :: nat) = c" by simp
  with Cons show ?case
    by (cases "unreserved c") (auto simp: percent_encode_def)
qed (simp add: percent_encode_def)

lemma percent_decode_encode: "percent_decode (percent_encode s) = s"
  using percent_decode_encode_append [of s "[]"] by simp

lemma HEX_unreserved [simp]: "d < 16 \<Longrightarrow> unreserved (HEX d)"
  by (auto simp: HEX_def unreserved_def is_ascii_alphanumeric_def is_ascii_digit_def less_eq_char_def)

lemma percent_encode_alphabet: "c \<in> set (percent_encode s) \<Longrightarrow> unreserved c \<or> c = CHR ''%''"
  by (auto simp: percent_encode_def split: if_splits)

lemma unreserved_separators [simp]:
  "\<not> unreserved CHR ''/''" "\<not> unreserved CHR ''?''" "\<not> unreserved CHR ''&''" "\<not> unreserved CHR ''=''"
  by (simp_all add: unreserved_def is_ascii_alphanumeric_def is_ascii_digit_def less_eq_char_def)

lemma percent_encode_reserved: "\<not> unreserved c \<Longrightarrow> c \<noteq> CHR ''%'' \<Longrightarrow> c \<notin> set (percent_encode s)"
  using percent_encode_alphabet by blast

lemma percent_encode_separators [simp]:
  "CHR ''/'' \<notin> set (percent_encode s)" "CHR ''?'' \<notin> set (percent_encode s)"
  "CHR ''&'' \<notin> set (percent_encode s)" "CHR ''='' \<notin> set (percent_encode s)"
  by (simp_all add: percent_encode_reserved)

lemma percent_encode_inject [simp]: "percent_encode s = percent_encode t \<longleftrightarrow> s = t"
  by (metis percent_decode_encode)

section \<open>JSON texts and their reader\<close>

datatype json = JBool bool | JNum nat | JStr string | JArr "json list" | JObj "(string \<times> json) list"

text \<open>The compact text of a value, written with the source's string encoder.\<close>

fun render :: "json \<Rightarrow> string" where
  "render (JBool b) = (if b then ''true'' else ''false'')"
| "render (JNum n) = show_nat n"
| "render (JStr s) = escape_json s"
| "render (JArr xs) = ''['' @ join_with '','' (map render xs) @ '']''"
| "render (JObj kvs) = ''{'' @ join_with '','' (map (\<lambda>kv. escape_json (fst kv) @ '':'' @ render (snd kv)) kvs) @ ''}''"

text \<open>The rest of a string literal after its opening quote.\<close>

definition unescape :: "char \<Rightarrow> char option" where
  "unescape c =
     (if c \<in> {CHR 0x22, CHR 0x5C, CHR ''/''} then Some c
      else if c = CHR ''b'' then Some (CHR 0x08)
      else if c = CHR ''f'' then Some (CHR 0x0C)
      else if c = CHR ''n'' then Some (CHR 0x0A)
      else if c = CHR ''r'' then Some (CHR 0x0D)
      else if c = CHR ''t'' then Some (CHR 0x09)
      else None)"

definition read_escape :: "string \<Rightarrow> (char \<times> string) option" where
  "read_escape cs =
     (if cs = [] then None
      else if hd cs = CHR ''u'' then
        (case tl cs of
           h1 # h2 # h3 # h4 # r \<Rightarrow>
             if hex_value h1 = 0 \<and> hex_value h2 = 0 \<and> hex_value h3 < 8 \<and> hex_value h4 < 16 then
               Some (char_of (16 * hex_value h3 + hex_value h4), r)
             else None
         | _ \<Rightarrow> None)
      else map_option (\<lambda>d. (d, tl cs)) (unescape (hd cs)))"

lemma read_escape_shorter: "read_escape cs = Some (d, r) \<Longrightarrow> length r < length cs"
  by (cases cs) (auto simp: read_escape_def split: if_splits list.splits)

function read_string :: "string \<Rightarrow> (string \<times> string) option" where
  "read_string s =
     (if s = [] then None
      else if hd s = CHR 0x22 then Some ([], tl s)
      else if hd s = CHR 0x5C then
        (case read_escape (tl s) of
           None \<Rightarrow> None
         | Some (d, r) \<Rightarrow> map_option (apfst (Cons d)) (read_string r))
      else if of_char (hd s) < (32 :: nat) then None
      else map_option (apfst (Cons (hd s))) (read_string (tl s)))"
  by pat_completeness auto
termination
  by (relation "measure length") (auto simp: neq_Nil_conv dest: read_escape_shorter)

declare read_string.simps [simp del]

lemma read_string_char: "read_string (escape_char c @ t) = map_option (apfst (Cons c)) (read_string t)"
proof -
  have c: "char_of (16 * (of_char c div 16) + of_char c mod 16 :: nat) = c" by simp
  have "of_char c div 16 < (8 :: nat)" if "of_char c < (32 :: nat)" using that by simp
  with c show ?thesis
    by (subst read_string.simps) (auto simp: escape_char_def read_escape_def unescape_def)
qed

lemma read_string_value: "read_string (escape_json_value s @ CHR 0x22 # t) = Some (s, t)"
proof (induction s)
  case Nil
  then show ?case by (subst read_string.simps) (simp add: escape_json_value_def)
next
  case (Cons c s)
  then show ?case
    using read_string_char [of c "escape_json_value s @ CHR 0x22 # t"] by (simp add: escape_json_value_def)
qed

text \<open>Values. The fuel bounds the nesting and the number of elements; the length of the text suffices.\<close>

definition read_number :: "string \<Rightarrow> nat" where
  "read_number ds = foldl (\<lambda>a c. 10 * a + digit_value c) 0 ds"

lemma read_number_show_nat [simp]: "read_number (show_nat n) = n"
proof (induction n rule: show_nat.induct)
  case (1 n)
  then show ?case by (cases "n < 10"; subst show_nat.simps) (simp_all add: read_number_def)
qed

definition after :: "char \<Rightarrow> string \<Rightarrow> string option" where
  "after c s = (if s \<noteq> [] \<and> hd s = c then Some (tl s) else None)"

lemma after_simps [simp]: "after c (d # s) = (if d = c then Some s else None)" "after c [] = None"
  by (simp_all add: after_def)

fun read_value :: "nat \<Rightarrow> string \<Rightarrow> (json \<times> string) option"
  and read_items :: "nat \<Rightarrow> string \<Rightarrow> (json list \<times> string) option"
  and read_members :: "nat \<Rightarrow> string \<Rightarrow> ((string \<times> json) list \<times> string) option" where
  "read_value 0 s = None"
| "read_value (Suc n) s =
     (case s of
        [] \<Rightarrow> None
      | c # r \<Rightarrow>
          if c = CHR 0x22 then map_option (apfst JStr) (read_string r)
          else if c = CHR ''['' then
            (case after CHR '']'' r of Some r' \<Rightarrow> Some (JArr [], r') | None \<Rightarrow> map_option (apfst JArr) (read_items n r))
          else if c = CHR ''{'' then
            (case after CHR ''}'' r of Some r' \<Rightarrow> Some (JObj [], r') | None \<Rightarrow> map_option (apfst JObj) (read_members n r))
          else if starts_with s ''true'' then Some (JBool True, drop 4 s)
          else if starts_with s ''false'' then Some (JBool False, drop 5 s)
          else if is_ascii_digit c then Some (JNum (read_number (takeWhile is_ascii_digit s)), dropWhile is_ascii_digit s)
          else None)"
| "read_items 0 s = None"
| "read_items (Suc n) s =
     (case read_value n s of
        None \<Rightarrow> None
      | Some (v, r) \<Rightarrow>
          (case after CHR '','' r of
             Some r' \<Rightarrow> map_option (apfst (Cons v)) (read_items n r')
           | None \<Rightarrow> map_option (Pair [v]) (after CHR '']'' r)))"
| "read_members 0 s = None"
| "read_members (Suc n) s =
     (case Option.bind (after CHR 0x22 s) read_string of
        None \<Rightarrow> None
      | Some (k, r) \<Rightarrow>
          (case Option.bind (after CHR '':'' r) (read_value n) of
             None \<Rightarrow> None
           | Some (v, r') \<Rightarrow>
               (case after CHR '','' r' of
                  Some r'' \<Rightarrow> map_option (apfst (Cons (k, v))) (read_members n r'')
                | None \<Rightarrow> map_option (Pair [(k, v)]) (after CHR ''}'' r'))))"

definition read_json :: "string \<Rightarrow> json option" where
  "read_json s = (case read_value (length s) s of Some (j, []) \<Rightarrow> Some j | _ \<Rightarrow> None)"

section \<open>Reading a rendered text\<close>

fun json_fuel :: "json \<Rightarrow> nat" where
  "json_fuel (JArr xs) = Suc (sum_list (map (\<lambda>x. Suc (json_fuel x)) xs))"
| "json_fuel (JObj kvs) = Suc (sum_list (map (\<lambda>kv. Suc (json_fuel (snd kv))) kvs))"
| "json_fuel _ = 1"

definition delimits :: "string \<Rightarrow> bool" where
  "delimits rest = (rest = [] \<or> \<not> is_ascii_digit (hd rest))"

lemma delimits_simps [simp]: "delimits []" "delimits (c # r) \<longleftrightarrow> \<not> is_ascii_digit c"
  by (simp_all add: delimits_def)

lemma is_ascii_digit_json [simp]:
  "\<not> is_ascii_digit CHR '',''" "\<not> is_ascii_digit CHR '']''" "\<not> is_ascii_digit CHR ''}''"
  "\<not> is_ascii_digit CHR ''[''" "\<not> is_ascii_digit CHR ''{''" "\<not> is_ascii_digit CHR 0x22"
  "\<not> is_ascii_digit CHR ''t''" "\<not> is_ascii_digit CHR ''f''"
  by (simp_all add: is_ascii_digit_iff)

lemma after_render: "c \<in> {CHR '']'', CHR ''}'', CHR '',''} \<Longrightarrow> after c (render j @ t) = None"
proof (cases j)
  case (JNum n)
  assume c: "c \<in> {CHR '']'', CHR ''}'', CHR '',''}"
  obtain d ds where d: "show_nat n = d # ds" "is_ascii_digit d" using hd_show_nat by (cases "show_nat n") auto
  then have "d \<noteq> c" using c by auto
  with JNum d show ?thesis by simp
qed (auto simp: escape_json_def)

lemma after_member [simp]: "after CHR ''}'' (escape_json k @ t) = None"
  by (simp add: escape_json_def)

lemma read_number_value:
  assumes "delimits rest"
  shows "read_value (Suc n) (show_nat m @ rest) = Some (JNum m, rest)"
proof -
  obtain d ds where d: "show_nat m = d # ds" "is_ascii_digit d" using hd_show_nat by (cases "show_nat m") auto
  have t: "takeWhile is_ascii_digit (show_nat m @ rest) = show_nat m" "dropWhile is_ascii_digit (show_nat m @ rest) = rest"
    using assms show_nat_digits by (auto simp: delimits_def takeWhile_append2 dropWhile_append2 takeWhile_eq_Nil_iff dropWhile_eq_self_iff)
  have c: "d \<noteq> CHR 0x22" "d \<noteq> CHR ''[''" "d \<noteq> CHR ''{''" "d \<noteq> CHR ''t''" "d \<noteq> CHR ''f''" using d(2) by auto
  then have s: "\<not> starts_with (d # ds @ rest) ''true''" "\<not> starts_with (d # ds @ rest) ''false''"
    by (auto simp: starts_with_def)
  have e: "show_nat m @ rest = d # ds @ rest" using d(1) by simp
  have "read_value (Suc n) (d # ds @ rest)
      = Some (JNum (read_number (takeWhile is_ascii_digit (d # ds @ rest))), dropWhile is_ascii_digit (d # ds @ rest))"
    using c s d(2) by (simp only: read_value.simps list.case if_False if_True)
  then show ?thesis using t unfolding e by (metis e read_number_show_nat)
qed

lemma read_items_render:
  assumes "\<And>x n rest. x \<in> set xs \<Longrightarrow> json_fuel x \<le> n \<Longrightarrow> delimits rest \<Longrightarrow> read_value n (render x @ rest) = Some (x, rest)"
    and "xs \<noteq> []" and "sum_list (map (\<lambda>x. Suc (json_fuel x)) xs) \<le> n"
  shows "read_items n (join_with '','' (map render xs) @ CHR '']'' # rest) = Some (xs, rest)"
  using assms
proof (induction xs arbitrary: n)
  case (Cons x xs)
  then obtain m where n: "n = Suc m" "json_fuel x \<le> m" by (cases n) auto
  show ?case
  proof (cases "xs = []")
    case True
    with Cons.prems(1) n show ?thesis by simp
  next
    case False
    then have j: "join_with '','' (map render (x # xs)) = render x @ CHR '','' # join_with '','' (map render xs)"
      by (simp add: join_with_Cons)
    have "read_items m (join_with '','' (map render xs) @ CHR '']'' # rest) = Some (xs, rest)"
      using Cons.IH [of m] Cons.prems(1,3) False n by simp
    with Cons.prems(1) [of x] n show ?thesis unfolding j by simp
  qed
qed simp

lemma read_members_render:
  assumes "\<And>kv n rest. kv \<in> set kvs \<Longrightarrow> json_fuel (snd kv) \<le> n \<Longrightarrow> delimits rest \<Longrightarrow>
      read_value n (render (snd kv) @ rest) = Some (snd kv, rest)"
    and "kvs \<noteq> []" and "sum_list (map (\<lambda>kv. Suc (json_fuel (snd kv))) kvs) \<le> n"
  shows "read_members n (join_with '','' (map (\<lambda>kv. escape_json (fst kv) @ '':'' @ render (snd kv)) kvs) @ CHR ''}'' # rest)
    = Some (kvs, rest)"
  using assms
proof (induction kvs arbitrary: n)
  case (Cons kv kvs)
  let ?r = "\<lambda>kv. escape_json (fst kv) @ '':'' @ render (snd kv)"
  from Cons obtain m where n: "n = Suc m" "json_fuel (snd kv) \<le> m" by (cases n) auto
  show ?case
  proof (cases "kvs = []")
    case True
    with Cons.prems(1) n show ?thesis by (simp add: escape_json_def read_string_value)
  next
    case False
    then have j: "join_with '','' (map ?r (kv # kvs)) = ?r kv @ CHR '','' # join_with '','' (map ?r kvs)"
      by (simp add: join_with_Cons)
    have "read_members m (join_with '','' (map ?r kvs) @ CHR ''}'' # rest) = Some (kvs, rest)"
      using Cons.IH [of m] Cons.prems(1,3) False n by simp
    with Cons.prems(1) [of kv] n show ?thesis unfolding j by (simp add: escape_json_def read_string_value)
  qed
qed simp

lemma after_join:
  "xs \<noteq> [] \<Longrightarrow> (\<And>x t. x \<in> set xs \<Longrightarrow> after c (f x @ t) = None) \<Longrightarrow> after c (join_with '','' (map f xs) @ t) = None"
  by (cases xs; cases "tl xs") simp_all

lemma read_value_render:
  "json_fuel j \<le> n \<Longrightarrow> delimits rest \<Longrightarrow> read_value n (render j @ rest) = Some (j, rest)"
proof (induction j arbitrary: n rest rule: render.induct)
  case (1 b n rest)
  then show ?case by (cases n) (simp_all add: starts_with_def)
next
  case (2 m n rest)
  then show ?case using read_number_value by (cases n) auto
next
  case (3 s n rest)
  then show ?case by (cases n) (simp_all add: escape_json_def read_string_value)
next
  case (4 xs n rest)
  then obtain m where n: "n = Suc m" "sum_list (map (\<lambda>x. Suc (json_fuel x)) xs) \<le> m" by (cases n) auto
  show ?case
  proof (cases "xs = []")
    case False
    have "after CHR '']'' (join_with '','' (map render xs) @ CHR '']'' # rest) = None"
      using False by (rule after_join) (simp add: after_render)
    with read_items_render [OF 4(1) False n(2), of rest] n show ?thesis by simp
  qed (simp add: n)
next
  case (5 kvs n rest)
  then obtain m where n: "n = Suc m" "sum_list (map (\<lambda>kv. Suc (json_fuel (snd kv))) kvs) \<le> m" by (cases n) auto
  show ?case
  proof (cases "kvs = []")
    case False
    have "after CHR ''}'' (join_with '','' (map (\<lambda>kv. escape_json (fst kv) @ '':'' @ render (snd kv)) kvs) @ CHR ''}'' # rest) = None"
      using False by (rule after_join) simp
    with read_members_render [OF _ False n(2), of rest] 5(1) n show ?thesis by simp
  qed (simp add: n)
qed

lemma length_join_with:
  "xs \<noteq> [] \<Longrightarrow> Suc (length (join_with '','' xs)) = sum_list (map (\<lambda>x. Suc (length x)) xs)"
proof (induction xs)
  case (Cons x xs)
  then show ?case by (cases "xs = []") (simp_all add: join_with_Cons)
qed simp

lemma json_fuel_length: "json_fuel j \<le> length (render j)"
proof (induction j rule: render.induct)
  case (2 n)
  then show ?case using show_nat_neq_Nil [of n] by (cases "show_nat n") simp_all
next
  case (4 xs)
  have "sum_list (map (\<lambda>x. Suc (json_fuel x)) xs) \<le> sum_list (map (\<lambda>x. Suc (length (render x))) xs)"
    using 4 by (intro sum_list_mono) simp
  then show ?case using length_join_with [of "map render xs"] by (cases "xs = []") (simp_all add: comp_def)
next
  case (5 kvs)
  let ?r = "\<lambda>kv. escape_json (fst kv) @ '':'' @ render (snd kv)"
  have "sum_list (map (\<lambda>kv. Suc (json_fuel (snd kv))) kvs) \<le> sum_list (map (\<lambda>kv. Suc (length (?r kv))) kvs)"
    using 5 by (intro sum_list_mono) (simp add: le_SucI trans_le_add2)
  then show ?case using length_join_with [of "map ?r kvs"] by (cases "kvs = []") (simp_all add: comp_def)
qed (simp_all add: escape_json_def)

lemma read_json_render: "read_json (render j) = Some j"
  using read_value_render [OF json_fuel_length, of "[]" j] by (simp add: read_json_def)

section \<open>Properties\<close>

text \<open>
  Percent encoding is safe in a path segment or a query value of a request to the daemon: the
  text decodes to what was encoded, different texts have different encodings, and no encoded text
  holds a character that separates segments, parameters or the lines of the request.
\<close>

lemma percent_encode_safe:
  "percent_decode (percent_encode s) = s \<and> (percent_encode s = percent_encode t \<longleftrightarrow> s = t) \<and>
   set (percent_encode s) \<inter> {CHR ''/'', CHR ''?'', CHR ''&'', CHR ''='', CHR ''#'', CHR '' '', CHR 0x0A, CHR 0x0D} = {}"
proof -
  have "\<not> unreserved c \<and> c \<noteq> CHR ''%''"
    if "c \<in> {CHR ''/'', CHR ''?'', CHR ''&'', CHR ''='', CHR ''#'', CHR '' '', CHR 0x0A, CHR 0x0D}" for c
    using that by (auto simp: unreserved_def is_ascii_alphanumeric_def is_ascii_digit_def less_eq_char_def)
  then show ?thesis using percent_encode_alphabet by (auto simp: percent_decode_encode)
qed

text \<open>
  The JSON texts the client writes are read back by a JSON reader as the value that was written:
  strings with any control character, quote or backslash, arrays of strings and maps of strings.
\<close>

lemma json_texts_read_back:
  "read_json (escape_json s) = Some (JStr s) \<and>
   read_json (json_array xs) = Some (JArr (map JStr xs)) \<and>
   read_json (json_object m) = Some (JObj (map (apsnd JStr) m))"
proof -
  have "escape_json s = render (JStr s)" "json_array xs = render (JArr (map JStr xs))" "json_object m = render (JObj (map (apsnd JStr) m))"
    by (simp_all add: json_array_def json_object_def comp_def split_def)
  then show ?thesis by (simp only: read_json_render simp_thms)
qed

end
