(* ===== verification/Mounts.thy ===== *)
theory Mounts
  imports Json_Text
begin

text \<open>
  \<open>src/core/mounts.rs\<close> and \<open>src/core/healthcheck.rs\<close>: mounts with their tmpfs options and
  human-readable sizes, health checks and their JSON. A builder that may panic returns
  \<open>None\<close> for the panic.
\<close>

section \<open>Mounts\<close>

datatype mount_type = Bind | Volume | Tmpfs

datatype access_mode = ReadOnly | ReadWrite

record mount_tmpfs_options =
  size_bytes :: "int option"
  tmpfs_mode :: "int option"

record mount =
  mnt_access_mode :: access_mode
  mnt_type :: mount_type
  mnt_source :: "string option"
  mnt_target :: "string option"
  mnt_tmpfs_options :: "mount_tmpfs_options option"

fun mount_type_text :: "mount_type \<Rightarrow> string" where
  "mount_type_text Bind = ''bind''"
| "mount_type_text Volume = ''volume''"
| "mount_type_text Tmpfs = ''tmpfs''"

fun access_mode_text :: "access_mode \<Rightarrow> string" where
  "access_mode_text ReadOnly = ''ro''"
| "access_mode_text ReadWrite = ''rw''"

definition tmpfs_default :: mount_tmpfs_options where
  "tmpfs_default = \<lparr>size_bytes = None, tmpfs_mode = None\<rparr>"

definition bind_mount :: "string \<Rightarrow> string \<Rightarrow> mount" where
  "bind_mount host_path container_path =
     \<lparr>mnt_access_mode = ReadWrite, mnt_type = Bind, mnt_source = Some host_path,
      mnt_target = Some container_path, mnt_tmpfs_options = None\<rparr>"

definition volume_mount :: "string \<Rightarrow> string \<Rightarrow> mount" where
  "volume_mount name container_path =
     \<lparr>mnt_access_mode = ReadWrite, mnt_type = Volume, mnt_source = Some name,
      mnt_target = Some container_path, mnt_tmpfs_options = None\<rparr>"

definition tmpfs_mount :: "string \<Rightarrow> mount" where
  "tmpfs_mount container_path =
     \<lparr>mnt_access_mode = ReadWrite, mnt_type = Tmpfs, mnt_source = None,
      mnt_target = Some container_path, mnt_tmpfs_options = None\<rparr>"

definition with_access_mode :: "access_mode \<Rightarrow> mount \<Rightarrow> mount" where
  "with_access_mode a m = m\<lparr>mnt_access_mode := a\<rparr>"

definition tmpfs_or_default :: "mount \<Rightarrow> mount_tmpfs_options" where
  "tmpfs_or_default m = (case mnt_tmpfs_options m of Some opts \<Rightarrow> opts | None \<Rightarrow> tmpfs_default)"

definition with_size_bytes :: "int \<Rightarrow> mount \<Rightarrow> mount option" where
  "with_size_bytes n m =
     (if n < 0 then None
      else Some (m\<lparr>mnt_tmpfs_options := Some ((tmpfs_or_default m)\<lparr>size_bytes := Some n\<rparr>)\<rparr>))"

definition with_mode :: "int \<Rightarrow> mount \<Rightarrow> mount option" where
  "with_mode n m =
     (if n < 0 then None
      else Some (m\<lparr>mnt_tmpfs_options := Some ((tmpfs_or_default m)\<lparr>tmpfs_mode := Some n\<rparr>)\<rparr>))"

text \<open>\<open>str::strip_suffix([a, b])\<close>.\<close>

definition strip_suffix_any :: "char list \<Rightarrow> string \<Rightarrow> string option" where
  "strip_suffix_any cs s = (if s \<noteq> [] \<and> last s \<in> set cs then Some (butlast s) else None)"

definition size_unit :: "string \<Rightarrow> string \<times> int" where
  "size_unit s =
     (case strip_suffix_any ''kK'' s of
        Some stripped \<Rightarrow> (stripped, 1000)
      | None \<Rightarrow>
          (case strip_suffix_any ''mM'' s of
             Some stripped \<Rightarrow> (stripped, 1000000)
           | None \<Rightarrow>
               (case strip_suffix_any ''gG'' s of
                  Some stripped \<Rightarrow> (stripped, 1000000000)
                | None \<Rightarrow> (s, 1))))"

definition parse_size :: "string \<Rightarrow> string + int" where
  "parse_size text =
     (let s = trim text
      in if s = [] then Inl ''Size string is empty''
         else
           let (number_part, unit) = size_unit s
           in rbind (map_err (\<lambda>e. ''Failed to parse number '' @ [CHR 0x27] @ number_part @ [CHR 0x27] @ '': '' @ int_error_text e)
                 (parse_i64 (trim number_part)))
                (\<lambda>number.
                   if number < 0 then Inl ''Size cannot be negative''
                   else if i64_max < number * unit then Inl ''Size value overflows i64''
                   else Inr (number * unit)))"

definition with_size :: "string \<Rightarrow> mount \<Rightarrow> mount option" where
  "with_size s m = (case parse_size s of Inl _ \<Rightarrow> None | Inr bytes \<Rightarrow> with_size_bytes bytes m)"

section \<open>Health checks\<close>

record healthcheck =
  hc_test :: "string list"
  hc_interval :: "duration option"
  hc_timeout :: "duration option"
  hc_retries :: "u64 option"
  hc_start_period :: "duration option"
  hc_start_interval :: "duration option"

definition hc_of_test :: "string list \<Rightarrow> healthcheck" where
  "hc_of_test test =
     \<lparr>hc_test = test, hc_interval = None, hc_timeout = None, hc_retries = None,
      hc_start_period = None, hc_start_interval = None\<rparr>"

definition hc_none :: healthcheck where
  "hc_none = hc_of_test [''NONE'']"

definition hc_empty :: healthcheck where
  "hc_empty = hc_of_test []"

definition hc_cmd_shell :: "string \<Rightarrow> healthcheck" where
  "hc_cmd_shell cmd = hc_of_test [''CMD-SHELL'', cmd]"

definition hc_cmd :: "string list \<Rightarrow> healthcheck" where
  "hc_cmd cmd = hc_of_test (''CMD'' # cmd)"

definition with_interval :: "duration \<Rightarrow> healthcheck \<Rightarrow> healthcheck" where
  "with_interval d hc = hc\<lparr>hc_interval := Some d\<rparr>"

definition with_timeout :: "duration \<Rightarrow> healthcheck \<Rightarrow> healthcheck" where
  "with_timeout d hc = hc\<lparr>hc_timeout := Some d\<rparr>"

definition with_retries :: "u64 \<Rightarrow> healthcheck \<Rightarrow> healthcheck" where
  "with_retries n hc = hc\<lparr>hc_retries := Some n\<rparr>"

definition with_start_period :: "duration \<Rightarrow> healthcheck \<Rightarrow> healthcheck" where
  "with_start_period d hc = hc\<lparr>hc_start_period := Some d\<rparr>"

definition with_start_interval :: "duration \<Rightarrow> healthcheck \<Rightarrow> healthcheck" where
  "with_start_interval d hc = hc\<lparr>hc_start_interval := Some d\<rparr>"

text \<open>Durations are nanosecond counts; the conversion to a signed 64-bit number saturates.\<close>

definition duration_to_nanos_i64 :: "duration \<Rightarrow> nat" where
  "duration_to_nanos_i64 d = min d (nat i64_max)"

definition push_opt :: "('a \<Rightarrow> string) \<Rightarrow> string \<Rightarrow> 'a option \<Rightarrow> string" where
  "push_opt f key v = (case v of None \<Rightarrow> [] | Some x \<Rightarrow> '','' @ escape_json key @ '':'' @ f x)"

definition hc_to_docker_json :: "healthcheck \<Rightarrow> string option" where
  "hc_to_docker_json hc =
     (let all_none = hc_interval hc = None \<and> hc_timeout hc = None \<and> hc_retries hc = None \<and>
            hc_start_period hc = None \<and> hc_start_interval hc = None;
          nanos = show_nat \<circ> duration_to_nanos_i64
      in if hc_test hc = [] \<and> all_none then None
         else Some (''{'' @ escape_json ''Test'' @ '':'' @ json_array (hc_test hc)
           @ push_opt nanos ''Interval'' (hc_interval hc)
           @ push_opt nanos ''Timeout'' (hc_timeout hc)
           @ push_opt (show_nat \<circ> unat) ''Retries'' (hc_retries hc)
           @ push_opt nanos ''StartPeriod'' (hc_start_period hc)
           @ push_opt nanos ''StartInterval'' (hc_start_interval hc)
           @ ''}''))"

section \<open>Facts\<close>

lemma white_space_ends:
  "w \<in> set white_space \<Longrightarrow> w \<noteq> [] \<and> \<not> is_ascii_alphanumeric (hd w) \<and> \<not> is_ascii_alphanumeric (last w)"
  by (auto simp: white_space_def is_ascii_alphanumeric_def is_ascii_digit_def less_eq_char_def)

lemma strip_any_id: "(\<And>w. w \<in> set ws \<Longrightarrow> \<not> prefix w s) \<Longrightarrow> strip_any n ws s = s"
proof -
  assume "\<And>w. w \<in> set ws \<Longrightarrow> \<not> prefix w s"
  then have "find (\<lambda>w. prefix w s) ws = None" by (simp add: find_None_iff)
  then show ?thesis by (cases n) simp_all
qed

lemma trim_id:
  assumes "s \<noteq> []" and "is_ascii_alphanumeric (hd s)" and "is_ascii_alphanumeric (last s)"
  shows "trim s = s"
proof -
  have "\<not> prefix w s" if "w \<in> set white_space" for w
    using white_space_ends [OF that] assms by (cases w) (auto simp: prefix_def)
  then have start: "trim_start s = s" by (simp add: trim_start_def strip_any_id)
  have "\<not> prefix w (rev s)" if "w \<in> set (map rev white_space)" for w
  proof -
    from that obtain v where v: "w = rev v" "v \<in> set white_space" by auto
    then have "last v \<noteq> last s" using white_space_ends assms(3) by metis
    with v white_space_ends [OF v(2)] assms(1) show ?thesis by (auto simp: suffix_to_prefix [symmetric] suffix_def)
  qed
  then have "trim_end s = s" unfolding trim_end_def by (subst strip_any_id) simp_all
  with start show ?thesis by (simp add: trim_def)
qed

lemma alphanumeric_digit [simp]: "is_ascii_digit c \<Longrightarrow> is_ascii_alphanumeric c"
  by (simp add: is_ascii_alphanumeric_def)

lemma show_nat_ends [simp]: "is_ascii_digit (hd (show_nat n))" "is_ascii_digit (last (show_nat n))"
  using show_nat_digits [OF hd_in_set] show_nat_digits [OF last_in_set] by auto

lemma trim_show_nat [simp]: "trim (show_nat n) = show_nat n"
  by (simp add: trim_id)

lemma parse_i64_show_nat [str_simps]: "int n \<le> i64_max \<Longrightarrow> parse_i64 (show_nat n) = Inr (int n)"
proof (cases "show_nat n")
  case (Cons c cs)
  then have "is_ascii_digit c" by (rule hd_show_nat)
  moreover assume "int n \<le> i64_max"
  ultimately show ?thesis using Cons parse_digits_show_nat [of n 9223372036854775807 PosOverflow]
    by (auto simp: parse_i64_def)
qed simp

lemma parse_size_bounds: "parse_size s = Inr n \<Longrightarrow> 0 \<le> n \<and> n \<le> i64_max"
proof -
  have "0 \<le> snd (size_unit t)" for t by (auto simp: size_unit_def split: option.splits)
  then show "parse_size s = Inr n \<Longrightarrow> 0 \<le> n \<and> n \<le> i64_max"
    by (auto simp: parse_size_def Let_def rbind_eq_Inr_iff case_prod_beta split: if_splits)
qed

lemma size_unit_snoc:
  "size_unit (s @ [c]) =
     (if c \<in> {CHR ''k'', CHR ''K''} then (s, 1000) else if c \<in> {CHR ''m'', CHR ''M''} then (s, 1000000)
      else if c \<in> {CHR ''g'', CHR ''G''} then (s, 1000000000) else (s @ [c], 1))"
  by (simp add: size_unit_def strip_suffix_any_def)

lemma parse_size_unit:
  assumes "is_ascii_alphanumeric u" and "size_unit (show_nat n @ [u]) = (show_nat n, unit)" and "int n \<le> i64_max"
  shows "parse_size (show_nat n @ [u]) =
     (if i64_max < int n * unit then Inl ''Size value overflows i64'' else Inr (int n * unit))"
proof -
  have "trim (show_nat n @ [u]) = show_nat n @ [u]" using assms(1) by (simp add: trim_id)
  then show ?thesis using assms(2,3) by (simp add: parse_size_def str_simps)
qed

text \<open>The invariant of mounts: a target, a source where one is needed, no negative tmpfs option.\<close>

definition mount_wf :: "mount \<Rightarrow> bool" where
  "mount_wf m \<longleftrightarrow> mnt_target m \<noteq> None \<and> (mnt_type m \<noteq> Tmpfs \<longrightarrow> mnt_source m \<noteq> None) \<and>
     (\<forall>opts. mnt_tmpfs_options m = Some opts \<longrightarrow> pred_option ((\<le>) 0) (size_bytes opts) \<and> pred_option ((\<le>) 0) (tmpfs_mode opts))"

lemma mount_wf_new [wf_intros]:
  "mount_wf (bind_mount h c)" "mount_wf (volume_mount v c)" "mount_wf (tmpfs_mount c)"
  by (simp_all add: mount_wf_def bind_mount_def volume_mount_def tmpfs_mount_def)

lemma mount_wf_with [wf_intros]:
  "mount_wf m \<Longrightarrow> mount_wf (with_access_mode a m)"
  "mount_wf m \<Longrightarrow> with_size_bytes n m = Some m' \<Longrightarrow> mount_wf m'"
  "mount_wf m \<Longrightarrow> with_mode n m = Some m' \<Longrightarrow> mount_wf m'"
  "mount_wf m \<Longrightarrow> with_size t m = Some m' \<Longrightarrow> mount_wf m'"
  by (auto simp: mount_wf_def with_access_mode_def with_size_bytes_def with_mode_def with_size_def
      tmpfs_or_default_def tmpfs_default_def split: if_splits option.splits sum.splits)

text \<open>The mounts the public interface can make: a constructor followed by any builder calls that do not panic.\<close>

inductive built_mount :: "mount \<Rightarrow> bool" where
  built_bind: "built_mount (bind_mount h c)"
| built_volume: "built_mount (volume_mount v c)"
| built_tmpfs: "built_mount (tmpfs_mount c)"
| built_access: "built_mount m \<Longrightarrow> built_mount (with_access_mode a m)"
| built_size_bytes: "built_mount m \<Longrightarrow> with_size_bytes n m = Some m' \<Longrightarrow> built_mount m'"
| built_mode: "built_mount m \<Longrightarrow> with_mode n m = Some m' \<Longrightarrow> built_mount m'"
| built_size: "built_mount m \<Longrightarrow> with_size t m = Some m' \<Longrightarrow> built_mount m'"

section \<open>Properties\<close>

text \<open>
  A size is the number times its decimal unit, exactly, as long as it fits a signed 64-bit
  number, and otherwise an error instead of a wrapped value; a size that parses never makes
  \<open>with_size\<close> panic.
\<close>

lemma parse_size_exact:
  assumes "(u, unit) \<in> {(''k'', 1000), (''K'', 1000), (''m'', 1000000), (''M'', 1000000), (''g'', 1000000000),
      (''G'', 1000000000), ([], 1)}" and "int n \<le> i64_max"
  shows "parse_size (show_nat n @ u) =
      (if i64_max < int n * unit then Inl ''Size value overflows i64'' else Inr (int n * unit)) \<and>
     (\<forall>m. parse_size (show_nat n @ u) = Inr (int n * unit) \<longrightarrow> with_size (show_nat n @ u) m \<noteq> None)"
proof
  have plain: "size_unit (show_nat n) = (show_nat n, 1)"
    using show_nat_ends(2) [of n]
    by (auto simp: size_unit_def strip_suffix_any_def is_ascii_digit_iff)
  show "parse_size (show_nat n @ u) = (if i64_max < int n * unit then Inl ''Size value overflows i64'' else Inr (int n * unit))"
  proof (cases "u = []")
    case True
    with assms plain show ?thesis by (simp add: parse_size_def str_simps)
  next
    case False
    with assms(1) have "\<exists>c. u = [c] \<and> is_ascii_alphanumeric c \<and> size_unit (show_nat n @ [c]) = (show_nat n, unit)"
      by (elim insertE emptyE) (simp_all add: size_unit_snoc is_ascii_alphanumeric_def less_eq_char_def)
    then show ?thesis using parse_size_unit assms(2) by metis
  qed
  show "\<forall>m. parse_size (show_nat n @ u) = Inr (int n * unit) \<longrightarrow> with_size (show_nat n @ u) m \<noteq> None"
    using parse_size_bounds [of "show_nat n @ u"] by (auto simp: with_size_def with_size_bytes_def)
qed

text \<open>
  C40. Every mount that constructors and builders can make is well formed: it has a target, a bind or
  volume mount has a source, and no tmpfs size or mode is negative.
\<close>

theorem built_mount_wf:
  assumes "built_mount m"
  shows "mount_wf m"
  using assms by (induction rule: built_mount.induct) (blast intro: wf_intros)+

theorem built_mount_wf_witness:
  "\<exists>m. with_size_bytes 4096 (with_access_mode ReadOnly (tmpfs_mount ''/t'')) = Some m \<and> mount_wf m"
proof -
  have "\<exists>m. with_size_bytes 4096 (with_access_mode ReadOnly (tmpfs_mount ''/t'')) = Some m"
    by (simp add: with_size_bytes_def with_access_mode_def tmpfs_mount_def)
  then show ?thesis using built_mount_wf [OF built_size_bytes [OF built_access [OF built_tmpfs]]] by blast
qed

end
