(* ===== verification/Docker_Create.thy ===== *)
theory Docker_Create
  imports Mounts
begin

text \<open>
  The request bodies of \<open>src/core/client/docker_client.rs\<close>: \<open>ContainerConfig\<close> of
  \<open>src/core/client.rs\<close>, \<open>CreateContainerBody\<close>, \<open>HostConfig\<close>, \<open>ExecConfig\<close> and
  \<open>ExecStartConfig\<close> with their JSON texts. Keys that the source writes as quoted literals
  contain nothing to escape, so they are written here as \<open>escape_json\<close> of the key.
\<close>

section \<open>Configuration\<close>

record port_mapping =
  pm_host_port :: u16
  pm_container_port :: container_port

record container_config =
  cc_image :: string
  cc_entrypoint :: "string list option"
  cc_cmd :: "string list"
  cc_env :: "string list"
  cc_ports :: "port_mapping list"
  cc_mounts :: "mount list"
  cc_name :: "string option"
  cc_labels :: "(string, string) btree_map"
  cc_privileged :: bool
  cc_working_dir :: "string option"
  cc_user :: "string option"
  cc_init :: bool
  cc_health_check :: "healthcheck option"
  cc_cap_add :: "string list"
  cc_cap_drop :: "string list"
  cc_shm_size :: "u64 option"
  cc_readonly_rootfs :: bool
  cc_hostname :: "string option"
  cc_open_stdin :: "bool option"
  cc_network :: "string option"
  cc_platform :: "string option"
  cc_extra_hosts :: "string list"

record port_binding =
  host_ip :: string
  binding_host_port :: string

record host_config =
  hcf_port_bindings :: "(string, port_binding list) btree_map"
  hcf_binds :: "string list"
  hcf_privileged :: bool
  hcf_init :: bool
  hcf_cap_add :: "string list"
  hcf_cap_drop :: "string list"
  hcf_shm_size :: "u64 option"
  hcf_readonly_rootfs :: bool
  hcf_extra_hosts :: "string list"
  hcf_mounts :: "string list"

record create_container_body =
  cb_image :: string
  cb_entrypoint :: "string list option"
  cb_cmd :: "string list"
  cb_env :: "string list"
  cb_labels :: "(string, string) btree_map"
  cb_working_dir :: "string option"
  cb_user :: "string option"
  cb_host_config :: host_config
  cb_exposed_ports :: "string list"
  cb_healthcheck :: "healthcheck option"
  cb_hostname :: "string option"
  cb_open_stdin :: "bool option"
  cb_network :: "string option"

section \<open>From a configuration to a body\<close>

definition port_key :: "container_port \<Rightarrow> string" where
  "port_key p = show_nat (unat (as_u16 p)) @ ''/'' @ port_as_str p"

definition build_port_bindings :: "port_mapping list \<Rightarrow> (string, port_binding list) btree_map" where
  "build_port_bindings ports =
     fold (\<lambda>p. bt_insert (port_key (pm_container_port p))
       [\<lparr>host_ip = ''0.0.0.0'', binding_host_port = show_nat (unat (pm_host_port p))\<rparr>]) ports []"

definition build_exposed_ports :: "port_mapping list \<Rightarrow> string list" where
  "build_exposed_ports ports = map (\<lambda>p. port_key (pm_container_port p)) ports"

definition json_bool :: "bool \<Rightarrow> string" where
  "json_bool b = (if b then ''true'' else ''false'')"

definition tmpfs_options_json :: "mount_tmpfs_options \<Rightarrow> string" where
  "tmpfs_options_json opts =
     (let t1 = (case size_bytes opts of None \<Rightarrow> [] | Some n \<Rightarrow> escape_json ''SizeBytes'' @ '':'' @ show_int n);
          t2 = (case tmpfs_mode opts of
                  None \<Rightarrow> t1
                | Some n \<Rightarrow> t1 @ (if t1 \<noteq> [] then '','' else []) @ escape_json ''Mode'' @ '':'' @ show_int n)
      in if t2 \<noteq> [] then '','' @ escape_json ''TmpfsOptions'' @ '':{'' @ t2 @ ''}'' else [])"

definition volume_json :: "string \<Rightarrow> string \<Rightarrow> bool \<Rightarrow> string" where
  "volume_json src tgt read_only =
     ''{'' @ escape_json ''Type'' @ '':'' @ escape_json ''volume''
     @ '','' @ escape_json ''Source'' @ '':'' @ escape_json src
     @ '','' @ escape_json ''Target'' @ '':'' @ escape_json tgt
     @ '','' @ escape_json ''ReadOnly'' @ '':'' @ json_bool read_only @ ''}''"

definition tmpfs_json :: "string \<Rightarrow> bool \<Rightarrow> mount_tmpfs_options option \<Rightarrow> string" where
  "tmpfs_json tgt read_only opts =
     ''{'' @ escape_json ''Type'' @ '':'' @ escape_json ''tmpfs''
     @ '','' @ escape_json ''Target'' @ '':'' @ escape_json tgt
     @ '','' @ escape_json ''ReadOnly'' @ '':'' @ json_bool read_only
     @ (case opts of None \<Rightarrow> [] | Some os \<Rightarrow> tmpfs_options_json os) @ ''}''"

definition required :: "string \<Rightarrow> 'a option \<Rightarrow> 'a result" where
  "required msg v = ok_or (Client (Configuration msg)) v"

definition add_mount :: "string list \<times> string list \<Rightarrow> mount \<Rightarrow> (string list \<times> string list) result" where
  "add_mount acc m =
     (case mnt_type m of
        Bind \<Rightarrow>
          rbind (required ''bind mount source is required'' (mnt_source m)) (\<lambda>src.
          rbind (required ''bind mount target is required'' (mnt_target m)) (\<lambda>tgt.
          Inr (fst acc @ [src @ '':'' @ tgt @ '':'' @ access_mode_text (mnt_access_mode m)], snd acc)))
      | Volume \<Rightarrow>
          rbind (required ''volume mount source is required'' (mnt_source m)) (\<lambda>src.
          rbind (required ''volume mount target is required'' (mnt_target m)) (\<lambda>tgt.
          Inr (fst acc, snd acc @ [volume_json src tgt (mnt_access_mode m = ReadOnly)])))
      | Tmpfs \<Rightarrow>
          rbind (required ''tmpfs mount target is required'' (mnt_target m)) (\<lambda>tgt.
          Inr (fst acc, snd acc @ [tmpfs_json tgt (mnt_access_mode m = ReadOnly) (mnt_tmpfs_options m)])))"

definition body_from_config :: "container_config \<Rightarrow> create_container_body result" where
  "body_from_config c =
     rbind (foldr_res add_mount ([], []) (cc_mounts c)) (\<lambda>(binds, mounts).
     Inr \<lparr>cb_image = cc_image c, cb_entrypoint = cc_entrypoint c, cb_cmd = cc_cmd c, cb_env = cc_env c,
       cb_labels = cc_labels c, cb_working_dir = cc_working_dir c, cb_user = cc_user c,
       cb_host_config =
         \<lparr>hcf_port_bindings = build_port_bindings (cc_ports c), hcf_binds = binds,
          hcf_privileged = cc_privileged c, hcf_init = cc_init c, hcf_cap_add = cc_cap_add c,
          hcf_cap_drop = cc_cap_drop c, hcf_shm_size = cc_shm_size c,
          hcf_readonly_rootfs = cc_readonly_rootfs c, hcf_extra_hosts = cc_extra_hosts c,
          hcf_mounts = mounts\<rparr>,
       cb_exposed_ports = build_exposed_ports (cc_ports c), cb_healthcheck = cc_health_check c,
       cb_hostname = cc_hostname c, cb_open_stdin = cc_open_stdin c, cb_network = cc_network c\<rparr>)"

section \<open>Texts\<close>

definition json_port_bindings :: "(string, port_binding list) btree_map \<Rightarrow> string" where
  "json_port_bindings m =
     ''{'' @ join_with '','' (map (\<lambda>(k, bs). escape_json k @ '':['' @
       join_with '','' (map (\<lambda>b. ''{'' @ escape_json ''HostIp'' @ '':'' @ escape_json (host_ip b)
         @ '','' @ escape_json ''HostPort'' @ '':'' @ escape_json (binding_host_port b) @ ''}'') bs) @ '']'') m) @ ''}''"

text \<open>A member that is written only when its list is not empty.\<close>

definition push_list :: "('a list \<Rightarrow> string) \<Rightarrow> string \<Rightarrow> 'a list \<Rightarrow> string" where
  "push_list f key xs = (if xs = [] then [] else '','' @ escape_json key @ '':'' @ f xs)"

definition host_config_json :: "host_config \<Rightarrow> string" where
  "host_config_json h =
     ''{'' @ escape_json ''Privileged'' @ '':'' @ json_bool (hcf_privileged h)
     @ '','' @ escape_json ''Init'' @ '':'' @ json_bool (hcf_init h)
     @ '','' @ escape_json ''ReadonlyRootfs'' @ '':'' @ json_bool (hcf_readonly_rootfs h)
     @ push_list json_array ''Binds'' (hcf_binds h)
     @ push_list json_port_bindings ''PortBindings'' (hcf_port_bindings h)
     @ push_list json_array ''CapAdd'' (hcf_cap_add h)
     @ push_list json_array ''CapDrop'' (hcf_cap_drop h)
     @ push_opt (show_nat \<circ> unat) ''ShmSize'' (hcf_shm_size h)
     @ push_list json_array ''ExtraHosts'' (hcf_extra_hosts h)
     @ push_list (\<lambda>ms. ''['' @ join_with '','' ms @ '']'') ''Mounts'' (hcf_mounts h)
     @ ''}''"

definition exposed_ports_json :: "string list \<Rightarrow> string" where
  "exposed_ports_json ks = ''{'' @ join_with '','' (map (\<lambda>k. escape_json k @ '':{}'') ks) @ ''}''"

definition network_json :: "string \<Rightarrow> string" where
  "network_json n = ''{'' @ escape_json ''EndpointsConfig'' @ '':{'' @ escape_json n @ '':{}'' @ ''}}''"

definition body_to_json :: "create_container_body \<Rightarrow> string" where
  "body_to_json b =
     ''{'' @ escape_json ''Image'' @ '':'' @ escape_json (cb_image b)
     @ (case cb_entrypoint b of None \<Rightarrow> [] | Some e \<Rightarrow> push_list json_array ''Entrypoint'' e)
     @ push_list json_array ''Cmd'' (cb_cmd b)
     @ push_list json_array ''Env'' (cb_env b)
     @ push_list json_object ''Labels'' (cb_labels b)
     @ push_opt escape_json ''WorkingDir'' (cb_working_dir b)
     @ push_opt escape_json ''User'' (cb_user b)
     @ push_list exposed_ports_json ''ExposedPorts'' (cb_exposed_ports b)
     @ push_opt id ''Healthcheck'' (Option.bind (cb_healthcheck b) hc_to_docker_json)
     @ push_opt escape_json ''Hostname'' (cb_hostname b)
     @ (if cb_open_stdin b = Some True then '','' @ escape_json ''OpenStdin'' @ '':true'' else [])
     @ push_opt network_json ''NetworkingConfig'' (cb_network b)
     @ '','' @ escape_json ''HostConfig'' @ '':'' @ host_config_json (cb_host_config b)
     @ ''}''"

definition exec_config_json :: "string list \<Rightarrow> bool \<Rightarrow> bool \<Rightarrow> string list \<Rightarrow> string" where
  "exec_config_json cmd attach_stdout attach_stderr env =
     ''{'' @ escape_json ''AttachStdout'' @ '':'' @ json_bool attach_stdout
     @ '','' @ escape_json ''AttachStderr'' @ '':'' @ json_bool attach_stderr
     @ push_list json_array ''Cmd'' cmd
     @ push_list json_array ''Env'' env
     @ ''}''"

definition exec_start_json :: "bool \<Rightarrow> bool \<Rightarrow> string" where
  "exec_start_json detach tty =
     ''{'' @ escape_json ''Detach'' @ '':'' @ json_bool detach @ '','' @ escape_json ''Tty'' @ '':'' @ json_bool tty @ ''}''"

section \<open>The values the texts stand for\<close>

definition jstrs :: "string list \<Rightarrow> json" where
  "jstrs xs = JArr (map JStr xs)"

definition opt_member :: "string \<Rightarrow> ('a \<Rightarrow> json) \<Rightarrow> 'a option \<Rightarrow> (string \<times> json) list" where
  "opt_member key f v = (case v of None \<Rightarrow> [] | Some x \<Rightarrow> [(key, f x)])"

definition list_member :: "string \<Rightarrow> ('a list \<Rightarrow> json) \<Rightarrow> 'a list \<Rightarrow> (string \<times> json) list" where
  "list_member key f xs = (if xs = [] then [] else [(key, f xs)])"

definition hc_value :: "healthcheck \<Rightarrow> json option" where
  "hc_value hc =
     (let nanos = JNum \<circ> duration_to_nanos_i64;
          rest = opt_member ''Interval'' nanos (hc_interval hc) @ opt_member ''Timeout'' nanos (hc_timeout hc)
            @ opt_member ''Retries'' (JNum \<circ> unat) (hc_retries hc) @ opt_member ''StartPeriod'' nanos (hc_start_period hc)
            @ opt_member ''StartInterval'' nanos (hc_start_interval hc)
      in if hc_test hc = [] \<and> rest = [] then None else Some (JObj ((''Test'', jstrs (hc_test hc)) # rest)))"

definition tmpfs_value :: "mount_tmpfs_options \<Rightarrow> (string \<times> json) list" where
  "tmpfs_value opts =
     opt_member ''SizeBytes'' (JNum \<circ> nat) (size_bytes opts) @ opt_member ''Mode'' (JNum \<circ> nat) (tmpfs_mode opts)"

definition mount_value :: "mount \<Rightarrow> json" where
  "mount_value m =
     (let ro = JBool (mnt_access_mode m = ReadOnly)
      in if mnt_type m = Volume then
           JObj [(''Type'', JStr ''volume''), (''Source'', JStr (the (mnt_source m))), (''Target'', JStr (the (mnt_target m))), (''ReadOnly'', ro)]
         else
           JObj ([(''Type'', JStr ''tmpfs''), (''Target'', JStr (the (mnt_target m))), (''ReadOnly'', ro)]
             @ list_member ''TmpfsOptions'' JObj (case mnt_tmpfs_options m of None \<Rightarrow> [] | Some os \<Rightarrow> tmpfs_value os)))"

definition bind_text :: "mount \<Rightarrow> string" where
  "bind_text m = the (mnt_source m) @ '':'' @ the (mnt_target m) @ '':'' @ access_mode_text (mnt_access_mode m)"

definition bind_mounts :: "mount list \<Rightarrow> mount list" where
  "bind_mounts ms = filter (\<lambda>m. mnt_type m = Bind) ms"

definition other_mounts :: "mount list \<Rightarrow> mount list" where
  "other_mounts ms = filter (\<lambda>m. mnt_type m \<noteq> Bind) ms"

definition binding_value :: "port_binding \<Rightarrow> json" where
  "binding_value b = JObj [(''HostIp'', JStr (host_ip b)), (''HostPort'', JStr (binding_host_port b))]"

definition host_value :: "container_config \<Rightarrow> json" where
  "host_value c = JObj
     ([(''Privileged'', JBool (cc_privileged c)), (''Init'', JBool (cc_init c)), (''ReadonlyRootfs'', JBool (cc_readonly_rootfs c))]
      @ list_member ''Binds'' jstrs (map bind_text (bind_mounts (cc_mounts c)))
      @ list_member ''PortBindings'' (\<lambda>m. JObj (map (\<lambda>(k, bs). (k, JArr (map binding_value bs))) m)) (build_port_bindings (cc_ports c))
      @ list_member ''CapAdd'' jstrs (cc_cap_add c) @ list_member ''CapDrop'' jstrs (cc_cap_drop c)
      @ opt_member ''ShmSize'' (JNum \<circ> unat) (cc_shm_size c) @ list_member ''ExtraHosts'' jstrs (cc_extra_hosts c)
      @ list_member ''Mounts'' JArr (map mount_value (other_mounts (cc_mounts c))))"

definition config_value :: "container_config \<Rightarrow> json" where
  "config_value c = JObj
     ((''Image'', JStr (cc_image c))
      # (case cc_entrypoint c of None \<Rightarrow> [] | Some e \<Rightarrow> list_member ''Entrypoint'' jstrs e)
      @ list_member ''Cmd'' jstrs (cc_cmd c) @ list_member ''Env'' jstrs (cc_env c)
      @ list_member ''Labels'' (\<lambda>m. JObj (map (\<lambda>(k, v). (k, JStr v)) m)) (cc_labels c)
      @ opt_member ''WorkingDir'' JStr (cc_working_dir c) @ opt_member ''User'' JStr (cc_user c)
      @ list_member ''ExposedPorts'' (\<lambda>ks. JObj (map (\<lambda>k. (k, JObj [])) ks)) (map (port_key \<circ> pm_container_port) (cc_ports c))
      @ opt_member ''Healthcheck'' id (Option.bind (cc_health_check c) hc_value)
      @ opt_member ''Hostname'' JStr (cc_hostname c)
      @ (if cc_open_stdin c = Some True then [(''OpenStdin'', JBool True)] else [])
      @ opt_member ''NetworkingConfig'' (\<lambda>n. JObj [(''EndpointsConfig'', JObj [(n, JObj [])])]) (cc_network c)
      @ [(''HostConfig'', host_value c)])"

section \<open>The texts are renderings of the values\<close>

definition member_text :: "string \<times> json \<Rightarrow> string" where
  "member_text kv = escape_json (fst kv) @ '':'' @ render (snd kv)"

definition more_members :: "(string \<times> json) list \<Rightarrow> string" where
  "more_members kvs = concat (map (\<lambda>kv. '','' @ member_text kv) kvs)"

lemma more_members_simps [simp]:
  "more_members [] = []"
  "more_members (kv # kvs) = '','' @ escape_json (fst kv) @ '':'' @ render (snd kv) @ more_members kvs"
  "more_members (xs @ ys) = more_members xs @ more_members ys"
  by (simp_all add: more_members_def member_text_def)

lemma render_obj: "render (JObj (kv # kvs)) = ''{'' @ escape_json (fst kv) @ '':'' @ render (snd kv) @ more_members kvs @ ''}''"
  by (simp add: join_with_def more_members_def member_text_def comp_def)

lemma render_jstrs [simp]: "json_array xs = render (jstrs xs)"
  by (simp add: json_array_def jstrs_def comp_def)

lemma render_bool [simp]: "json_bool b = render (JBool b)"
  by (simp add: json_bool_def)

lemma render_labels [simp]: "json_object m = render (JObj (map (\<lambda>(k, v). (k, JStr v)) m))"
  by (simp add: json_object_def comp_def split_def)

lemma push_opt_text: "(\<And>x. f x = render (g x)) \<Longrightarrow> push_opt f key v = more_members (opt_member key g v)"
  by (simp add: push_opt_def opt_member_def split: option.splits)

lemma push_list_text: "(\<And>xs. f xs = render (g xs)) \<Longrightarrow> push_list f key xs = more_members (list_member key g xs)"
  by (simp add: push_list_def list_member_def)

lemma show_int_nonneg: "0 \<le> n \<Longrightarrow> show_int n = render (JNum (nat n))"
  by (simp add: show_int_def)

lemma hc_json_text: "hc_to_docker_json hc = map_option render (hc_value hc)"
proof -
  have n: "show_nat \<circ> f = render \<circ> (JNum \<circ> f)" for f :: "'x \<Rightarrow> nat" by (simp add: fun_eq_iff)
  show ?thesis unfolding hc_to_docker_json_def hc_value_def Let_def n
    by (auto simp: push_opt_text [where g = "JNum \<circ> duration_to_nanos_i64"] push_opt_text [where g = "JNum \<circ> unat"]
        render_obj opt_member_def split: option.splits)
qed

lemma tmpfs_options_text:
  assumes "pred_option ((\<le>) 0) (size_bytes opts)" and "pred_option ((\<le>) 0) (tmpfs_mode opts)"
  shows "tmpfs_options_json opts = more_members (list_member ''TmpfsOptions'' JObj (tmpfs_value opts))"
  using assms
  by (cases "size_bytes opts"; cases "tmpfs_mode opts")
    (simp_all add: tmpfs_options_json_def tmpfs_value_def list_member_def opt_member_def show_int_nonneg escape_json_def)

lemma mount_text:
  assumes "mount_wf m" and "mnt_type m \<noteq> Bind"
  shows "add_mount acc m = Inr (fst acc, snd acc @ [render (mount_value m)])"
proof (cases "mnt_type m")
  case Volume
  with assms show ?thesis
    by (auto simp: mount_wf_def add_mount_def required_def ok_or_def volume_json_def mount_value_def render_obj simp del: render.simps(5))
next
  case Tmpfs
  then show ?thesis
  proof (cases "mnt_tmpfs_options m")
    case None
    with Tmpfs assms show ?thesis
      by (auto simp: mount_wf_def add_mount_def required_def ok_or_def tmpfs_json_def mount_value_def list_member_def
          render_obj simp del: render.simps(5))
  next
    case (Some opts)
    with assms have "tmpfs_options_json opts = more_members (list_member ''TmpfsOptions'' JObj (tmpfs_value opts))"
      by (simp add: mount_wf_def tmpfs_options_text)
    with Some Tmpfs assms show ?thesis
      by (auto simp: mount_wf_def add_mount_def required_def ok_or_def tmpfs_json_def mount_value_def
          render_obj simp del: render.simps(5))
  qed
qed (use assms in simp)

lemma bind_mount_text:
  "mount_wf m \<Longrightarrow> mnt_type m = Bind \<Longrightarrow> add_mount acc m = Inr (fst acc @ [bind_text m], snd acc)"
  by (auto simp: mount_wf_def add_mount_def required_def ok_or_def bind_text_def)

lemma add_mounts:
  "\<forall>m \<in> set ms. mount_wf m \<Longrightarrow>
   foldr_res add_mount (a, b) ms = Inr (a @ map bind_text (bind_mounts ms), b @ map (render \<circ> mount_value) (other_mounts ms))"
proof (induction ms arbitrary: a b)
  case (Cons m ms)
  then show ?case
    by (cases "mnt_type m = Bind") (simp_all add: bind_mount_text mount_text bind_mounts_def other_mounts_def)
qed (simp add: bind_mounts_def other_mounts_def)

lemma port_bindings_text [simp]:
  "json_port_bindings m = render (JObj (map (\<lambda>(k, bs). (k, JArr (map binding_value bs))) m))"
  by (simp add: json_port_bindings_def binding_value_def comp_def split_def)

lemma exposed_ports_text [simp]: "exposed_ports_json ks = render (JObj (map (\<lambda>k. (k, JObj [])) ks))"
  by (simp add: exposed_ports_json_def comp_def)

lemma network_text [simp]: "network_json n = render (JObj [(''EndpointsConfig'', JObj [(n, JObj [])])])"
  by (simp add: network_json_def)

lemma show_unat_text: "(show_nat \<circ> unat) x = render ((JNum \<circ> unat) x)"
  by simp

lemma mounts_text: "push_list (\<lambda>ms. ''['' @ join_with '','' ms @ '']'') key (map (render \<circ> mount_value) ms)
    = more_members (list_member key JArr (map mount_value ms))"
  by (simp add: push_list_def list_member_def)

lemmas push_texts = push_list_text [OF render_jstrs] push_list_text [OF port_bindings_text]
  push_list_text [OF exposed_ports_text] push_list_text [OF render_labels] push_opt_text [OF show_unat_text]
  push_opt_text [OF network_text] push_opt_text [OF render.simps(3) [symmetric]] mounts_text

lemma healthcheck_text:
  "push_opt id key (Option.bind hc hc_to_docker_json) = more_members (opt_member key id (Option.bind hc hc_value))"
  by (cases hc; cases "hc_value (the hc)") (simp_all add: push_opt_def opt_member_def hc_json_text)

lemma entrypoint_text:
  "(case e of None \<Rightarrow> [] | Some xs \<Rightarrow> push_list json_array key xs)
   = more_members (case e of None \<Rightarrow> [] | Some xs \<Rightarrow> list_member key jstrs xs)"
  by (cases e) (simp_all only: option.case push_texts more_members_simps)

lemma body_text:
  assumes "\<forall>m \<in> set (cc_mounts c). mount_wf m"
  shows "\<exists>body. body_from_config c = Inr body \<and> body_to_json body = render (config_value c)"
proof -
  let ?h = "\<lparr>hcf_port_bindings = build_port_bindings (cc_ports c), hcf_binds = map bind_text (bind_mounts (cc_mounts c)),
          hcf_privileged = cc_privileged c, hcf_init = cc_init c, hcf_cap_add = cc_cap_add c,
          hcf_cap_drop = cc_cap_drop c, hcf_shm_size = cc_shm_size c,
          hcf_readonly_rootfs = cc_readonly_rootfs c, hcf_extra_hosts = cc_extra_hosts c,
          hcf_mounts = map (render \<circ> mount_value) (other_mounts (cc_mounts c))\<rparr>"
  have h: "host_config_json ?h = render (host_value c)"
    unfolding host_config_json_def host_value_def host_config.simps push_texts
    by (simp add: render_obj comp_def del: render.simps(5))
  let ?b = "\<lparr>cb_image = cc_image c, cb_entrypoint = cc_entrypoint c, cb_cmd = cc_cmd c, cb_env = cc_env c,
       cb_labels = cc_labels c, cb_working_dir = cc_working_dir c, cb_user = cc_user c, cb_host_config = ?h,
       cb_exposed_ports = map (port_key \<circ> pm_container_port) (cc_ports c), cb_healthcheck = cc_health_check c,
       cb_hostname = cc_hostname c, cb_open_stdin = cc_open_stdin c, cb_network = cc_network c\<rparr>"
  have b: "body_from_config c = Inr ?b"
    using add_mounts [OF assms, of "[]" "[]"] by (simp add: body_from_config_def build_exposed_ports_def comp_def)
  have "body_to_json ?b = render (config_value c)"
    unfolding body_to_json_def config_value_def create_container_body.simps h push_texts healthcheck_text entrypoint_text
    by (simp add: render_obj comp_def del: render.simps(5))
  with b show ?thesis by blast
qed

lemma exec_config_text:
  "exec_config_json cmd out err env =
     render (JObj ([(''AttachStdout'', JBool out), (''AttachStderr'', JBool err)] @ list_member ''Cmd'' jstrs cmd @ list_member ''Env'' jstrs env))"
  unfolding exec_config_json_def push_texts by (simp add: render_obj del: render.simps(5))

lemma exec_start_text: "exec_start_json d t = render (JObj [(''Detach'', JBool d), (''Tty'', JBool t)])"
  by (simp add: exec_start_json_def)

lemma port_key_inject [simp]: "port_key p = port_key q \<longleftrightarrow> p = q"
proof
  assume eq: "port_key p = port_key q"
  have "CHR ''/'' \<notin> set (show_nat n)" for n using show_nat_digits [of "CHR ''/''" n] by auto
  then have "split_once CHR ''/'' (port_key r) = Some (show_nat (unat (as_u16 r)), port_as_str r)" for r
    by (simp add: port_key_def split_once_append)
  from this [of p] this [of q] eq have "unat (as_u16 p) = unat (as_u16 q)" "port_as_str p = port_as_str q" by simp_all
  then show "p = q" by (cases p; cases q) (simp_all add: word_unat_eq_iff)
qed simp

definition binding_entry :: "port_mapping \<Rightarrow> string \<times> port_binding list" where
  "binding_entry p = (port_key (pm_container_port p), [\<lparr>host_ip = ''0.0.0.0'', binding_host_port = show_nat (unat (pm_host_port p))\<rparr>])"

lemma build_port_bindings_alt: "build_port_bindings ports = bt.insert_all (map binding_entry ports) []"
  by (simp add: build_port_bindings_def bt.insert_all_def fold_map binding_entry_def comp_def)

lemma build_port_bindings_lookup: "map_of (build_port_bindings ports) = map_of (rev (map binding_entry ports))"
  unfolding build_port_bindings_alt by (subst bt.lookup_insert_all) (simp_all add: bt.inv_empty)

lemma body_reads_back:
  assumes "\<And>m. m \<in> set (cc_mounts c) \<Longrightarrow> mount_wf m"
  shows "\<exists>body. body_from_config c = Inr body \<and> read_json (body_to_json body) = Some (config_value c)"
  using body_text [of c] assms read_json_render by metis

section \<open>Properties\<close>

text \<open>
  The body of an exec request reads back as its command and environment, whatever they contain.
\<close>

lemma exec_body_reads_back:
  "read_json (exec_config_json cmd out err env) =
     Some (JObj ([(''AttachStdout'', JBool out), (''AttachStderr'', JBool err)] @ list_member ''Cmd'' jstrs cmd @ list_member ''Env'' jstrs env))"
  unfolding exec_config_text by (rule read_json_render)

text \<open>
  Distinct container ports, in number or in protocol, have distinct keys in the port maps of a
  create request, and the bindings of a list without duplicates lose no mapping.
\<close>

lemma port_bindings_complete:
  assumes "distinct (map pm_container_port ports)" and "p \<in> set ports"
  shows "map_of (build_port_bindings ports) (port_key (pm_container_port p))
     = Some [\<lparr>host_ip = ''0.0.0.0'', binding_host_port = show_nat (unat (pm_host_port p))\<rparr>]"
proof -
  have "distinct (map fst (rev (map binding_entry ports)))"
    using assms(1) by (simp add: rev_map [symmetric] comp_def binding_entry_def distinct_map inj_on_def)
  moreover have "binding_entry p \<in> set (rev (map binding_entry ports))" using assms(2) by simp
  ultimately show ?thesis unfolding build_port_bindings_lookup
    by (metis map_of_is_SomeI binding_entry_def)
qed

end
