(* ===== verification/Nojson.thy ===== *)
theory Nojson
  imports Json_Text
begin

text \<open>
  The interface of the JSON parser the sources call (the crate \<open>nojson\<close>, not part of the
  repository) as a record of functions over an abstract type of values, and the standard
  library's text for ill-formed UTF-8. The instance \<open>json_api\<close> on the reader of
  \<open>Json_Text\<close> is used where a statement needs a concrete parser.
\<close>

section \<open>The parser as a parameter\<close>

text \<open>
  \<open>nj_member v k\<close> is \<open>v.to_member(k)\<close> followed by \<open>optional()\<close>: an error text if \<open>v\<close> is
  not an object, the member if there is one; \<open>nj_missing\<close> is the error text of
  \<open>required()\<close> on an absent member. The other fields are \<open>RawJson::parse\<close>, the kind test,
  \<open>to_array\<close>, \<open>to_object\<close> and the conversions with \<open>try_from\<close>.
\<close>

record 'v nojson =
  nj_parse :: "string \<Rightarrow> string + 'v"
  nj_is_object :: "'v \<Rightarrow> bool"
  nj_member :: "'v \<Rightarrow> string \<Rightarrow> string + 'v option"
  nj_missing :: "'v \<Rightarrow> string \<Rightarrow> string"
  nj_string :: "'v \<Rightarrow> string + string"
  nj_i64 :: "'v \<Rightarrow> string + int"
  nj_bool :: "'v \<Rightarrow> string + bool"
  nj_array :: "'v \<Rightarrow> string + 'v list"
  nj_object :: "'v \<Rightarrow> string + ('v \<times> 'v) list"

definition required_member :: "'v nojson \<Rightarrow> 'v \<Rightarrow> string \<Rightarrow> string + 'v" where
  "required_member nj v k = rbind (nj_member nj v k) (\<lambda>m. ok_or (nj_missing nj v k) m)"

text \<open>\<open>to_member(k).ok().and_then(|m| m.optional())\<close>.\<close>

definition optional_member :: "'v nojson \<Rightarrow> 'v \<Rightarrow> string \<Rightarrow> 'v option" where
  "optional_member nj v k = Option.bind (ok (nj_member nj v k)) id"

section \<open>UTF-8 errors\<close>

text \<open>The text of \<open>Utf8Error\<close> at the first ill-formed sequence; \<open>i\<close> bytes precede the rest.\<close>

function utf8_error_text :: "nat \<Rightarrow> u8 list \<Rightarrow> string" where
  "utf8_error_text i bs =
     (if bs = [] then []
      else let (good, n) = utf8_step bs; b0 = byte_at bs 0
           in if good then utf8_error_text (i + n) (drop n bs)
              else if n = length bs \<and> 0xC2 \<le> b0 \<and> b0 \<le> 0xF4 then
                ''incomplete utf-8 byte sequence from index '' @ show_nat i
              else ''invalid utf-8 sequence of '' @ show_nat n @ '' bytes from index '' @ show_nat i)"
  by pat_completeness auto
termination
proof (relation "measure (length \<circ> snd)")
  fix i :: nat and bs :: "u8 list" and x good n b0
  assume "bs \<noteq> []" and "x = utf8_step bs" and "(good, n) = x"
  then have "0 < n" using utf8_step_pos [of bs] by (metis snd_conv)
  then show "((i + n, drop n bs), i, bs) \<in> measure (length \<circ> snd)" using \<open>bs \<noteq> []\<close> by simp
qed simp

declare utf8_error_text.simps [simp del]

text \<open>\<open>std::str::from_utf8(body).map_err(..)\<close> and \<open>RawJson::parse(text).map_err(..)\<close> of the client.\<close>

definition str_from_utf8 :: "u8 list \<Rightarrow> client_error + string" where
  "str_from_utf8 body = ok_or (Json (utf8_error_text 0 body)) (from_utf8 body)"

definition parse_body :: "'v nojson \<Rightarrow> u8 list \<Rightarrow> client_error + 'v" where
  "parse_body nj body = rbind (str_from_utf8 body) (\<lambda>text. map_err Json (nj_parse nj text))"

section \<open>A concrete parser\<close>

definition json_api :: "json nojson" where
  "json_api =
     \<lparr>nj_parse = (\<lambda>s. ok_or ''syntax error'' (read_json s)),
      nj_is_object = (\<lambda>v. case v of JObj _ \<Rightarrow> True | _ \<Rightarrow> False),
      nj_member = (\<lambda>v k. case v of JObj kvs \<Rightarrow> Inr (map_of kvs k) | _ \<Rightarrow> Inl ''not an object''),
      nj_missing = (\<lambda>v k. ''missing member '' @ k),
      nj_string = (\<lambda>v. case v of JStr s \<Rightarrow> Inr s | _ \<Rightarrow> Inl ''not a string''),
      nj_i64 = (\<lambda>v. case v of JNum n \<Rightarrow> Inr (int n) | _ \<Rightarrow> Inl ''not an integer''),
      nj_bool = (\<lambda>v. case v of JBool b \<Rightarrow> Inr b | _ \<Rightarrow> Inl ''not a boolean''),
      nj_array = (\<lambda>v. case v of JArr xs \<Rightarrow> Inr xs | _ \<Rightarrow> Inl ''not an array''),
      nj_object = (\<lambda>v. case v of JObj kvs \<Rightarrow> Inr (map (\<lambda>(k, x). (JStr k, x)) kvs) | _ \<Rightarrow> Inl ''not an object'')\<rparr>"

lemma json_api_simps [simp]:
  "nj_parse json_api (render j) = Inr j"
  "nj_member json_api (JObj kvs) k = Inr (map_of kvs k)"
  "nj_string json_api (JStr s) = Inr s"
  "nj_bool json_api (JBool b) = Inr b"
  "nj_array json_api (JArr xs) = Inr xs"
  by (simp_all add: json_api_def read_json_render)

end
