(* ===== verification/Registry_Auth.thy ===== *)
theory Registry_Auth
  imports Nojson
begin

text \<open>
  \<open>src/core/client/registry_auth.rs\<close>: where the registry credentials of a pull come from.
  The process environment and the readable files are functions; the base64 codec is the crate
  \<open>base64ct\<close>, a parameter.
\<close>

section \<open>The key of an image reference\<close>

definition DOCKER_HUB_AUTH_KEY :: string where
  "DOCKER_HUB_AUTH_KEY = ''https://index.docker.io/v1/''"

definition auths_key :: "string \<Rightarrow> string" where
  "auths_key descriptor =
     (let first = hd (split_on CHR ''/'' descriptor)
      in if CHR ''/'' \<in> set descriptor \<and> (CHR ''.'' \<in> set first \<or> CHR '':'' \<in> set first \<or> first = ''localhost'') then
           (if first = ''docker.io'' \<or> first = ''index.docker.io'' then DOCKER_HUB_AUTH_KEY else first)
         else DOCKER_HUB_AUTH_KEY)"

section \<open>The configuration file\<close>

text \<open>\<open>Path::join\<close> with a relative second part.\<close>

definition path_join :: "string \<Rightarrow> string \<Rightarrow> string" where
  "path_join a b = (if a = [] then b else if last a = CHR ''/'' then a @ b else a @ ''/'' @ b)"

definition load_config_json :: "(string \<Rightarrow> string option) \<Rightarrow> (string \<Rightarrow> string option) \<Rightarrow> string option" where
  "load_config_json env file =
     (case env ''DOCKER_AUTH_CONFIG'' of
        Some (c # cs) \<Rightarrow> Some (c # cs)
      | _ \<Rightarrow>
          (case env ''DOCKER_CONFIG'' of
             Some (c # cs) \<Rightarrow> file (path_join (c # cs) ''config.json'')
           | _ \<Rightarrow>
               Option.bind (env ''HOME'') (\<lambda>home. file (path_join (path_join home ''.docker'') ''config.json''))))"

section \<open>The header value\<close>

definition token_header :: "string \<Rightarrow> string" where
  "token_header token = ''{'' @ escape_json ''identitytoken'' @ '':'' @ [CHR 0x22] @ escape_json_value token @ [CHR 0x22] @ ''}''"

definition login_header :: "string \<Rightarrow> string \<Rightarrow> string \<Rightarrow> string" where
  "login_header username password key =
     ''{'' @ escape_json ''username'' @ '':'' @ [CHR 0x22] @ escape_json_value username @ [CHR 0x22]
     @ '','' @ escape_json ''password'' @ '':'' @ [CHR 0x22] @ escape_json_value password @ [CHR 0x22]
     @ '','' @ escape_json ''serveraddress'' @ '':'' @ [CHR 0x22] @ escape_json_value key @ [CHR 0x22] @ ''}''"

definition identity_token :: "'v nojson \<Rightarrow> 'v \<Rightarrow> string option" where
  "identity_token nj entry =
     (case rbind (required_member nj entry ''identitytoken'') (nj_string nj) of
        Inr token \<Rightarrow> if token \<noteq> [] then Some token else None
      | Inl _ \<Rightarrow> None)"

definition extract_auth_entry ::
  "'v nojson \<Rightarrow> (u8 list \<Rightarrow> string) \<Rightarrow> (string \<Rightarrow> u8 list option) \<Rightarrow> string \<Rightarrow> string \<Rightarrow> string option" where
  "extract_auth_entry nj encode decode config_json key =
     Option.bind (ok (nj_parse nj config_json)) (\<lambda>v.
     Option.bind (ok (required_member nj v ''auths'')) (\<lambda>auths.
     Option.bind (ok (required_member nj auths key)) (\<lambda>entry.
       case identity_token nj entry of
         Some token \<Rightarrow> Some (encode (as_bytes (token_header token)))
       | None \<Rightarrow>
           Option.bind (ok (rbind (required_member nj entry ''auth'') (nj_string nj))) (\<lambda>auth.
             if auth = [] then None
             else
               Option.bind (decode auth) (\<lambda>bytes.
               Option.bind (from_utf8 bytes) (\<lambda>decoded.
               Option.bind (split_once CHR '':'' decoded) (\<lambda>(username, password).
               Some (encode (as_bytes (login_header username password key))))))))))"

definition x_registry_auth ::
  "'v nojson \<Rightarrow> (u8 list \<Rightarrow> string) \<Rightarrow> (string \<Rightarrow> u8 list option) \<Rightarrow> (string \<Rightarrow> string option) \<Rightarrow> (string \<Rightarrow> string option) \<Rightarrow>
   string \<Rightarrow> string option" where
  "x_registry_auth nj encode decode env file descriptor =
     Option.bind (load_config_json env file) (\<lambda>config_json.
       extract_auth_entry nj encode decode config_json (auths_key descriptor))"

section \<open>Facts\<close>

lemma token_header_text: "token_header t = render (JObj [(''identitytoken'', JStr t)])"
  by (simp add: token_header_def escape_json_def)

lemma login_header_text:
  "login_header u p k = render (JObj [(''username'', JStr u), (''password'', JStr p), (''serveraddress'', JStr k)])"
  by (simp add: login_header_def escape_json_def)

lemma extract_auth_entry_Some:
  assumes "extract_auth_entry nj encode decode config key = Some header"
  obtains v auths entry where "nj_parse nj config = Inr v" "required_member nj v ''auths'' = Inr auths"
    "required_member nj auths key = Inr entry"
    "(\<exists>t. identity_token nj entry = Some t \<and> header = encode (as_bytes (token_header t))) \<or>
     (\<exists>auth u p. rbind (required_member nj entry ''auth'') (nj_string nj) = Inr auth \<and>
        Option.bind (decode auth) from_utf8 = Some (u @ '':'' @ p) \<and> CHR '':'' \<notin> set u \<and>
        header = encode (as_bytes (login_header u p key)))"
proof -
  from assms obtain v auths entry where e: "nj_parse nj config = Inr v" "required_member nj v ''auths'' = Inr auths"
    "required_member nj auths key = Inr entry"
    "(case identity_token nj entry of
         Some token \<Rightarrow> Some (encode (as_bytes (token_header token)))
       | None \<Rightarrow>
           Option.bind (ok (rbind (required_member nj entry ''auth'') (nj_string nj))) (\<lambda>auth.
             if auth = [] then None
             else
               Option.bind (decode auth) (\<lambda>bytes.
               Option.bind (from_utf8 bytes) (\<lambda>decoded.
               Option.bind (split_once CHR '':'' decoded) (\<lambda>(username, password).
               Some (encode (as_bytes (login_header username password key)))))))) = Some header"
    unfolding extract_auth_entry_def by (auto simp: bind_eq_Some_conv)
  show thesis
  proof (rule that [OF e(1-3)], cases "identity_token nj entry")
    case None
    with e(4) obtain auth bytes decoded u p where
      "rbind (required_member nj entry ''auth'') (nj_string nj) = Inr auth" "decode auth = Some bytes"
      "from_utf8 bytes = Some decoded" "split_once CHR '':'' decoded = Some (u, p)" "header = encode (as_bytes (login_header u p key))"
      by (auto simp: bind_eq_Some_conv split: if_splits)
    then show "(\<exists>t. identity_token nj entry = Some t \<and> header = encode (as_bytes (token_header t))) \<or>
     (\<exists>auth u p. rbind (required_member nj entry ''auth'') (nj_string nj) = Inr auth \<and>
        Option.bind (decode auth) from_utf8 = Some (u @ '':'' @ p) \<and> CHR '':'' \<notin> set u \<and>
        header = encode (as_bytes (login_header u p key)))"
      using split_once_Some by fastforce
  qed (use e(4) in simp)
qed

text \<open>
  The registry an image reference names, by the reference grammar: the part before the first slash
  when it has a dot or a colon or is \<open>localhost\<close>; every other reference is of Docker Hub.
\<close>

definition registry_key :: "string \<Rightarrow> string" where
  "registry_key descriptor =
     (case split_once CHR ''/'' descriptor of
        None \<Rightarrow> DOCKER_HUB_AUTH_KEY
      | Some (domain, _) \<Rightarrow>
          if domain \<in> {''docker.io'', ''index.docker.io''} \<or> domain \<noteq> ''localhost'' \<and> set domain \<inter> {CHR ''.'', CHR '':''} = {}
          then DOCKER_HUB_AUTH_KEY else domain)"

lemma auths_key_registry: "auths_key descriptor = registry_key descriptor"
proof (cases "split_once CHR ''/'' descriptor")
  case None
  then have "CHR ''/'' \<notin> set descriptor" by (simp add: split_once_None)
  then show ?thesis unfolding registry_key_def None by (simp add: auths_key_def Let_def)
next
  case (Some ab)
  then obtain a b where ab: "split_once CHR ''/'' descriptor = Some (a, b)" by (cases ab) simp
  from split_once_Some [OF this] have d: "descriptor = a @ CHR ''/'' # b" "CHR ''/'' \<notin> set a" by blast+
  have "hd (split_on CHR ''/'' (a @ CHR ''/'' # b)) = a" using d(2) by (induction a) (auto split: list.splits)
  then show ?thesis unfolding registry_key_def ab unfolding auths_key_def Let_def d(1) by auto
qed

section \<open>Properties\<close>

text \<open>
  C38. Credentials go only to the registry they are stored for: a header that is sent with a pull decodes
  to a JSON object built from the entry under the key of exactly this image reference, with an
  identity token or with the user name, the password and that key as the server address.
\<close>

theorem registry_credentials_match:
  assumes codec: "\<And>bs. decode (encode bs) = Some bs"
    and header: "x_registry_auth nj encode decode env file descriptor = Some header"
  shows "\<exists>config v auths entry bytes. load_config_json env file = Some config \<and> nj_parse nj config = Inr v \<and>
     required_member nj v ''auths'' = Inr auths \<and> required_member nj auths (registry_key descriptor) = Inr entry \<and>
     decode header = Some bytes \<and>
     ((\<exists>t. identity_token nj entry = Some t \<and> read_json (as_string bytes) = Some (JObj [(''identitytoken'', JStr t)])) \<or>
      (\<exists>auth u p. rbind (required_member nj entry ''auth'') (nj_string nj) = Inr auth \<and>
         Option.bind (decode auth) from_utf8 = Some (u @ '':'' @ p) \<and> CHR '':'' \<notin> set u \<and>
         read_json (as_string bytes) =
           Some (JObj [(''username'', JStr u), (''password'', JStr p), (''serveraddress'', JStr (registry_key descriptor))])))"
proof -
  from header obtain config where c: "load_config_json env file = Some config"
    "extract_auth_entry nj encode decode config (registry_key descriptor) = Some header"
    by (auto simp: x_registry_auth_def bind_eq_Some_conv auths_key_registry)
  from c(2) show ?thesis
  proof (cases rule: extract_auth_entry_Some)
    case (1 v auths entry)
    from 1(4) show ?thesis
    proof
      assume "\<exists>t. identity_token nj entry = Some t \<and> header = encode (as_bytes (token_header t))"
      then obtain t where t: "identity_token nj entry = Some t" "decode header = Some (as_bytes (token_header t))"
        using codec by blast
      then have "read_json (as_string (as_bytes (token_header t))) = Some (JObj [(''identitytoken'', JStr t)])"
        unfolding token_header_text by (simp only: as_string_as_bytes read_json_render)
      with c(1) 1(1-3) t show ?thesis by blast
    next
      assume "\<exists>auth u p. rbind (required_member nj entry ''auth'') (nj_string nj) = Inr auth \<and>
        Option.bind (decode auth) from_utf8 = Some (u @ '':'' @ p) \<and> CHR '':'' \<notin> set u \<and>
        header = encode (as_bytes (login_header u p (registry_key descriptor)))"
      then obtain auth u p where a: "rbind (required_member nj entry ''auth'') (nj_string nj) = Inr auth"
        "Option.bind (decode auth) from_utf8 = Some (u @ '':'' @ p)" "CHR '':'' \<notin> set u"
        "decode header = Some (as_bytes (login_header u p (registry_key descriptor)))"
        using codec by blast
      moreover have "read_json (as_string (as_bytes (login_header u p k)))
          = Some (JObj [(''username'', JStr u), (''password'', JStr p), (''serveraddress'', JStr k)])" for k
        unfolding login_header_text by (simp only: as_string_as_bytes read_json_render)
      ultimately show ?thesis using c(1) 1(1-3) by blast
    qed
  qed
qed

definition sample_login_config :: string where
  "sample_login_config = render (JObj [(''auths'', JObj [(''ghcr.io'', JObj [(''auth'', JStr ''u:p'')])])])"

theorem registry_credentials_match_witness:
  "\<exists>header v auths entry. x_registry_auth json_api as_string (\<lambda>s. Some (as_bytes s))
       (\<lambda>v. if v = ''DOCKER_AUTH_CONFIG'' then Some sample_login_config else None) (\<lambda>_. None) ''ghcr.io/o/app:1'' = Some header \<and>
     nj_parse json_api sample_login_config = Inr v \<and> required_member json_api v ''auths'' = Inr auths \<and>
     required_member json_api auths ''ghcr.io'' = Inr entry"
proof -
  let ?env = "\<lambda>v. if v = ''DOCKER_AUTH_CONFIG'' then Some sample_login_config else None"
  have key: "auths_key ''ghcr.io/o/app:1'' = ''ghcr.io''" by (simp add: auths_key_def)
  have load: "load_config_json ?env (\<lambda>_. None) = Some sample_login_config"
    by (simp add: load_config_json_def sample_login_config_def)
  have "utf8_valid (as_bytes ''u:p'')" by (simp add: str_simps)
  then have "from_utf8 (as_bytes ''u:p'') = Some ''u:p''" by (simp only: from_utf8_def as_string_as_bytes if_True)
  then have u: "from_utf8 [117, 58, 112] = Some ''u:p''" by simp
  have x: "x_registry_auth json_api as_string (\<lambda>s. Some (as_bytes s)) ?env (\<lambda>_. None) ''ghcr.io/o/app:1''
      = Some (login_header ''u'' ''p'' ''ghcr.io'')"
    by (simp add: x_registry_auth_def load key extract_auth_entry_def sample_login_config_def required_member_def ok_or_def
        identity_token_def json_api_def read_json_render u del: render.simps)
  have "(\<lambda>s. Some (as_bytes s)) (as_string bs) = Some bs" for bs by simp
  from registry_credentials_match [of "\<lambda>s. Some (as_bytes s)" as_string json_api ?env "\<lambda>_. None" "''ghcr.io/o/app:1''", OF this x]
  obtain config v auths entry where "load_config_json ?env (\<lambda>_. None) = Some config" "nj_parse json_api config = Inr v"
    "required_member json_api v ''auths'' = Inr auths" "required_member json_api auths (registry_key ''ghcr.io/o/app:1'') = Inr entry"
    by blast
  with x show ?thesis unfolding load key auths_key_registry [symmetric] by auto
qed

end
