(* ===== verification/Docker_Client.thy ===== *)
theory Docker_Client
  imports Env_Util Log_Demux Docker_Create Registry_Auth
begin

text \<open>
  \<open>DockerClient\<close> of \<open>src/core/client/docker_client.rs\<close>: every operation as the sequence of
  requests it sends to the Docker daemon and what it makes of the answers. The world answers: it
  is a parameter that maps the events so far and a request to the result of sending it (connection
  and codec errors included); it also holds the JSON parser, the base64 codec, the process
  environment and the readable files. An operation returns its result and the extended list of
  events.
\<close>

section \<open>Requests, events, effects\<close>

record http_request =
  rq_method :: string
  rq_path :: string
  rq_headers :: "(string \<times> string) list"
  rq_body :: "(u8 list \<times> string) option"
  rq_limit :: "nat option"

record http_response =
  rsp_status :: nat
  rsp_body :: "u8 list option"

text \<open>
  What the program does to the outside: a request, a sleep, a log session, a thread that waits for
  the exit code in a generation, a task that delivers the lines of one stream of a session to the
  consumers, a stop of a log session. A session is named by its position in the history.
\<close>

datatype event =
  Http http_request
| Sleep duration
| SpawnLogSession string
| SpawnWaiter string u64
| SpawnConsumer nat log_source
| StopLogs nat

record 'v world =
  w_http :: "event list \<Rightarrow> http_request \<Rightarrow> http_response result"
  w_json :: "'v nojson"
  w_encode :: "u8 list \<Rightarrow> string"
  w_decode :: "string \<Rightarrow> u8 list option"
  w_env :: "string \<Rightarrow> string option"
  w_file :: "string \<Rightarrow> string option"

text \<open>
  An effect returns its result and the history it extends; it is used with the events above and,
  for the macOS client, with events of its own.
\<close>

type_synonym ('e, 'a) effect = "'e list \<Rightarrow> 'a result \<times> 'e list"

type_synonym 'a io = "(event, 'a) effect"

definition io_lift :: "'a result \<Rightarrow> ('e, 'a) effect" where
  "io_lift r h = (r, h)"

definition io_bind :: "('e, 'a) effect \<Rightarrow> ('a \<Rightarrow> ('e, 'b) effect) \<Rightarrow> ('e, 'b) effect" where
  "io_bind m k h = (case m h of (Inl e, h') \<Rightarrow> (Inl e, h') | (Inr x, h') \<Rightarrow> k x h')"

definition io_event :: "'e \<Rightarrow> ('e, unit) effect" where
  "io_event e h = (Inr (), h @ [e])"

definition io_catch :: "('e, 'a) effect \<Rightarrow> ('e, 'a result) effect" where
  "io_catch m h = (case m h of (r, h') \<Rightarrow> (Inr r, h'))"

fun io_for :: "('a \<Rightarrow> ('e, unit) effect) \<Rightarrow> 'a list \<Rightarrow> ('e, unit) effect" where
  "io_for f [] = io_lift (Inr ())"
| "io_for f (x # xs) = io_bind (f x) (\<lambda>_. io_for f xs)"

definition http :: "'v world \<Rightarrow> http_request \<Rightarrow> http_response io" where
  "http w rq h = (w_http w h rq, h @ [Http rq])"

definition client_err :: "client_error + 'a \<Rightarrow> 'a result" where
  "client_err r = map_err Client r"

definition fail :: "string \<Rightarrow> 'a result" where
  "fail msg = Inl (Client (ClientOther msg))"

definition io_map_err :: "(error \<Rightarrow> error) \<Rightarrow> ('e, 'a) effect \<Rightarrow> ('e, 'a) effect" where
  "io_map_err f m h = (case m h of (r, h') \<Rightarrow> (map_err f r, h'))"

section \<open>Sending\<close>

definition request_with_body_limit ::
  "'v world \<Rightarrow> string \<Rightarrow> string \<Rightarrow> u8 list option \<Rightarrow> nat option \<Rightarrow> http_response io" where
  "request_with_body_limit w method path body limit =
     http w \<lparr>rq_method = method, rq_path = path, rq_headers = [],
       rq_body = map_option (\<lambda>b. (b, ''application/json'')) body, rq_limit = limit\<rparr>"

definition request :: "'v world \<Rightarrow> string \<Rightarrow> string \<Rightarrow> u8 list option \<Rightarrow> http_response io" where
  "request w method path body = request_with_body_limit w method path body None"

definition request_with_extra_headers ::
  "'v world \<Rightarrow> string \<Rightarrow> string \<Rightarrow> u8 list option \<Rightarrow> (string \<times> string) list \<Rightarrow> nat option \<Rightarrow> http_response io" where
  "request_with_extra_headers w method path body headers limit =
     http w \<lparr>rq_method = method, rq_path = path, rq_headers = headers,
       rq_body = map_option (\<lambda>b. (b, ''application/json'')) body, rq_limit = limit\<rparr>"

definition request_with_content_type :: "'v world \<Rightarrow> string \<Rightarrow> string \<Rightarrow> u8 list \<Rightarrow> string \<Rightarrow> http_response io" where
  "request_with_content_type w method path body content_type =
     http w \<lparr>rq_method = method, rq_path = path, rq_headers = [], rq_body = Some (body, content_type), rq_limit = None\<rparr>"

definition status_error :: "string \<Rightarrow> http_response \<Rightarrow> 'a result" where
  "status_error what rsp = fail (what @ '': '' @ show_nat (rsp_status rsp))"

section \<open>Images\<close>

definition split_name_and_tag :: "string \<Rightarrow> string \<times> string" where
  "split_name_and_tag descriptor =
     (let name_tag = (case rsplit_once CHR ''/'' descriptor of Some (_, t) \<Rightarrow> t | None \<Rightarrow> descriptor)
      in case split_once CHR '':'' name_tag of
           None \<Rightarrow> (descriptor, ''latest'')
         | Some (name, tag) \<Rightarrow>
             let from_image = take (length descriptor - length name_tag + length name) descriptor
             in if tag = [] then (from_image, ''latest'') else (from_image, tag))"

definition split_pull_reference :: "string \<Rightarrow> string \<times> string" where
  "split_pull_reference descriptor =
     (case split_once CHR ''@'' descriptor of
        Some (left, digest) \<Rightarrow>
          (fst (split_name_and_tag left), if digest = [] then ''latest'' else digest)
      | None \<Rightarrow> split_name_and_tag descriptor)"

definition parse_daemon_error_message :: "'v nojson \<Rightarrow> u8 list \<Rightarrow> string option" where
  "parse_daemon_error_message nj body =
     Option.bind (from_utf8 body) (\<lambda>text.
     Option.bind (ok (nj_parse nj text)) (\<lambda>v.
     Option.bind (ok (required_member nj v ''message'')) (\<lambda>m. ok (nj_string nj m))))"

definition pull_error_message :: "'v nojson \<Rightarrow> string \<Rightarrow> nat \<Rightarrow> u8 list \<Rightarrow> string" where
  "pull_error_message nj descriptor status body =
     (case parse_daemon_error_message nj body of
        Some (c # cs) \<Rightarrow> ''failed to pull image '' @ descriptor @ '': '' @ show_nat status @ '': '' @ c # cs
      | _ \<Rightarrow> ''failed to pull image '' @ descriptor @ '': '' @ show_nat status)"

text \<open>\<open>str::lines\<close>: split at newlines, without a last empty piece and without one carriage return.\<close>

definition strip_cr :: "string \<Rightarrow> string" where
  "strip_cr l = (if l \<noteq> [] \<and> last l = CHR 0x0D then butlast l else l)"

definition str_lines :: "string \<Rightarrow> string list" where
  "str_lines text =
     (let ps = split_on CHR 0x0A text in map strip_cr (butlast ps) @ (if last ps = [] then [] else [strip_cr (last ps)]))"

definition trim_end_cr :: "string \<Rightarrow> string" where
  "trim_end_cr s = rev (dropWhile (\<lambda>c. c = CHR 0x0D) (rev s))"

definition non_empty :: "string option \<Rightarrow> string option" where
  "non_empty v = (case v of Some (c # cs) \<Rightarrow> Some (c # cs) | _ \<Rightarrow> None)"

definition pull_line_error :: "'v nojson \<Rightarrow> 'v \<Rightarrow> string option" where
  "pull_line_error nj v =
     (let error_msg = non_empty (Option.bind (optional_member nj v ''error'') (\<lambda>x. ok (nj_string nj x)));
          detail_msg = non_empty (Option.bind (Option.bind (optional_member nj v ''errorDetail'') (\<lambda>d. optional_member nj d ''message''))
            (\<lambda>x. ok (nj_string nj x)))
      in case error_msg of Some m \<Rightarrow> Some m | None \<Rightarrow> detail_msg)"

definition check_pull_line :: "'v nojson \<Rightarrow> unit \<Rightarrow> string \<Rightarrow> client_error + unit" where
  "check_pull_line nj u raw =
     (let line = trim (trim_end_cr raw)
      in if line = [] then Inr ()
         else rbind (map_err Json (nj_parse nj line)) (\<lambda>v.
           if \<not> nj_is_object nj v then Inl (Json (''expected object in pull stream, got '' @ line))
           else case pull_line_error nj v of Some msg \<Rightarrow> Inl (ClientOther msg) | None \<Rightarrow> Inr ()))"

definition check_pull_stream_errors :: "'v nojson \<Rightarrow> u8 list \<Rightarrow> client_error + unit" where
  "check_pull_stream_errors nj body =
     rbind (str_from_utf8 body) (\<lambda>text. foldr_res (check_pull_line nj) () (str_lines text))"

definition body_or_empty :: "http_response \<Rightarrow> u8 list" where
  "body_or_empty rsp = (case rsp_body rsp of Some b \<Rightarrow> b | None \<Rightarrow> [])"

definition pull_image :: "'v world \<Rightarrow> string \<Rightarrow> string option \<Rightarrow> unit io" where
  "pull_image w descriptor platform =
     (let (image, tag) = split_pull_reference descriptor;
          path = ''/images/create?fromImage='' @ percent_encode image @ ''&tag='' @ percent_encode tag
            @ (case platform of None \<Rightarrow> [] | Some p \<Rightarrow> ''&platform='' @ percent_encode p);
          headers = (case x_registry_auth (w_json w) (w_encode w) (w_decode w) (w_env w) (w_file w) descriptor of
            None \<Rightarrow> [] | Some v \<Rightarrow> [(''X-Registry-Auth'', v)])
      in io_bind (io_map_err (\<lambda>e. Client (ClientOther (''failed to receive pull progress for image '' @ descriptor @ '': '' @ error_text e)))
            (request_with_extra_headers w ''POST'' path None headers (Some DOCKER_RESPONSE_BODY_LIMIT)))
          (\<lambda>rsp. io_lift
             (if 400 \<le> rsp_status rsp then
                fail (pull_error_message (w_json w) descriptor (rsp_status rsp) (body_or_empty rsp))
              else client_err (check_pull_stream_errors (w_json w) (body_or_empty rsp)))))"

definition resolve_image_descriptor :: "'v world \<Rightarrow> string \<Rightarrow> string io" where
  "resolve_image_descriptor w descriptor =
     io_bind (request w ''GET'' (''/images/'' @ percent_encode descriptor @ ''/json'') None) (\<lambda>rsp. io_lift
       (if rsp_status rsp = 200 then Inr descriptor
        else if rsp_status rsp = 404 then Inl (Client (ImageNotFound descriptor))
        else status_error (''failed to resolve image '' @ descriptor) rsp))"

section \<open>Containers\<close>

definition container_path :: "string \<Rightarrow> string \<Rightarrow> string" where
  "container_path i rest = ''/containers/'' @ percent_encode i @ rest"

definition create_path :: "container_config \<Rightarrow> string" where
  "create_path c =
     (let params = (case cc_name c of None \<Rightarrow> [] | Some n \<Rightarrow> [''name='' @ percent_encode n])
            @ (case cc_platform c of None \<Rightarrow> [] | Some p \<Rightarrow> [''platform='' @ percent_encode p])
      in ''/containers/create'' @ (if params = [] then [] else ''?'' @ join_with ''&'' params))"

text \<open>The string member \<open>Id\<close> of a response body.\<close>

definition response_json :: "'v nojson \<Rightarrow> string \<Rightarrow> http_response \<Rightarrow> 'v result" where
  "response_json nj empty_msg rsp =
     rbind (ok_or (Client (ClientOther empty_msg)) (rsp_body rsp)) (\<lambda>body. client_err (parse_body nj body))"

definition response_id :: "'v nojson \<Rightarrow> string \<Rightarrow> http_response \<Rightarrow> string result" where
  "response_id nj empty_msg rsp =
     rbind (response_json nj empty_msg rsp) (\<lambda>v.
     client_err (map_err Json (rbind (required_member nj v ''Id'') (nj_string nj))))"

definition create_container :: "'v world \<Rightarrow> container_config \<Rightarrow> string io" where
  "create_container w config =
     io_bind (io_lift (body_from_config config)) (\<lambda>body.
     io_bind (request w ''POST'' (create_path config) (Some (as_bytes (body_to_json body)))) (\<lambda>rsp. io_lift
       (if 400 \<le> rsp_status rsp then status_error ''failed to create container'' rsp
        else response_id (w_json w) ''empty response body'' rsp)))"

definition start_container :: "'v world \<Rightarrow> string \<Rightarrow> unit io" where
  "start_container w i =
     io_bind (request w ''POST'' (container_path i ''/start'') None) (\<lambda>rsp. io_lift
       (if 400 \<le> rsp_status rsp then status_error ''failed to start container'' rsp else Inr ()))"

definition docker_stop :: "'v world \<Rightarrow> string \<Rightarrow> int option \<Rightarrow> unit io" where
  "docker_stop w i timeout_seconds =
     (let t = (case timeout_seconds of Some t \<Rightarrow> if 0 \<le> t then t else 30 | None \<Rightarrow> 30)
      in io_bind (request w ''POST'' (container_path i (''/stop?t='' @ show_int t)) None) (\<lambda>rsp. io_lift
        (if rsp_status rsp = 404 then Inr ()
         else if 400 \<le> rsp_status rsp then status_error ''failed to stop container'' rsp else Inr ())))"

definition docker_pause :: "'v world \<Rightarrow> string \<Rightarrow> unit io" where
  "docker_pause w i =
     io_bind (request w ''POST'' (container_path i ''/pause'') None) (\<lambda>rsp. io_lift
       (if rsp_status rsp = 304 \<or> rsp_status rsp = 404 then Inr ()
        else if 400 \<le> rsp_status rsp then status_error ''failed to pause container'' rsp else Inr ()))"

definition docker_unpause :: "'v world \<Rightarrow> string \<Rightarrow> unit io" where
  "docker_unpause w i =
     io_bind (request w ''POST'' (container_path i ''/unpause'') None) (\<lambda>rsp. io_lift
       (if rsp_status rsp = 304 \<or> rsp_status rsp = 404 then Inr ()
        else if 400 \<le> rsp_status rsp then status_error ''failed to unpause container'' rsp else Inr ()))"

definition remove_request :: "string \<Rightarrow> bool \<Rightarrow> http_request" where
  "remove_request i force =
     \<lparr>rq_method = ''DELETE'', rq_path = container_path i (''?force='' @ json_bool force), rq_headers = [],
      rq_body = None, rq_limit = None\<rparr>"

definition docker_remove :: "'v world \<Rightarrow> string \<Rightarrow> bool \<Rightarrow> unit io" where
  "docker_remove w i force =
     io_bind (http w (remove_request i force)) (\<lambda>rsp. io_lift
       (if rsp_status rsp = 404 then Inr ()
        else if 400 \<le> rsp_status rsp then status_error ''failed to remove container'' rsp else Inr ()))"

text \<open>\<open>remove_blocking\<close> sends the same request from a thread of its own and reads the answer the same way.\<close>

definition remove_blocking :: "'v world \<Rightarrow> string \<Rightarrow> bool \<Rightarrow> unit io" where
  "remove_blocking w i force =
     io_bind (http w (remove_request i force)) (\<lambda>rsp. io_lift
       (if rsp_status rsp = 404 then Inr ()
        else if 400 \<le> rsp_status rsp then status_error ''failed to remove container'' rsp else Inr ()))"

definition wait_blocking :: "'v world \<Rightarrow> string \<Rightarrow> int io" where
  "wait_blocking w i =
     io_bind (request w ''POST'' (container_path i ''/wait?condition=not-running'') None) (\<lambda>rsp. io_lift
       (if 400 \<le> rsp_status rsp then status_error ''failed to wait for container'' rsp
        else
          rbind (response_json (w_json w) ''empty wait response body'' rsp) (\<lambda>v.
          client_err (map_err Json (rbind (required_member (w_json w) v ''StatusCode'') (nj_i64 (w_json w)))))))"

section \<open>Exec\<close>

definition EXEC_EXIT_CODE_BACKOFF_MILLIS :: "nat list" where
  "EXEC_EXIT_CODE_BACKOFF_MILLIS = [10, 50, 200, 500, 1000]"

record docker_exec_result =
  er_exit_code :: "int option"
  er_stdout :: "u8 list"
  er_stderr :: "u8 list"

definition parse_exec_inspect_state :: "'v nojson \<Rightarrow> u8 list \<Rightarrow> (bool \<times> int option) result" where
  "parse_exec_inspect_state nj body =
     rbind (client_err (parse_body nj body)) (\<lambda>v.
       let running = (case Option.bind (optional_member nj v ''Running'') (\<lambda>x. ok (nj_bool nj x)) of Some b \<Rightarrow> b | None \<Rightarrow> False);
           exit_code = Option.bind (optional_member nj v ''ExitCode'') (\<lambda>x. ok (nj_i64 nj x))
       in Inr (running, exit_code))"

definition resolve_exec_exit_code :: "(bool \<times> int option) list \<Rightarrow> int option" where
  "resolve_exec_exit_code states = Option.bind (find (\<lambda>st. \<not> fst st) states) snd"

definition exec_inspect :: "'v world \<Rightarrow> string \<Rightarrow> (bool \<times> int option) io" where
  "exec_inspect w exec_id =
     io_bind (request w ''GET'' (''/exec/'' @ percent_encode exec_id @ ''/json'') None) (\<lambda>rsp. io_lift
       (if 400 \<le> rsp_status rsp then status_error ''failed to inspect exec'' rsp
        else rbind (ok_or (Client (ClientOther ''empty exec inspect body'')) (rsp_body rsp)) (parse_exec_inspect_state (w_json w))))"

text \<open>The inspection loop; the argument is the list of sleeps that are left.\<close>

fun exec_inspect_loop :: "'v world \<Rightarrow> string \<Rightarrow> nat list \<Rightarrow> (bool \<times> int option) list \<Rightarrow> (bool \<times> int option) list io" where
  "exec_inspect_loop w exec_id [] states = io_bind (exec_inspect w exec_id) (\<lambda>state. io_lift (Inr (states @ [state])))"
| "exec_inspect_loop w exec_id (ms # rest) states =
     io_bind (exec_inspect w exec_id) (\<lambda>state.
       let states' = states @ [state]
       in if \<not> fst state then io_lift (Inr states')
          else io_bind (io_event (Sleep (from_millis ms))) (\<lambda>_. exec_inspect_loop w exec_id rest states'))"

definition docker_exec :: "'v world \<Rightarrow> string \<Rightarrow> string list \<Rightarrow> string list \<Rightarrow> docker_exec_result io" where
  "docker_exec w i cmd env =
     io_bind (request w ''POST'' (container_path i ''/exec'') (Some (as_bytes (exec_config_json cmd True True env)))) (\<lambda>rsp.
     if 400 \<le> rsp_status rsp then io_lift (status_error ''failed to create exec'' rsp)
     else io_bind (io_lift (response_id (w_json w) ''empty exec response body'' rsp)) (\<lambda>exec_id.
     io_bind (request_with_body_limit w ''POST'' (''/exec/'' @ percent_encode exec_id @ ''/start'')
         (Some (as_bytes (exec_start_json False False))) (Some DOCKER_RESPONSE_BODY_LIMIT)) (\<lambda>rsp.
     if 400 \<le> rsp_status rsp then io_lift (status_error ''failed to start exec'' rsp)
     else io_bind (io_lift (ok_or (Client (ClientOther ''empty exec start response body'')) (rsp_body rsp))) (\<lambda>stream_body.
     let (out, err) = demux_exec_stream stream_body
     in io_bind (exec_inspect_loop w exec_id EXEC_EXIT_CODE_BACKOFF_MILLIS []) (\<lambda>states.
     io_lift (Inr \<lparr>er_exit_code = resolve_exec_exit_code states, er_stdout = out, er_stderr = err\<rparr>))))))"

section \<open>Inspection\<close>

record container_snapshot =
  snap_running :: bool
  snap_ports :: ports

datatype health_status = Starting | Healthy | UnhealthyStatus

record health_probe =
  probe_running :: bool
  probe_health :: "health_status option"

definition inspect_json :: "'v world \<Rightarrow> string \<Rightarrow> 'v io" where
  "inspect_json w i =
     io_bind (request w ''GET'' (container_path i ''/json'') None) (\<lambda>rsp. io_lift
       (if rsp_status rsp = 404 then Inl (Client (ContainerNotFound i))
        else if 400 \<le> rsp_status rsp then status_error ''failed to inspect container'' rsp
        else response_json (w_json w) ''empty inspect body'' rsp))"

text \<open>One entry of \<open>NetworkSettings.Ports\<close>: \<open>"80/tcp"\<close> with its list of bindings.\<close>

definition parse_port_key :: "string \<Rightarrow> container_port option" where
  "parse_port_key key =
     (case split_on CHR ''/'' key of
        [number, proto] \<Rightarrow>
          (case parse_u16 number of
             Inl _ \<Rightarrow> None
           | Inr p \<Rightarrow>
               if proto = ''tcp'' then Some (Tcp p)
               else if proto = ''udp'' then Some (Udp p)
               else if proto = ''sctp'' then Some (Sctp p)
               else None)
      | _ \<Rightarrow> None)"

definition binding_port :: "'v nojson \<Rightarrow> 'v \<Rightarrow> u16 option" where
  "binding_port nj binding =
     Option.bind (Option.bind (optional_member nj binding ''HostPort'') (\<lambda>x. ok (nj_string nj x))) (\<lambda>s. ok (parse_u16 s))"

definition add_binding :: "'v nojson \<Rightarrow> container_port \<Rightarrow> 'v \<Rightarrow> ports \<Rightarrow> ports" where
  "add_binding nj p binding acc = (case binding_port nj binding of None \<Rightarrow> acc | Some host \<Rightarrow> add_mapping acc p host)"

definition add_port_entry :: "'v nojson \<Rightarrow> 'v \<times> 'v \<Rightarrow> ports \<Rightarrow> ports" where
  "add_port_entry nj kv acc =
     (case Option.bind (ok (nj_string nj (fst kv))) parse_port_key of
        None \<Rightarrow> acc
      | Some p \<Rightarrow> (case nj_array nj (snd kv) of Inl _ \<Rightarrow> acc | Inr bindings \<Rightarrow> fold (add_binding nj p) bindings acc))"

definition parse_ports :: "'v nojson \<Rightarrow> 'v \<Rightarrow> ports" where
  "parse_ports nj v =
     (case Option.bind (optional_member nj v ''NetworkSettings'') (\<lambda>ns. optional_member nj ns ''Ports'') of
        None \<Rightarrow> ports_default
      | Some ps \<Rightarrow> (case nj_object nj ps of Inl _ \<Rightarrow> ports_default | Inr entries \<Rightarrow> fold (add_port_entry nj) entries ports_default))"

definition state_running :: "'v nojson \<Rightarrow> 'v \<Rightarrow> bool" where
  "state_running nj st =
     (case Option.bind (optional_member nj st ''Running'') (\<lambda>x. ok (nj_bool nj x)) of Some b \<Rightarrow> b | None \<Rightarrow> False)"

definition docker_container_state :: "'v world \<Rightarrow> string \<Rightarrow> container_snapshot io" where
  "docker_container_state w i =
     io_bind (inspect_json w i) (\<lambda>v. io_lift (
       rbind (client_err (map_err Json (required_member (w_json w) v ''State''))) (\<lambda>st.
       Inr \<lparr>snap_running = state_running (w_json w) st, snap_ports = parse_ports (w_json w) v\<rparr>)))"

definition docker_ports :: "'v world \<Rightarrow> string \<Rightarrow> ports io" where
  "docker_ports w i = io_bind (docker_container_state w i) (\<lambda>snap. io_lift (Inr (snap_ports snap)))"

definition container_env :: "'v world \<Rightarrow> string \<Rightarrow> string list io" where
  "container_env w i =
     (let nj = w_json w
      in io_bind (inspect_json w i) (\<lambda>v. io_lift (Inr
        (case Option.bind (Option.bind (optional_member nj v ''Config'') (\<lambda>c. optional_member nj c ''Env'')) (\<lambda>e. ok (nj_array nj e)) of
           None \<Rightarrow> []
         | Some items \<Rightarrow> List.map_filter (\<lambda>x. ok (nj_string nj x)) items))))"

definition health_of_text :: "string \<Rightarrow> health_status option" where
  "health_of_text status =
     (if status = ''starting'' then Some Starting
      else if status = ''healthy'' then Some Healthy
      else if status = ''unhealthy'' then Some UnhealthyStatus
      else None)"

definition container_health :: "'v world \<Rightarrow> string \<Rightarrow> health_probe io" where
  "container_health w i =
     (let nj = w_json w
      in io_bind (inspect_json w i) (\<lambda>v. io_lift (
        rbind (client_err (map_err Json (required_member nj v ''State''))) (\<lambda>st.
        Inr \<lparr>probe_running = state_running nj st,
             probe_health = Option.bind (Option.bind (Option.bind (optional_member nj st ''Health'')
                (\<lambda>hl. optional_member nj hl ''Status'')) (\<lambda>x. ok (nj_string nj x))) health_of_text\<rparr>))))"

section \<open>Archives\<close>

definition classify_archive_404 :: "'v nojson \<Rightarrow> string \<Rightarrow> string \<Rightarrow> u8 list \<Rightarrow> client_error" where
  "classify_archive_404 nj i path body =
     (case parse_daemon_error_message nj body of
        Some msg \<Rightarrow> if starts_with msg ''Could not find the file '' then ContainerPathNotFound path else ContainerNotFound i
      | None \<Rightarrow> ContainerNotFound i)"

definition docker_copy_from :: "'v world \<Rightarrow> string \<Rightarrow> string \<Rightarrow> u8 list io" where
  "docker_copy_from w i path =
     io_bind (request_with_body_limit w ''GET'' (container_path i (''/archive?path='' @ percent_encode path)) None
         (Some DOCKER_RESPONSE_BODY_LIMIT)) (\<lambda>rsp. io_lift
       (if rsp_status rsp = 404 then Inl (Client (classify_archive_404 (w_json w) i path (body_or_empty rsp)))
        else if 400 \<le> rsp_status rsp then status_error ''failed to copy from container'' rsp
        else Inr (body_or_empty rsp)))"

definition docker_copy_to :: "'v world \<Rightarrow> string \<Rightarrow> string \<Rightarrow> u8 list \<Rightarrow> unit io" where
  "docker_copy_to w i dir tar =
     io_bind (request_with_content_type w ''PUT'' (container_path i (''/archive?path='' @ percent_encode dir @ ''&copyUIDGID=true''))
         tar ''application/x-tar'') (\<lambda>rsp. io_lift
       (if rsp_status rsp = 404 then Inl (Client (ContainerNotFound i))
        else if 400 \<le> rsp_status rsp then status_error ''failed to copy to container'' rsp
        else Inr ()))"

section \<open>Facts\<close>

lemma io_bind_cases:
  assumes "io_bind m k h = (r, h')"
  obtains (Err) e where "m h = (Inl e, h')" "r = Inl e" | (Ok) x h1 where "m h = (Inr x, h1)" "k x h1 = (r, h')"
  using assms by (auto simp: io_bind_def split: prod.splits sum.splits)

lemma io_lift_simps [simp]: "io_lift r h = (r, h)"
  by (simp add: io_lift_def)

lemma io_event_simps [simp]: "io_event e h = (Inr (), h @ [e])"
  by (simp add: io_event_def)

lemma http_simps [simp]: "http w rq h = (w_http w h rq, h @ [Http rq])"
  by (simp add: http_def)

lemma io_bind_lift [simp]: "io_bind (io_lift (Inr x)) k = k x" "io_bind (io_lift (Inl e)) k = io_lift (Inl e)"
  by (simp_all add: io_bind_def fun_eq_iff)

lemma json_api_i64: "nj_i64 json_api (JNum n) = Inr (int n)"
  by (simp add: json_api_def)

lemma client_err_simps [simp]: "client_err (Inr x) = Inr x" "client_err r = Inr y \<longleftrightarrow> r = Inr y"
  by (simp_all add: client_err_def)

text \<open>The events of the inspection loop: each request but the last is followed by a sleep of the back-off list.\<close>

definition inspect_request :: "string \<Rightarrow> event" where
  "inspect_request exec_id =
     Http \<lparr>rq_method = ''GET'', rq_path = ''/exec/'' @ percent_encode exec_id @ ''/json'', rq_headers = [], rq_body = None, rq_limit = None\<rparr>"

definition probe_events :: "string \<Rightarrow> nat list \<Rightarrow> event list" where
  "probe_events exec_id slept = concat (map (\<lambda>ms. [inspect_request exec_id, Sleep (from_millis ms)]) slept)"

text \<open>
  A run of the loop from history \<open>h\<close> to \<open>h'\<close> that has seen the states \<open>new\<close>: they are what the daemon
  answered, one request each, and only the last one may say that the process has ended.
\<close>

definition probed :: "'v world \<Rightarrow> string \<Rightarrow> nat list \<Rightarrow> event list \<Rightarrow> event list \<Rightarrow> (bool \<times> int option) list \<Rightarrow> bool" where
  "probed w x sleeps h h' new \<longleftrightarrow>
     (\<exists>k \<le> length sleeps. length new = Suc k \<and> h' = h @ probe_events x (take k sleeps) @ [inspect_request x] \<and>
        (\<forall>j \<le> k. fst (exec_inspect w x (h @ probe_events x (take j sleeps))) = Inr (new ! j)) \<and>
        (\<forall>st \<in> set (butlast new). fst st) \<and> (fst (last new) \<longrightarrow> k = length sleeps))"

lemma exec_inspect_event: "snd (exec_inspect w x h) = h @ [inspect_request x]"
  by (simp add: exec_inspect_def request_def request_with_body_limit_def inspect_request_def io_bind_def split: sum.splits)

lemma probed_one: "exec_inspect w x h = (Inr st, h') \<Longrightarrow> \<not> fst st \<or> sleeps = [] \<Longrightarrow> probed w x sleeps h h' [st]"
  using exec_inspect_event [of w x h] unfolding probed_def by (intro exI [of _ 0]) (auto simp: probe_events_def)

lemma probed_more:
  assumes "fst (exec_inspect w x h) = Inr st" and "fst st"
    and "probed w x sleeps (h @ [inspect_request x, Sleep (from_millis ms)]) h' new"
  shows "probed w x (ms # sleeps) h h' (st # new)"
proof -
  from assms(3) obtain k where k: "k \<le> length sleeps" "length new = Suc k"
    "h' = (h @ [inspect_request x, Sleep (from_millis ms)]) @ probe_events x (take k sleeps) @ [inspect_request x]"
    "\<forall>j \<le> k. fst (exec_inspect w x ((h @ [inspect_request x, Sleep (from_millis ms)]) @ probe_events x (take j sleeps))) = Inr (new ! j)"
    "\<forall>st \<in> set (butlast new). fst st" "fst (last new) \<longrightarrow> k = length sleeps" unfolding probed_def by blast
  have "fst (exec_inspect w x (h @ probe_events x (take j (ms # sleeps)))) = Inr ((st # new) ! j)" if "j \<le> Suc k" for j
    using that k(4) assms(1) by (cases j) (simp_all add: probe_events_def)
  moreover have "butlast (st # new) = st # butlast new" "last (st # new) = last new" using k(2) by auto
  ultimately show ?thesis unfolding probed_def using k assms(2)
    by (intro exI [of _ "Suc k"]) (simp add: probe_events_def)
qed

lemma exec_inspect_loop_probed:
  "exec_inspect_loop w x sleeps states h = (Inr states', h') \<Longrightarrow> \<exists>new. states' = states @ new \<and> probed w x sleeps h h' new"
proof (induction sleeps arbitrary: states h)
  case Nil
  then obtain st where "exec_inspect w x h = (Inr st, h')" "states' = states @ [st]"
    by (auto elim!: io_bind_cases)
  then show ?case using probed_one by blast
next
  case (Cons ms sleeps)
  then obtain st h1 where st: "exec_inspect w x h = (Inr st, h1)" "h1 = h @ [inspect_request x]"
    "(let states' = states @ [st]
       in if \<not> fst st then io_lift (Inr states')
          else io_bind (io_event (Sleep (from_millis ms))) (\<lambda>_. exec_inspect_loop w x sleeps states')) h1 = (Inr states', h')"
    using exec_inspect_event [of w x h] by (auto elim!: io_bind_cases)
  show ?case
  proof (cases "fst st")
    case False
    with st(3) have "states' = states @ [st]" "h' = h1" by simp_all
    with probed_one [of w x h st h1 "ms # sleeps"] st(1) False show ?thesis by blast
  next
    case True
    with st have "exec_inspect_loop w x sleeps (states @ [st]) (h @ [inspect_request x, Sleep (from_millis ms)]) = (Inr states', h')"
      by (simp add: io_bind_def)
    from Cons.IH [OF this] obtain new where new: "states' = (states @ [st]) @ new"
      "probed w x sleeps (h @ [inspect_request x, Sleep (from_millis ms)]) h' new" by blast
    from probed_more [OF _ True new(2)] st(1) new(1) show ?thesis by (intro exI [of _ "st # new"]) simp
  qed
qed

lemma find_first_exited:
  "\<forall>st \<in> set (butlast new). fst st \<Longrightarrow> new \<noteq> [] \<Longrightarrow>
   resolve_exec_exit_code new = (if fst (last new) then None else snd (last new))"
proof (induction new)
  case (Cons st new)
  then show ?case by (cases new) (auto simp: resolve_exec_exit_code_def)
qed simp

lemma split_on_append [str_simps]: "c \<notin> set a \<Longrightarrow> split_on c (a @ c # b) = a # split_on c b"
  by (induction a) auto

lemma split_on_single [str_simps]: "c \<notin> set a \<Longrightarrow> split_on c a = [a]"
  by (induction a) auto

lemma show_nat_no_slash [simp]: "CHR ''/'' \<notin> set (show_nat n)"
  using show_nat_digits [of "CHR ''/''" n] by auto

lemma parse_port_key_port_key [simp]: "parse_port_key (port_key p) = Some p"
  by (cases p) (simp_all add: parse_port_key_def port_key_def str_simps)

text \<open>The member \<open>NetworkSettings.Ports\<close> as the daemon writes it: each port with its host bindings.\<close>

definition binding_json :: "u16 \<Rightarrow> json" where
  "binding_json host = JObj [(''HostIp'', JStr ''0.0.0.0''), (''HostPort'', JStr (show_nat (unat host)))]"

definition ports_json :: "(container_port \<times> u16 list) list \<Rightarrow> json" where
  "ports_json ps =
     JObj [(''NetworkSettings'', JObj [(''Ports'', JObj (map (\<lambda>(p, hosts). (port_key p, JArr (map binding_json hosts))) ps))])]"

definition mapping_list :: "(container_port \<times> u16 list) list \<Rightarrow> (container_port \<times> u16) list" where
  "mapping_list ps = concat (map (\<lambda>(p, hosts). map (Pair p) hosts) ps)"

lemma binding_port_json [simp]: "binding_port json_api (binding_json host) = Some host"
  by (simp add: binding_port_def binding_json_def optional_member_def str_simps)

lemma fold_add_binding:
  "fold (add_binding json_api p) (map binding_json hosts) acc
     = acc\<lparr>ipv4_mapping := bt.insert_all (map (Pair p) hosts) (ipv4_mapping acc)\<rparr>"
  by (induction hosts arbitrary: acc) (simp_all add: add_binding_def add_mapping_def bt.insert_all_simps)

lemma add_port_entry_json:
  "add_port_entry json_api (JStr (port_key p), JArr (map binding_json hosts)) acc
     = acc\<lparr>ipv4_mapping := bt.insert_all (map (Pair p) hosts) (ipv4_mapping acc)\<rparr>"
  by (simp add: add_port_entry_def fold_add_binding)

lemma insert_all_append: "bt.insert_all (xs @ ys) m = bt.insert_all ys (bt.insert_all xs m)"
  by (simp add: bt.insert_all_def)

lemma fold_add_port_entry:
  "fold (add_port_entry json_api) (map (\<lambda>(p, hosts). (JStr (port_key p), JArr (map binding_json hosts))) ps) acc
     = acc\<lparr>ipv4_mapping := bt.insert_all (mapping_list ps) (ipv4_mapping acc)\<rparr>"
proof (induction ps arbitrary: acc)
  case (Cons ph ps)
  then show ?case by (cases ph) (simp add: add_port_entry_json mapping_list_def insert_all_append)
qed (simp add: mapping_list_def bt.insert_all_simps)

lemma parse_ports_json:
  "parse_ports json_api (ports_json ps) = ports_default\<lparr>ipv4_mapping := bt.insert_all (mapping_list ps) []\<rparr>"
proof -
  have "nj_object json_api (JObj (map (\<lambda>(p, hosts). (port_key p, JArr (map binding_json hosts))) ps))
     = Inr (map (\<lambda>(p, hosts). (JStr (port_key p), JArr (map binding_json hosts))) ps)"
    by (simp add: json_api_def split_def comp_def)
  then show ?thesis using fold_add_port_entry [of ps ports_default]
    by (simp add: parse_ports_def ports_json_def optional_member_def ports_default_def)
qed

lemma split_name_and_tag_tagged:
  assumes "repo = [] \<or> last repo = CHR ''/''" and "CHR '':'' \<notin> set name" and "CHR ''/'' \<notin> set (name @ tag)"
  shows "split_name_and_tag (repo @ name @ '':'' @ tag) = (repo @ name, if tag = [] then ''latest'' else tag)"
proof -
  have "(case rsplit_once CHR ''/'' (repo @ name @ CHR '':'' # tag) of Some (_, t) \<Rightarrow> t | None \<Rightarrow> repo @ name @ CHR '':'' # tag)
      = name @ CHR '':'' # tag"
  proof (cases "repo = []")
    case True
    then have "rsplit_once CHR ''/'' (name @ CHR '':'' # tag) = None" using assms(3) by (simp add: rsplit_once_None)
    with True show ?thesis by simp
  next
    case False
    with assms(1) obtain r where "repo = r @ ''/''" by (metis append_butlast_last_id)
    then show ?thesis using rsplit_once_append [of "CHR ''/''" "name @ CHR '':'' # tag" r] assms(3) by simp
  qed
  then show ?thesis using split_once_append [OF assms(2), of tag] by (simp add: split_name_and_tag_def)
qed

lemma split_name_and_tag_untagged:
  assumes "repo = [] \<or> last repo = CHR ''/''" and "CHR '':'' \<notin> set name" and "CHR ''/'' \<notin> set name"
  shows "split_name_and_tag (repo @ name) = (repo @ name, ''latest'')"
proof -
  have "(case rsplit_once CHR ''/'' (repo @ name) of Some (_, t) \<Rightarrow> t | None \<Rightarrow> repo @ name) = name"
  proof (cases "repo = []")
    case True
    with assms(3) have "rsplit_once CHR ''/'' (repo @ name) = None" by (simp add: rsplit_once_None)
    with True show ?thesis by simp
  next
    case False
    with assms(1) obtain r where "repo = r @ ''/''" by (metis append_butlast_last_id)
    then show ?thesis using rsplit_once_append [of "CHR ''/''" name r] assms(3) by simp
  qed
  moreover have "split_once CHR '':'' name = None" using assms(2) by (simp add: split_once_None)
  ultimately show ?thesis by (simp add: split_name_and_tag_def)
qed

lemma fold_ipv6:
  "(\<And>x acc. x \<in> set xs \<Longrightarrow> ipv6_mapping (f x acc) = ipv6_mapping acc) \<Longrightarrow> ipv6_mapping (fold f xs acc) = ipv6_mapping acc"
  by (induction xs arbitrary: acc) auto

lemma add_port_entry_ipv6: "ipv6_mapping (add_port_entry nj kv acc) = ipv6_mapping acc"
proof -
  have "ipv6_mapping (add_binding nj p b a) = ipv6_mapping a" for p b a
    by (simp add: add_binding_def add_mapping_def split: option.splits)
  then show ?thesis by (auto simp: add_port_entry_def fold_ipv6 split: option.splits sum.splits)
qed

section \<open>Properties\<close>

text \<open>
  C37. An exec that succeeds has sent one create and one start request and then inspected the process at
  most six times, sleeping the back-off intervals in between; its output is the demultiplexed
  body, and its exit code is the one of the first inspection that says the process has ended,
  none exactly if all six say it still runs or that inspection carries no code.
\<close>

theorem docker_exec_result:
  assumes "docker_exec w i cmd env h = (Inr res, h')"
  shows "\<exists>create start rsp exec_id body states.
     rq_path create = container_path i ''/exec'' \<and> rq_path start = ''/exec/'' @ percent_encode exec_id @ ''/start'' \<and>
     w_http w (h @ [Http create]) start = Inr rsp \<and> rsp_body rsp = Some body \<and>
     (er_stdout res, er_stderr res) = demux_exec_stream body \<and>
     probed w exec_id EXEC_EXIT_CODE_BACKOFF_MILLIS (h @ [Http create, Http start]) h' states \<and>
     er_exit_code res = (if fst (last states) then None else snd (last states))"
proof -
  let ?create = "\<lparr>rq_method = ''POST'', rq_path = container_path i ''/exec'', rq_headers = [],
     rq_body = Some (as_bytes (exec_config_json cmd True True env), ''application/json''), rq_limit = None\<rparr>"
  let ?start = "\<lambda>x. \<lparr>rq_method = ''POST'', rq_path = ''/exec/'' @ percent_encode x @ ''/start'', rq_headers = [],
     rq_body = Some (as_bytes (exec_start_json False False), ''application/json''), rq_limit = Some DOCKER_RESPONSE_BODY_LIMIT\<rparr>"
  from assms obtain x rsp body out err states where 1: "w_http w (h @ [Http ?create]) (?start x) = Inr rsp" "rsp_body rsp = Some body"
    "demux_exec_stream body = (out, err)"
    "exec_inspect_loop w x EXEC_EXIT_CODE_BACKOFF_MILLIS [] (h @ [Http ?create, Http (?start x)]) = (Inr states, h')"
    "res = \<lparr>er_exit_code = resolve_exec_exit_code states, er_stdout = out, er_stderr = err\<rparr>"
    by (auto simp: docker_exec_def request_def request_with_body_limit_def Let_def status_error_def fail_def ok_or_def
        elim!: io_bind_cases split: if_splits option.splits prod.splits)
  from exec_inspect_loop_probed [OF 1(4)] have p: "probed w x EXEC_EXIT_CODE_BACKOFF_MILLIS (h @ [Http ?create, Http (?start x)]) h' states"
    by auto
  then have "states \<noteq> []" "\<forall>st \<in> set (butlast states). fst st" by (auto simp: probed_def)
  with find_first_exited 1(5) have "er_exit_code res = (if fst (last states) then None else snd (last states))" by simp
  with 1 p show ?thesis by (intro exI [of _ ?create] exI [of _ "?start x"]) auto
qed

text \<open>A daemon that answers requests from a list, in order, with the given status and body.\<close>

definition scripted :: "(nat \<times> json option) list \<Rightarrow> json world" where
  "scripted answers =
     \<lparr>w_http = (\<lambda>h rq. case drop (length h) answers of
          [] \<Rightarrow> Inl (Other ''no answer'')
        | (status, body) # _ \<Rightarrow> Inr \<lparr>rsp_status = status, rsp_body = map_option (as_bytes \<circ> render) body\<rparr>),
      w_json = json_api, w_encode = as_string, w_decode = (\<lambda>s. Some (as_bytes s)), w_env = (\<lambda>_. None), w_file = (\<lambda>_. None)\<rparr>"

definition sample_exec_world :: "json world" where
  "sample_exec_world = scripted [(201, Some (JObj [(''Id'', JStr ''e'')])), (200, Some (JArr [])),
       (200, Some (JObj [(''Running'', JBool False), (''ExitCode'', JNum 3)]))]"

lemma parse_body_render: "utf8_valid (as_bytes (render j)) \<Longrightarrow> parse_body json_api (as_bytes (render j)) = Inr j"
  by (simp add: parse_body_def str_from_utf8_def from_utf8_def ok_or_def)

lemma sample_exec: "\<exists>res h'. docker_exec sample_exec_world ''c'' [''ls''] [] [] = (Inr res, h') \<and> er_exit_code res = Some 3"
proof -
  have v: "utf8_valid (as_bytes (render (JObj [(''Id'', JStr ''e'')])))"
    "utf8_valid (as_bytes (render (JObj [(''Running'', JBool False), (''ExitCode'', JNum 3)])))"
    by (simp_all add: str_simps escape_json_def escape_json_value_def escape_char_def show_nat.simps digit_char_def)
  show ?thesis
    by (simp add: sample_exec_world_def scripted_def docker_exec_def request_def request_with_body_limit_def io_bind_def response_id_def response_json_def
        ok_or_def parse_body_render [OF v(1)] parse_body_render [OF v(2)] required_member_def exec_inspect_def parse_exec_inspect_state_def optional_member_def
        EXEC_EXIT_CODE_BACKOFF_MILLIS_def resolve_exec_exit_code_def split_def Let_def json_api_i64 del: render.simps)
qed

theorem docker_exec_result_witness:
  "\<exists>res h'. docker_exec sample_exec_world ''c'' [''ls''] [] [] = (Inr res, h') \<and> er_exit_code res = Some 3 \<and>
     (\<exists>create start states exec_id. probed sample_exec_world exec_id EXEC_EXIT_CODE_BACKOFF_MILLIS
         [Http create, Http start] h' states)"
proof -
  obtain res h' where r: "docker_exec sample_exec_world ''c'' [''ls''] [] [] = (Inr res, h')" "er_exit_code res = Some 3"
    using sample_exec by blast
  from docker_exec_result [OF r(1)] have "\<exists>create start states exec_id.
      probed sample_exec_world exec_id EXEC_EXIT_CODE_BACKOFF_MILLIS [Http create, Http start] h' states" by auto
  with r show ?thesis by blast
qed

text \<open>
  An image reference is taken apart at the right colon: a registry host with a port is part of the
  name, a missing or empty tag means \<open>latest\<close>, a digest takes precedence over a tag.
\<close>

lemma pull_reference_split:
  assumes "repo = [] \<or> last repo = CHR ''/''" and "CHR '':'' \<notin> set name" and "CHR ''/'' \<notin> set (name @ tag)"
    and "CHR ''@'' \<notin> set (repo @ name @ tag)" and "tag \<noteq> []" and "digest \<noteq> []"
  shows "split_pull_reference (repo @ name @ '':'' @ tag) = (repo @ name, tag) \<and>
     split_pull_reference (repo @ name) = (repo @ name, ''latest'') \<and>
     split_pull_reference (repo @ name @ '':'') = (repo @ name, ''latest'') \<and>
     split_pull_reference (repo @ name @ ''@'' @ digest) = (repo @ name, digest) \<and>
     split_pull_reference (repo @ name @ '':'' @ tag @ ''@'' @ digest) = (repo @ name, digest)"
proof (intro conjI)
  note tagged = split_name_and_tag_tagged [OF assms(1,2)] and untagged = split_name_and_tag_untagged [OF assms(1,2)]
  have no_at: "split_once CHR ''@'' s = None" if "CHR ''@'' \<notin> set s" for s using that by (simp add: split_once_None)
  show "split_pull_reference (repo @ name @ '':'' @ tag) = (repo @ name, tag)"
    using no_at [of "repo @ name @ '':'' @ tag"] tagged [of tag] assms(3-5) by (simp add: split_pull_reference_def)
  show "split_pull_reference (repo @ name) = (repo @ name, ''latest'')"
    using no_at [of "repo @ name"] untagged assms(3,4) by (simp add: split_pull_reference_def)
  show "split_pull_reference (repo @ name @ '':'') = (repo @ name, ''latest'')"
    using no_at [of "repo @ name @ '':''"] tagged [of "[]"] assms(3,4) by (simp add: split_pull_reference_def)
  show "split_pull_reference (repo @ name @ ''@'' @ digest) = (repo @ name, digest)"
    using split_once_append [of "CHR ''@''" "repo @ name" digest] untagged assms(3,4,6) by (simp add: split_pull_reference_def)
  show "split_pull_reference (repo @ name @ '':'' @ tag @ ''@'' @ digest) = (repo @ name, digest)"
    using split_once_append [of "CHR ''@''" "repo @ name @ '':'' @ tag" digest] tagged [of tag] assms(3-6)
    by (simp add: split_pull_reference_def)
qed

text \<open>
  The port map of an inspect response reads back: the host port of a container port is the last
  binding the daemon lists for it, and ports that are not listed have none.
\<close>

lemma inspect_ports_read:
  "map_to_host_port_ipv4 (parse_ports json_api (ports_json ps)) p = map_of (rev (mapping_list ps)) p"
  unfolding parse_ports_json map_to_host_port_ipv4_def
  by (simp add: bt.lookup_insert_all bt.inv_empty)

text \<open>
  C39. On Linux no container has an IPv6 port: whatever the daemon reports, \<open>parse_ports\<close> files every
  binding under IPv4, so a lookup of an IPv6 host port always fails.
\<close>

theorem ipv6_ports_never_found:
  "host_port_ipv6 \<lparr>cs_id = i, cs_host = host, cs_ports = parse_ports nj v\<rparr> p = Inl (PortNotExposed i p)"
proof -
  have "ipv6_mapping (parse_ports nj v) = []"
    by (auto simp: parse_ports_def fold_ipv6 add_port_entry_ipv6 ports_default_def split: option.splits sum.splits)
  then show ?thesis by (simp add: host_port_ipv6_def map_to_host_port_ipv6_def ok_or_def)
qed

end
