(* ===== verification/Wait_Strategies.thy ===== *)
theory Wait_Strategies
  imports Docker_Client Log_Wait
begin

text \<open>
  \<open>src/core/wait/\<close>: the health, exit and HTTP wait strategies and the dispatch over
  \<open>WaitFor\<close>, on Linux. The loops poll until the caller's timeout cuts them off: they take the
  number of polls that fit before the cut and return \<open>None\<close> when it is used up. What the
  container shows while it is polled is the world of \<open>Docker_Client\<close> plus the record below:
  the bytes the log readers give, the exit code the waiter thread has recorded, the answer of
  the HTTP server in the container, and the request builder of the crate \<open>shiguredo_http11\<close>.
\<close>

section \<open>Strategies\<close>

record health_wait_strategy =
  hw_poll_interval :: duration

definition health_wait_new :: health_wait_strategy where
  "health_wait_new = \<lparr>hw_poll_interval = from_millis 100\<rparr>"

definition health_with_poll_interval :: "duration \<Rightarrow> health_wait_strategy \<Rightarrow> health_wait_strategy" where
  "health_with_poll_interval d s = s\<lparr>hw_poll_interval := d\<rparr>"

record exit_wait_strategy =
  ew_expected_code :: "int option"
  ew_poll_interval :: duration

definition exit_wait_new :: exit_wait_strategy where
  "exit_wait_new = \<lparr>ew_expected_code = None, ew_poll_interval = from_millis 100\<rparr>"

definition exit_with_poll_interval :: "duration \<Rightarrow> exit_wait_strategy \<Rightarrow> exit_wait_strategy" where
  "exit_with_poll_interval d s = s\<lparr>ew_poll_interval := d\<rparr>"

definition with_exit_code :: "int \<Rightarrow> exit_wait_strategy \<Rightarrow> exit_wait_strategy" where
  "with_exit_code code s = s\<lparr>ew_expected_code := Some code\<rparr>"

definition DEFAULT_REQUEST_TIMEOUT :: duration where
  "DEFAULT_REQUEST_TIMEOUT = from_secs 10"

record server_response =
  hr_status :: nat
  hr_headers :: "(string \<times> string) list"
  hr_body :: "u8 list"

definition response_header :: "server_response \<Rightarrow> string \<Rightarrow> string option" where
  "response_header r name = map_option snd (find (\<lambda>kv. eq_ignore_ascii_case (fst kv) name) (hr_headers r))"

datatype auth = Basic string string | Bearer string

record http_wait_strategy =
  hs_path :: string
  hs_port :: "container_port option"
  hs_method :: string
  hs_headers :: "(string \<times> string) list"
  hs_body :: "u8 list option"
  hs_auth :: "auth option"
  hs_matcher :: "(server_response \<Rightarrow> bool) option"
  hs_poll_interval :: duration
  hs_request_timeout :: duration

definition http_wait_new :: "string \<Rightarrow> http_wait_strategy" where
  "http_wait_new path =
     \<lparr>hs_path = path, hs_port = None, hs_method = ''GET'', hs_headers = [], hs_body = None, hs_auth = None,
      hs_matcher = None, hs_poll_interval = from_millis 100, hs_request_timeout = DEFAULT_REQUEST_TIMEOUT\<rparr>"

definition with_port :: "container_port \<Rightarrow> http_wait_strategy \<Rightarrow> http_wait_strategy" where
  "with_port p s = s\<lparr>hs_port := Some p\<rparr>"

definition with_method :: "string \<Rightarrow> http_wait_strategy \<Rightarrow> http_wait_strategy" where
  "with_method m s = s\<lparr>hs_method := m\<rparr>"

definition with_header :: "string \<Rightarrow> string \<Rightarrow> http_wait_strategy \<Rightarrow> http_wait_strategy" where
  "with_header key v s = s\<lparr>hs_headers := hs_headers s @ [(key, v)]\<rparr>"

definition with_body :: "u8 list \<Rightarrow> http_wait_strategy \<Rightarrow> http_wait_strategy" where
  "with_body b s = s\<lparr>hs_body := Some b\<rparr>"

definition with_basic_auth :: "string \<Rightarrow> string \<Rightarrow> http_wait_strategy \<Rightarrow> http_wait_strategy" where
  "with_basic_auth u p s = s\<lparr>hs_auth := Some (Basic u p)\<rparr>"

definition with_bearer_auth :: "string \<Rightarrow> http_wait_strategy \<Rightarrow> http_wait_strategy" where
  "with_bearer_auth t s = s\<lparr>hs_auth := Some (Bearer t)\<rparr>"

definition http_with_poll_interval :: "duration \<Rightarrow> http_wait_strategy \<Rightarrow> http_wait_strategy" where
  "http_with_poll_interval d s = s\<lparr>hs_poll_interval := d\<rparr>"

definition with_request_timeout :: "duration \<Rightarrow> http_wait_strategy \<Rightarrow> http_wait_strategy" where
  "with_request_timeout d s = s\<lparr>hs_request_timeout := d\<rparr>"

definition with_response_matcher :: "(server_response \<Rightarrow> bool) \<Rightarrow> http_wait_strategy \<Rightarrow> http_wait_strategy" where
  "with_response_matcher m s = s\<lparr>hs_matcher := Some m\<rparr>"

definition with_expected_status_code :: "nat \<Rightarrow> http_wait_strategy \<Rightarrow> http_wait_strategy" where
  "with_expected_status_code status s = with_response_matcher (\<lambda>r. hr_status r = status) s"

datatype wait_for =
  WaitNothing
| WaitLogs log_wait_strategy
| WaitDuration duration
| WaitHealthcheck health_wait_strategy
| WaitHttp http_wait_strategy
| WaitExit exit_wait_strategy

definition message_on_stdout :: "u8 list \<Rightarrow> wait_for" where
  "message_on_stdout message = WaitLogs (log_wait_new SrcStdOut message)"

definition message_on_stderr :: "u8 list \<Rightarrow> wait_for" where
  "message_on_stderr message = WaitLogs (log_wait_new SrcStdErr message)"

definition message_on_either_std :: "u8 list \<Rightarrow> wait_for" where
  "message_on_either_std message = WaitLogs (log_wait_new SrcBothStd message)"

definition wait_seconds :: "nat \<Rightarrow> wait_for" where
  "wait_seconds n = WaitDuration (from_secs n)"

definition wait_millis :: "nat \<Rightarrow> wait_for" where
  "wait_millis n = WaitDuration (from_millis n)"

definition millis_in_env_var :: "string option \<Rightarrow> wait_for" where
  "millis_in_env_var var =
     (case Option.bind var (\<lambda>v. ok (parse_unsigned u64_max v)) of None \<Rightarrow> WaitNothing | Some n \<Rightarrow> WaitDuration (from_millis n))"

section \<open>What the container shows\<close>

text \<open>
  The request builder of the HTTP library: the error texts of a method, a target and an encoding
  it rejects, the header names and header fields it accepts.
\<close>

record http11 =
  h11_method :: "string \<Rightarrow> string + unit"
  h11_target :: "string \<Rightarrow> string + unit"
  h11_name_ok :: "string \<Rightarrow> bool"
  h11_field :: "string \<times> string \<Rightarrow> string + unit"
  h11_encode :: "string \<Rightarrow> string \<Rightarrow> (string \<times> string) list \<Rightarrow> u8 list option \<Rightarrow> string + u8 list"

record container_view =
  ce_log_turns :: "event list \<Rightarrow> log_turn list"
  ce_exit_hint :: "event list \<Rightarrow> int option"
  ce_send :: "event list \<Rightarrow> string \<Rightarrow> u16 \<Rightarrow> u8 list \<Rightarrow> string + server_response"
  ce_http11 :: http11
  ce_base64 :: "u8 list \<Rightarrow> string"

section \<open>Health and exit\<close>

fun health_wait_loop :: "nat \<Rightarrow> 'v world \<Rightarrow> string \<Rightarrow> duration \<Rightarrow> bool \<Rightarrow> unit option io" where
  "health_wait_loop 0 w i poll seen_running = io_lift (Inr None)"
| "health_wait_loop (Suc n) w i poll seen_running =
     io_bind (container_health w i) (\<lambda>probe.
       let sr = (seen_running \<or> probe_running probe);
           again = io_bind (io_event (Sleep poll)) (\<lambda>_. health_wait_loop n w i poll sr)
       in case probe_health probe of
            Some Healthy \<Rightarrow> io_lift (Inr (Some ()))
          | Some UnhealthyStatus \<Rightarrow> io_lift (Inl (WaitContainer (Unhealthy i)))
          | Some Starting \<Rightarrow> again
          | None \<Rightarrow> if sr then io_lift (Inl (WaitContainer (HealthCheckNotConfigured i))) else again)"

definition health_wait_until_ready :: "nat \<Rightarrow> 'v world \<Rightarrow> string \<Rightarrow> health_wait_strategy \<Rightarrow> unit option io" where
  "health_wait_until_ready n w i s = health_wait_loop n w i (hw_poll_interval s) False"

fun exit_wait_until_ready :: "nat \<Rightarrow> 'v world \<Rightarrow> container_view \<Rightarrow> string \<Rightarrow> exit_wait_strategy \<Rightarrow> unit option io" where
  "exit_wait_until_ready 0 w ce i s = io_lift (Inr None)"
| "exit_wait_until_ready (Suc n) w ce i s = (\<lambda>h.
     case ce_exit_hint ce h of
       Some actual \<Rightarrow>
         (case ew_expected_code s of
            Some expected \<Rightarrow>
              if actual \<noteq> expected then (Inl (WaitContainer (UnexpectedExitCode expected (Some actual))), h)
              else (Inr (Some ()), h)
          | None \<Rightarrow> (Inr (Some ()), h))
     | None \<Rightarrow>
         io_bind (docker_container_state w i) (\<lambda>state.
           if \<not> snap_running state \<and> ew_expected_code s = None then io_lift (Inr (Some ()))
           else io_bind (io_event (Sleep (ew_poll_interval s))) (\<lambda>_. exit_wait_until_ready n w ce i s)) h)"

section \<open>HTTP\<close>

definition is_reserved_header :: "http_wait_strategy \<Rightarrow> string \<Rightarrow> bool" where
  "is_reserved_header s name \<longleftrightarrow>
     eq_ignore_ascii_case name ''Host'' \<or> eq_ignore_ascii_case name ''Connection''
     \<or> (hs_body s \<noteq> None \<and> eq_ignore_ascii_case name ''Content-Length'')
     \<or> (hs_auth s \<noteq> None \<and> eq_ignore_ascii_case name ''Authorization'')"

definition host_header :: "string \<Rightarrow> u16 \<Rightarrow> string" where
  "host_header host port =
     (if CHR '':'' \<in> set host then ''['' @ host @ '']:'' @ show_nat (unat port) else host @ '':'' @ show_nat (unat port))"

definition add_user_header ::
  "http11 \<Rightarrow> http_wait_strategy \<Rightarrow> (string \<times> string) list \<Rightarrow> string \<times> string \<Rightarrow> http_wait_error + (string \<times> string) list" where
  "add_user_header h11 s acc kv =
     (if is_reserved_header s (fst kv) then Inr acc
      else if \<not> h11_name_ok h11 (fst kv) then Inl (RequestBuild (''invalid header name: '' @ fst kv))
      else rbind (map_err (\<lambda>_. RequestBuild (''failed to set header `'' @ fst kv @ ''`'')) (h11_field h11 kv)) (\<lambda>_. Inr (acc @ [kv])))"

definition auth_value :: "(u8 list \<Rightarrow> string) \<Rightarrow> auth \<Rightarrow> string" where
  "auth_value base64 a =
     (case a of
        Basic username password \<Rightarrow> ''Basic '' @ base64 (as_bytes (username @ '':'' @ password))
      | Bearer token \<Rightarrow> ''Bearer '' @ token)"

definition add_auth_header ::
  "http11 \<Rightarrow> (u8 list \<Rightarrow> string) \<Rightarrow> auth option \<Rightarrow> (string \<times> string) list \<Rightarrow> http_wait_error + (string \<times> string) list" where
  "add_auth_header h11 base64 a acc =
     (case a of
        None \<Rightarrow> Inr acc
      | Some x \<Rightarrow>
          rbind (map_err (\<lambda>_. RequestBuild ''failed to set Authorization header'') (h11_field h11 (''Authorization'', auth_value base64 x)))
            (\<lambda>_. Inr (acc @ [(''Authorization'', auth_value base64 x)])))"

definition request_headers ::
  "http11 \<Rightarrow> (u8 list \<Rightarrow> string) \<Rightarrow> http_wait_strategy \<Rightarrow> string \<Rightarrow> u16 \<Rightarrow> http_wait_error + (string \<times> string) list" where
  "request_headers h11 base64 s host port =
     (let fixed = [(''Host'', host_header host port), (''Connection'', ''close'')]
      in rbind (map_err RequestBuild (foldr_res (\<lambda>u kv. h11_field h11 kv) () fixed)) (\<lambda>_.
         rbind (foldr_res (add_user_header h11 s) fixed (hs_headers s)) (\<lambda>acc.
         add_auth_header h11 base64 (hs_auth s) acc)))"

definition build_request_bytes ::
  "http11 \<Rightarrow> (u8 list \<Rightarrow> string) \<Rightarrow> http_wait_strategy \<Rightarrow> string \<Rightarrow> u16 \<Rightarrow> http_wait_error + u8 list" where
  "build_request_bytes h11 base64 s host port =
     rbind (map_err RequestBuild (h11_method h11 (hs_method s))) (\<lambda>_.
     rbind (map_err RequestBuild (h11_target h11 (hs_path s))) (\<lambda>_.
     rbind (request_headers h11 base64 s host port) (\<lambda>headers.
     map_err RequestBuild (h11_encode h11 (hs_method s) (hs_path s) headers (hs_body s)))))"

definition send_request :: "container_view \<Rightarrow> http_wait_strategy \<Rightarrow> string \<Rightarrow> u16 \<Rightarrow> u8 list \<Rightarrow> event list \<Rightarrow> string + server_response" where
  "send_request ce s host port bytes h =
     (if hs_request_timeout s = 0 then Inl ''HTTP request timed out'' else ce_send ce h host port bytes)"

fun http_wait_loop ::
  "nat \<Rightarrow> container_view \<Rightarrow> http_wait_strategy \<Rightarrow> (server_response \<Rightarrow> bool) \<Rightarrow> string \<Rightarrow> u16 \<Rightarrow> u8 list \<Rightarrow> unit option io" where
  "http_wait_loop 0 ce s matcher host port bytes = io_lift (Inr None)"
| "http_wait_loop (Suc n) ce s matcher host port bytes = (\<lambda>h.
     (case send_request ce s host port bytes h of
        Inr response \<Rightarrow>
          if matcher response then (Inr (Some ()), h)
          else io_bind (io_event (Sleep (hs_poll_interval s))) (\<lambda>_. http_wait_loop n ce s matcher host port bytes) h
      | Inl _ \<Rightarrow> io_bind (io_event (Sleep (hs_poll_interval s))) (\<lambda>_. http_wait_loop n ce s matcher host port bytes) h))"

text \<open>The host is \<open>localhost\<close>, a domain name, so the IPv4 mapping is tried first.\<close>

definition port_of :: "'v world \<Rightarrow> string \<Rightarrow> (ports \<Rightarrow> container_port \<Rightarrow> u16 option) \<Rightarrow> container_port \<Rightarrow> u16 io" where
  "port_of w i lookup p = io_bind (docker_ports w i) (\<lambda>ps. io_lift (ok_or (PortNotExposed i p) (lookup ps p)))"

definition http_wait_port :: "'v world \<Rightarrow> string \<Rightarrow> http_wait_strategy \<Rightarrow> container_port io" where
  "http_wait_port w i s =
     (case hs_port s of
        Some p \<Rightarrow> io_lift (Inr p)
      | None \<Rightarrow>
          io_bind (docker_ports w i) (\<lambda>ps.
            io_lift (ok_or (WaitContainer (HttpWait NoExposedPortsForHttpWait)) (first_container_port ps))))"

definition http_wait_until_ready :: "nat \<Rightarrow> 'v world \<Rightarrow> container_view \<Rightarrow> string \<Rightarrow> http_wait_strategy \<Rightarrow> unit option io" where
  "http_wait_until_ready n w ce i s =
     io_bind (io_lift (ok_or (WaitContainer (HttpWait NoResponseMatcher)) (hs_matcher s))) (\<lambda>matcher.
     io_bind (http_wait_port w i s) (\<lambda>p.
     io_bind (io_bind (io_catch (port_of w i map_to_host_port_ipv4 p)) (\<lambda>r.
         case r of Inr port \<Rightarrow> io_lift (Inr port) | Inl _ \<Rightarrow> port_of w i map_to_host_port_ipv6 p)) (\<lambda>host_port.
     io_bind (io_lift (map_err (\<lambda>e. WaitContainer (HttpWait e))
         (build_request_bytes (ce_http11 ce) (ce_base64 ce) s ''localhost'' host_port))) (\<lambda>bytes.
     http_wait_loop n ce s matcher ''localhost'' host_port bytes))))"

section \<open>Dispatch\<close>

definition wait_until_ready :: "nat \<Rightarrow> 'v world \<Rightarrow> container_view \<Rightarrow> string \<Rightarrow> wait_for \<Rightarrow> unit option io" where
  "wait_until_ready n w ce i cond =
     (case cond of
        WaitNothing \<Rightarrow> io_lift (Inr (Some ()))
      | WaitLogs s \<Rightarrow> (\<lambda>h. case log_wait_until_ready s (ce_log_turns ce h) of
            None \<Rightarrow> (Inr None, h) | Some (Inr _, _) \<Rightarrow> (Inr (Some ()), h) | Some (Inl e, _) \<Rightarrow> (Inl e, h))
      | WaitDuration d \<Rightarrow> io_bind (io_event (Sleep d)) (\<lambda>_. io_lift (Inr (Some ())))
      | WaitHealthcheck s \<Rightarrow> health_wait_until_ready n w i s
      | WaitHttp s \<Rightarrow> http_wait_until_ready n w ce i s
      | WaitExit s \<Rightarrow> exit_wait_until_ready n w ce i s)"

fun block_until_ready :: "nat \<Rightarrow> 'v world \<Rightarrow> container_view \<Rightarrow> string \<Rightarrow> wait_for list \<Rightarrow> unit option io" where
  "block_until_ready n w ce i [] = io_lift (Inr (Some ()))"
| "block_until_ready n w ce i (c # cs) =
     io_bind (wait_until_ready n w ce i c) (\<lambda>r. case r of None \<Rightarrow> io_lift (Inr None) | Some _ \<Rightarrow> block_until_ready n w ce i cs)"

section \<open>Facts\<close>

lemma add_user_header_ok:
  "add_user_header h11 s acc kv = Inr acc' \<Longrightarrow> acc' = (if is_reserved_header s (fst kv) then acc else acc @ [kv])"
  by (simp add: add_user_header_def rbind_eq_Inr_iff split: if_splits)

lemma foldr_res_user_headers:
  "foldr_res (add_user_header h11 s) acc kvs = Inr hs \<Longrightarrow> hs = acc @ filter (\<lambda>kv. \<not> is_reserved_header s (fst kv)) kvs"
proof (induction kvs arbitrary: acc)
  case (Cons kv kvs)
  from Cons.prems obtain acc' where
    "add_user_header h11 s acc kv = Inr acc'" "foldr_res (add_user_header h11 s) acc' kvs = Inr hs"
    by (auto simp: rbind_eq_Inr_iff)
  then show ?case using Cons.IH [of acc'] add_user_header_ok [of h11 s acc kv acc'] by simp
qed simp

definition auth_fields :: "(u8 list \<Rightarrow> string) \<Rightarrow> http_wait_strategy \<Rightarrow> (string \<times> string) list" where
  "auth_fields base64 s = (case hs_auth s of None \<Rightarrow> [] | Some a \<Rightarrow> [(''Authorization'', auth_value base64 a)])"

lemma field_names:
  "eq_ignore_ascii_case ''Host'' ''Connection'' = False" "eq_ignore_ascii_case ''Connection'' ''Host'' = False"
  "eq_ignore_ascii_case ''Host'' ''Authorization'' = False" "eq_ignore_ascii_case ''Authorization'' ''Host'' = False"
  "eq_ignore_ascii_case ''Host'' ''Content-Length'' = False" "eq_ignore_ascii_case ''Connection'' ''Content-Length'' = False"
  "eq_ignore_ascii_case ''Connection'' ''Authorization'' = False" "eq_ignore_ascii_case ''Authorization'' ''Connection'' = False"
  "eq_ignore_ascii_case ''Authorization'' ''Content-Length'' = False"
  by code_simp+

lemma eq_ignore_ascii_case_same [simp]: "eq_ignore_ascii_case a a"
  by (simp add: eq_ignore_ascii_case_def)

lemma auth_fields_named:
  "filter (\<lambda>kv. eq_ignore_ascii_case (fst kv) name) (auth_fields base64 s) =
     (if eq_ignore_ascii_case ''Authorization'' name then auth_fields base64 s else [])"
  by (simp add: auth_fields_def split: option.split)

lemma unreserved_named:
  assumes "name = ''Host'' \<or> name = ''Connection'' \<or> name = ''Content-Length'' \<and> hs_body s \<noteq> None
    \<or> name = ''Authorization'' \<and> hs_auth s \<noteq> None"
  shows "filter (\<lambda>kv. eq_ignore_ascii_case (fst kv) name) (filter (\<lambda>kv. \<not> is_reserved_header s (fst kv)) kvs) = []"
proof -
  have "is_reserved_header s k" if "eq_ignore_ascii_case k name" for k
    using assms that unfolding is_reserved_header_def by blast
  then show ?thesis by (auto simp: filter_empty_conv)
qed

lemma request_headers_eq:
  assumes "request_headers h11 base64 s host port = Inr hs"
  shows "hs = [(''Host'', host_header host port), (''Connection'', ''close'')]
     @ filter (\<lambda>kv. \<not> is_reserved_header s (fst kv)) (hs_headers s) @ auth_fields base64 s"
proof -
  from assms obtain acc where
    acc: "foldr_res (add_user_header h11 s) [(''Host'', host_header host port), (''Connection'', ''close'')] (hs_headers s) = Inr acc"
    and auth: "add_auth_header h11 base64 (hs_auth s) acc = Inr hs"
    unfolding request_headers_def Let_def rbind_eq_Inr_iff by blast
  have "hs = acc @ auth_fields base64 s"
  proof (cases "hs_auth s")
    case None
    then show ?thesis using auth by (simp add: add_auth_header_def auth_fields_def)
  next
    case (Some a)
    then show ?thesis using auth by (simp add: add_auth_header_def auth_fields_def rbind_eq_Inr_iff)
  qed
  with foldr_res_user_headers [OF acc] show ?thesis by (simp only: append_assoc)
qed

text \<open>The events of \<open>k\<close> polls that decided nothing.\<close>

definition inspect_event :: "string \<Rightarrow> event" where
  "inspect_event i = Http \<lparr>rq_method = ''GET'', rq_path = container_path i ''/json'', rq_headers = [], rq_body = None, rq_limit = None\<rparr>"

definition polls :: "string \<Rightarrow> duration \<Rightarrow> nat \<Rightarrow> event list" where
  "polls i poll k = concat (replicate k [inspect_event i, Sleep poll])"

lemma polls_simps [simp]: "polls i poll 0 = []" "polls i poll (Suc k) = [inspect_event i, Sleep poll] @ polls i poll k"
  by (simp_all add: polls_def)

lemma inspect_json_event: "snd (inspect_json w i h) = h @ [inspect_event i]"
  by (simp add: inspect_json_def request_def request_with_body_limit_def inspect_event_def io_bind_def split: sum.splits)

lemma container_health_event: "snd (container_health w i h) = h @ [inspect_event i]"
  using inspect_json_event [of w i h] by (auto simp: container_health_def io_bind_def Let_def split: prod.splits sum.splits)

lemma container_state_event: "snd (docker_container_state w i h) = h @ [inspect_event i]"
  using inspect_json_event [of w i h] by (auto simp: docker_container_state_def io_bind_def split: prod.splits sum.splits)

definition undecided :: "bool \<Rightarrow> health_probe \<Rightarrow> bool" where
  "undecided sr p \<longleftrightarrow> probe_health p = Some Starting \<or> probe_health p = None \<and> \<not> sr \<and> \<not> probe_running p"

definition health_verdict :: "string \<Rightarrow> health_probe \<Rightarrow> unit option result" where
  "health_verdict i p =
     (case probe_health p of
        Some Healthy \<Rightarrow> Inr (Some ())
      | Some UnhealthyStatus \<Rightarrow> Inl (WaitContainer (Unhealthy i))
      | _ \<Rightarrow> Inl (WaitContainer (HealthCheckNotConfigured i)))"

lemma health_wait_loop_outcome:
  assumes "\<And>j. j \<le> k \<Longrightarrow> fst (container_health w i (h @ polls i poll j)) = Inr (ps j)"
    and "\<And>j. j < k \<Longrightarrow> undecided (sr \<or> (\<exists>j' < j. probe_running (ps j'))) (ps j)"
    and "\<not> undecided (sr \<or> (\<exists>j' < k. probe_running (ps j'))) (ps k)" and "k < n"
  shows "fst (health_wait_loop n w i poll sr h) = health_verdict i (ps k)"
  using assms
proof (induction k arbitrary: n h ps sr)
  case 0
  then obtain m where n: "n = Suc m" by (cases n) auto
  from 0(1) [of 0] obtain h1 where "container_health w i h = (Inr (ps 0), h1)" by (cases "container_health w i h") auto
  with 0(3) n show ?case
    by (auto simp: io_bind_def Let_def undecided_def health_verdict_def split: option.splits health_status.splits)
next
  case (Suc k)
  then obtain m where n: "n = Suc m" "k < m" by (cases n) auto
  from Suc.prems(1) [of 0] container_health_event [of w i h]
  have p: "container_health w i h = (Inr (ps 0), h @ [inspect_event i])" by (cases "container_health w i h") auto
  let ?h = "h @ [inspect_event i, Sleep poll]" and ?sr = "sr \<or> probe_running (ps 0)"
  have step: "health_wait_loop n w i poll sr h = health_wait_loop m w i poll ?sr ?h"
    using p n Suc.prems(2) [of 0]
    by (auto simp: io_bind_def Let_def undecided_def split: option.splits health_status.splits)
  have ex: "(sr \<or> (\<exists>j' < Suc j. probe_running (ps j'))) = (?sr \<or> (\<exists>j' < j. probe_running (ps (Suc j'))))" for j
    by (auto simp: less_Suc_eq_0_disj)
  have "fst (health_wait_loop m w i poll ?sr ?h) = health_verdict i (ps (Suc k))"
  proof (rule Suc.IH [of ?h "\<lambda>j. ps (Suc j)" ?sr m])
    show "fst (container_health w i (?h @ polls i poll j)) = Inr (ps (Suc j))" if "j \<le> k" for j
      using Suc.prems(1) [of "Suc j"] that by simp
    show "undecided (?sr \<or> (\<exists>j' < j. probe_running (ps (Suc j')))) (ps (Suc j))" if "j < k" for j
      using Suc.prems(2) [of "Suc j"] that unfolding ex by simp
    show "\<not> undecided (?sr \<or> (\<exists>j' < k. probe_running (ps (Suc j')))) (ps (Suc k))"
      using Suc.prems(3) unfolding ex .
  qed (fact n(2))
  then show ?case unfolding step by (simp add: health_verdict_def)
qed

lemma exit_wait_sound_aux:
  "exit_wait_until_ready n w ce i s h = (Inr (Some ()), h') \<Longrightarrow>
   (\<exists>code. ce_exit_hint ce h' = Some code \<and> (\<forall>expected. ew_expected_code s = Some expected \<longrightarrow> code = expected)) \<or>
   (ew_expected_code s = None \<and> (\<exists>h'' st. docker_container_state w i h'' = (Inr st, h') \<and> \<not> snap_running st))"
proof (induction n arbitrary: h)
  case (Suc n)
  show ?case
  proof (cases "ce_exit_hint ce h")
    case (Some code)
    with Suc.prems show ?thesis by (auto split: option.splits if_splits)
  next
    case None
    obtain r h1 where st: "docker_container_state w i h = (r, h1)" by fastforce
    then show ?thesis using Suc None
      by (cases r) (auto simp: io_bind_def split: if_splits)
  qed
qed simp

section \<open>Properties\<close>

text \<open>
  The HTTP probe carries exactly the headers it should: its own host and connection fields, the user's
  fields in order except those that would clash with a field the strategy controls, and the
  authorization it was given; so there is one Host, one Connection and, with credentials set, one
  Authorization field, whatever the user added.
\<close>

lemma http_probe_headers:
  assumes "request_headers h11 base64 s host port = Inr hs"
  shows "hs = [(''Host'', host_header host port), (''Connection'', ''close'')]
       @ filter (\<lambda>kv. \<not> is_reserved_header s (fst kv)) (hs_headers s) @ auth_fields base64 s \<and>
     filter (\<lambda>kv. eq_ignore_ascii_case (fst kv) ''Host'') hs = [(''Host'', host_header host port)] \<and>
     filter (\<lambda>kv. eq_ignore_ascii_case (fst kv) ''Connection'') hs = [(''Connection'', ''close'')] \<and>
     (hs_auth s \<noteq> None \<longrightarrow> filter (\<lambda>kv. eq_ignore_ascii_case (fst kv) ''Authorization'') hs = auth_fields base64 s) \<and>
     (hs_body s \<noteq> None \<longrightarrow> filter (\<lambda>kv. eq_ignore_ascii_case (fst kv) ''Content-Length'') hs = [])"
  unfolding request_headers_eq [OF assms]
  by (intro conjI impI refl;
      simp only: filter_append filter.simps fst_conv auth_fields_named field_names eq_ignore_ascii_case_same if_True if_False;
      simp add: unreserved_named del: filter_filter)

definition plain_http11 :: http11 where
  "plain_http11 =
     \<lparr>h11_method = (\<lambda>_. Inr ()), h11_target = (\<lambda>_. Inr ()), h11_name_ok = (\<lambda>name. name \<noteq> []), h11_field = (\<lambda>_. Inr ()),
      h11_encode = (\<lambda>m t hs b. Inr (as_bytes (m @ '' '' @ t)))\<rparr>"

text \<open>
  The health wait decides at the first poll that can be decided. Polls that show a check still
  starting, or no health state before the container has ever run, are waited out; at the first other
  poll a healthy state ends the wait, an unhealthy one is the error \<open>Unhealthy\<close>, and a container
  that runs or has run with no health state is the error \<open>HealthCheckNotConfigured\<close>.
\<close>

lemma health_wait_outcome:
  assumes "\<And>j. j \<le> k \<Longrightarrow> fst (container_health w i (h @ polls i (hw_poll_interval s) j)) = Inr (ps j)"
    and "\<And>j. j < k \<Longrightarrow> undecided (\<exists>j' < j. probe_running (ps j')) (ps j)"
    and "\<not> undecided (\<exists>j' < k. probe_running (ps j')) (ps k)" and "k < n"
  shows "fst (health_wait_until_ready n w i s h) = health_verdict i (ps k)"
  unfolding health_wait_until_ready_def
  by (rule health_wait_loop_outcome [where sr = False and ps = ps and k = k]) (use assms in simp_all)

text \<open>
  The exit wait is never satisfied early. When it returns, either an exit code has been recorded, and it
  is the expected one when one was asked for, or no code was asked for and the daemon has just
  reported that the container is not running.
\<close>

lemma exit_wait_sound:
  assumes "exit_wait_until_ready n w ce i s h = (Inr (Some ()), h')"
  shows "(\<exists>code. ce_exit_hint ce h' = Some code \<and> ew_expected_code s \<in> {None, Some code}) \<or>
    (ew_expected_code s = None \<and> (\<exists>h'' st. docker_container_state w i h'' = (Inr st, h') \<and> \<not> snap_running st))"
  using exit_wait_sound_aux [OF assms] by (cases "ew_expected_code s") auto

section \<open>Debug output\<close>

text \<open>What \<open>Debug\<close> hands to the formatter: the text is a function of this tree.\<close>

datatype debug_value =
  DebugText string
| DebugNat nat
| DebugPort container_port
| DebugOption "debug_value option"
| DebugPairs "(string \<times> string) list"
| DebugStruct string "(string \<times> debug_value) list"
| DebugTuple string "debug_value list"

definition redacted_headers :: "(string \<times> string) list \<Rightarrow> (string \<times> string) list" where
  "redacted_headers hs = map (\<lambda>(name, value). (name, if eq_ignore_ascii_case name ''Authorization'' then ''***'' else value)) hs"

fun auth_debug :: "auth \<Rightarrow> debug_value" where
  "auth_debug (Basic username _) = DebugStruct ''Basic'' [(''username'', DebugText username), (''password'', DebugText ''***'')]"
| "auth_debug (Bearer _) = DebugTuple ''Bearer'' [DebugText ''***'']"

definition http_wait_debug :: "http_wait_strategy \<Rightarrow> debug_value" where
  "http_wait_debug s = DebugStruct ''HttpWaitStrategy''
     [(''path'', DebugText (hs_path s)), (''port'', DebugOption (map_option DebugPort (hs_port s))), (''method'', DebugText (hs_method s)),
      (''headers'', DebugPairs (redacted_headers (hs_headers s))),
      (''body_len'', DebugOption (map_option (\<lambda>b. DebugNat (length b)) (hs_body s))),
      (''auth'', DebugOption (map_option auth_debug (hs_auth s))),
      (''poll_interval'', DebugNat (hs_poll_interval s)), (''request_timeout'', DebugNat (hs_request_timeout s))]"

text \<open>No credential reaches the output: a strategy with another one in its place prints the same.\<close>

lemma http_wait_debug_redacts:
  "http_wait_debug (with_basic_auth user p s) = http_wait_debug (with_basic_auth user q s)"
  "http_wait_debug (with_bearer_auth t s) = http_wait_debug (with_bearer_auth u s)"
  "eq_ignore_ascii_case name ''Authorization'' \<Longrightarrow> http_wait_debug (with_header name v s) = http_wait_debug (with_header name v' s)"
  by (simp_all add: http_wait_debug_def with_basic_auth_def with_bearer_auth_def with_header_def redacted_headers_def)

end
