(* ===== verification/Container_Request.thy ===== *)
theory Container_Request
  imports Wait_Strategies Env_Util
begin

text \<open>
  \<open>src/core/containers/request.rs\<close>, \<open>src/core/image.rs\<close>, \<open>src/core/image/exec.rs\<close>,
  \<open>src/core/image/image_ext.rs\<close>, \<open>src/core/wait/cmd_wait.rs\<close>, \<open>src/images/generic.rs\<close>, the
  sources and targets of \<open>src/core/copy.rs\<close> and \<open>build_container_config\<close> of
  \<open>src/runners/async_runner.rs\<close>: what a caller asks for, the builders that collect it, and the
  configuration of a Docker container that is made from it. An implementation of the trait
  \<open>Image\<close> is the record of what its methods return; a log consumer is a value of a type
  parameter, since a request only stores it; an IP address is its text.
\<close>

section \<open>Commands in a container\<close>

datatype cmd_wait_for =
  CmdNothing
| CmdStdOutMessage "u8 list"
| CmdStdErrMessage "u8 list"
| CmdDuration duration
| CmdExit "int option"

definition cmd_message_on_stdout :: "u8 list \<Rightarrow> cmd_wait_for" where
  "cmd_message_on_stdout message = CmdStdOutMessage message"

definition cmd_message_on_stderr :: "u8 list \<Rightarrow> cmd_wait_for" where
  "cmd_message_on_stderr message = CmdStdErrMessage message"

definition cmd_exit :: cmd_wait_for where
  "cmd_exit = CmdExit None"

definition cmd_exit_code :: "int \<Rightarrow> cmd_wait_for" where
  "cmd_exit_code code = CmdExit (Some code)"

definition cmd_seconds :: "nat \<Rightarrow> cmd_wait_for" where
  "cmd_seconds n = CmdDuration (from_secs n)"

definition cmd_millis :: "nat \<Rightarrow> cmd_wait_for" where
  "cmd_millis n = CmdDuration (from_millis n)"

record exec_command =
  ec_cmd :: "string list"
  ec_cmd_ready_condition :: cmd_wait_for
  ec_container_ready_conditions :: "wait_for list"
  ec_env_vars :: "(string, string) btree_map"

definition exec_command_new :: "string list \<Rightarrow> exec_command" where
  "exec_command_new cmd =
     \<lparr>ec_cmd = cmd, ec_cmd_ready_condition = CmdNothing, ec_container_ready_conditions = [], ec_env_vars = []\<rparr>"

definition with_container_ready_conditions :: "wait_for list \<Rightarrow> exec_command \<Rightarrow> exec_command" where
  "with_container_ready_conditions cs e = e\<lparr>ec_container_ready_conditions := cs\<rparr>"

definition with_cmd_ready_condition :: "cmd_wait_for \<Rightarrow> exec_command \<Rightarrow> exec_command" where
  "with_cmd_ready_condition c e = e\<lparr>ec_cmd_ready_condition := c\<rparr>"

definition with_env_vars :: "(string \<times> string) list \<Rightarrow> exec_command \<Rightarrow> exec_command" where
  "with_env_vars vars e = e\<lparr>ec_env_vars := bt.insert_all vars (ec_env_vars e)\<rparr>"

section \<open>Copies into a container\<close>

datatype copy_data_source = SourceFile string | SourceData "u8 list"

record copy_target_options =
  ct_path :: string
  ct_mode :: u32
  ct_uid :: u32
  ct_gid :: u32

definition copy_target_new :: "string \<Rightarrow> copy_target_options" where
  "copy_target_new path = \<lparr>ct_path = path, ct_mode = 420, ct_uid = 0, ct_gid = 0\<rparr>"

definition target_with_mode :: "u32 \<Rightarrow> copy_target_options \<Rightarrow> copy_target_options" where
  "target_with_mode mode t = t\<lparr>ct_mode := mode\<rparr>"

definition with_uid :: "u32 \<Rightarrow> copy_target_options \<Rightarrow> copy_target_options" where
  "with_uid uid t = t\<lparr>ct_uid := uid\<rparr>"

definition with_gid :: "u32 \<Rightarrow> copy_target_options \<Rightarrow> copy_target_options" where
  "with_gid gid t = t\<lparr>ct_gid := gid\<rparr>"

record copy_to_container =
  cp_source :: copy_data_source
  cp_target :: copy_target_options

definition copy_to_container_new :: "copy_data_source \<Rightarrow> copy_target_options \<Rightarrow> copy_to_container" where
  "copy_to_container_new s t = \<lparr>cp_source = s, cp_target = t\<rparr>"

section \<open>Images and requests\<close>

record image =
  img_name :: string
  img_tag :: string
  img_ready_conditions :: "wait_for list"
  img_env_vars :: "(string \<times> string) list"
  img_mounts :: "mount list"
  img_copy_to_sources :: "copy_to_container list"
  img_entrypoint :: "string option"
  img_cmd :: "string list"
  img_expose_ports :: "container_port list"
  img_exec_after_start :: "container_state \<Rightarrow> exec_command list result"
  img_exec_before_ready :: "container_state \<Rightarrow> exec_command list result"

text \<open>The default methods of the trait.\<close>

definition image_default :: "string \<Rightarrow> string \<Rightarrow> wait_for list \<Rightarrow> image" where
  "image_default name tag ready =
     \<lparr>img_name = name, img_tag = tag, img_ready_conditions = ready, img_env_vars = [], img_mounts = [],
      img_copy_to_sources = [], img_entrypoint = None, img_cmd = [], img_expose_ports = [],
      img_exec_after_start = (\<lambda>_. Inr []), img_exec_before_ready = (\<lambda>_. Inr [])\<rparr>"

record generic_image =
  gi_name :: string
  gi_tag :: string
  gi_wait_for :: "wait_for list"
  gi_entrypoint :: "string option"
  gi_exposed_ports :: "container_port list"

definition generic_image_new :: "string \<Rightarrow> string \<Rightarrow> generic_image" where
  "generic_image_new name tag =
     \<lparr>gi_name = name, gi_tag = tag, gi_wait_for = [], gi_entrypoint = None, gi_exposed_ports = []\<rparr>"

definition with_wait_for :: "wait_for \<Rightarrow> generic_image \<Rightarrow> generic_image" where
  "with_wait_for c g = g\<lparr>gi_wait_for := gi_wait_for g @ [c]\<rparr>"

definition with_entrypoint :: "string \<Rightarrow> generic_image \<Rightarrow> generic_image" where
  "with_entrypoint e g = g\<lparr>gi_entrypoint := Some e\<rparr>"

definition with_exposed_port :: "container_port \<Rightarrow> generic_image \<Rightarrow> generic_image" where
  "with_exposed_port p g = g\<lparr>gi_exposed_ports := gi_exposed_ports g @ [p]\<rparr>"

definition generic_as_image :: "generic_image \<Rightarrow> image" where
  "generic_as_image g =
     (image_default (gi_name g) (gi_tag g) (gi_wait_for g))
       \<lparr>img_entrypoint := gi_entrypoint g, img_expose_ports := gi_exposed_ports g\<rparr>"

datatype extra_host = Addr string | HostGateway

fun extra_host_text :: "extra_host \<Rightarrow> string" where
  "extra_host_text (Addr a) = a"
| "extra_host_text HostGateway = ''host-gateway''"

definition DEFAULT_STARTUP_TIMEOUT :: duration where
  "DEFAULT_STARTUP_TIMEOUT = from_secs 60"

record 'c container_request =
  cr_image :: image
  cr_overridden_cmd :: "string list"
  cr_image_name :: "string option"
  cr_image_tag :: "string option"
  cr_container_name :: "string option"
  cr_hostname :: "string option"
  cr_network :: "string option"
  cr_labels :: "(string, string) btree_map"
  cr_env_vars :: "(string, string) btree_map"
  cr_hosts :: "(string, extra_host) btree_map"
  cr_mounts :: "mount list"
  cr_health_check :: "healthcheck option"
  cr_copy_to_sources :: "copy_to_container list"
  cr_ports :: "port_mapping list option"
  cr_privileged :: bool
  cr_readonly_rootfs :: bool
  cr_cap_add :: "string list option"
  cr_cap_drop :: "string list option"
  cr_shm_size :: "u64 option"
  cr_ready_conditions :: "wait_for list option"
  cr_startup_timeout :: "duration option"
  cr_working_dir :: "string option"
  cr_user :: "string option"
  cr_open_stdin :: "bool option"
  cr_log_consumers :: "'c list"
  cr_init :: bool
  cr_platform :: "string option"
  cr_ssh :: bool
  cr_masked_paths :: "string list option"
  cr_readonly_paths :: "string list option"
  cr_kernel :: "string option"

definition request_of_image :: "image \<Rightarrow> 'c container_request" where
  "request_of_image img =
     \<lparr>cr_image = img, cr_overridden_cmd = [], cr_image_name = None, cr_image_tag = None, cr_container_name = None,
      cr_hostname = None, cr_network = None, cr_labels = [], cr_env_vars = [], cr_hosts = [], cr_mounts = [],
      cr_health_check = None, cr_copy_to_sources = [], cr_ports = None, cr_privileged = False,
      cr_readonly_rootfs = False, cr_cap_add = None, cr_cap_drop = None, cr_shm_size = None,
      cr_ready_conditions = None, cr_startup_timeout = None, cr_working_dir = None, cr_user = None,
      cr_open_stdin = None, cr_log_consumers = [], cr_init = False, cr_platform = None, cr_ssh = False,
      cr_masked_paths = None, cr_readonly_paths = None, cr_kernel = None\<rparr>"

subsection \<open>What a request resolves to\<close>

definition env_vars :: "'c container_request \<Rightarrow> (string \<times> string) list" where
  "env_vars r = img_env_vars (cr_image r) @ cr_env_vars r"

definition mounts :: "'c container_request \<Rightarrow> mount list" where
  "mounts r = img_mounts (cr_image r) @ cr_mounts r"

definition copy_to_sources :: "'c container_request \<Rightarrow> copy_to_container list" where
  "copy_to_sources r = img_copy_to_sources (cr_image r) @ cr_copy_to_sources r"

definition request_cmd :: "'c container_request \<Rightarrow> string list" where
  "request_cmd r = (if cr_overridden_cmd r \<noteq> [] then cr_overridden_cmd r else img_cmd (cr_image r))"

definition unwrap_or :: "'a option \<Rightarrow> 'a \<Rightarrow> 'a" where
  "unwrap_or v d = (case v of Some x \<Rightarrow> x | None \<Rightarrow> d)"

definition descriptor :: "'c container_request \<Rightarrow> string" where
  "descriptor r =
     unwrap_or (cr_image_name r) (img_name (cr_image r)) @ '':'' @ unwrap_or (cr_image_tag r) (img_tag (cr_image r))"

definition ready_conditions :: "'c container_request \<Rightarrow> wait_for list" where
  "ready_conditions r = unwrap_or (cr_ready_conditions r) (img_ready_conditions (cr_image r))"

definition startup_timeout :: "'c container_request \<Rightarrow> duration" where
  "startup_timeout r = unwrap_or (cr_startup_timeout r) DEFAULT_STARTUP_TIMEOUT"

subsection \<open>The builders\<close>

definition with_cmd :: "string list \<Rightarrow> 'c container_request \<Rightarrow> 'c container_request" where
  "with_cmd cmd r = r\<lparr>cr_overridden_cmd := cmd\<rparr>"

definition with_name :: "string \<Rightarrow> 'c container_request \<Rightarrow> 'c container_request" where
  "with_name name r = r\<lparr>cr_image_name := Some name\<rparr>"

definition with_tag :: "string \<Rightarrow> 'c container_request \<Rightarrow> 'c container_request" where
  "with_tag tag r = r\<lparr>cr_image_tag := Some tag\<rparr>"

definition with_container_name :: "string \<Rightarrow> 'c container_request \<Rightarrow> 'c container_request" where
  "with_container_name name r = r\<lparr>cr_container_name := Some name\<rparr>"

definition with_hostname :: "string \<Rightarrow> 'c container_request \<Rightarrow> 'c container_request" where
  "with_hostname name r = r\<lparr>cr_hostname := Some name\<rparr>"

definition with_network :: "string \<Rightarrow> 'c container_request \<Rightarrow> 'c container_request" where
  "with_network network r = r\<lparr>cr_network := Some network\<rparr>"

definition with_label :: "string \<Rightarrow> string \<Rightarrow> 'c container_request \<Rightarrow> 'c container_request" where
  "with_label key v r = r\<lparr>cr_labels := bt_insert key v (cr_labels r)\<rparr>"

definition with_labels :: "(string \<times> string) list \<Rightarrow> 'c container_request \<Rightarrow> 'c container_request" where
  "with_labels labels r = r\<lparr>cr_labels := bt.insert_all labels (cr_labels r)\<rparr>"

definition with_env_var :: "string \<Rightarrow> string \<Rightarrow> 'c container_request \<Rightarrow> 'c container_request" where
  "with_env_var name v r = r\<lparr>cr_env_vars := bt_insert name v (cr_env_vars r)\<rparr>"

definition with_host :: "string \<Rightarrow> extra_host \<Rightarrow> 'c container_request \<Rightarrow> 'c container_request" where
  "with_host key v r = r\<lparr>cr_hosts := bt_insert key v (cr_hosts r)\<rparr>"

definition with_mount :: "mount \<Rightarrow> 'c container_request \<Rightarrow> 'c container_request" where
  "with_mount m r = r\<lparr>cr_mounts := cr_mounts r @ [m]\<rparr>"

definition with_copy_to :: "copy_target_options \<Rightarrow> copy_data_source \<Rightarrow> 'c container_request \<Rightarrow> 'c container_request" where
  "with_copy_to target source r = r\<lparr>cr_copy_to_sources := cr_copy_to_sources r @ [copy_to_container_new source target]\<rparr>"

definition port_mapping_new :: "u16 \<Rightarrow> container_port \<Rightarrow> port_mapping" where
  "port_mapping_new host internal = \<lparr>pm_host_port = host, pm_container_port = internal\<rparr>"

definition with_mapped_port :: "u16 \<Rightarrow> container_port \<Rightarrow> 'c container_request \<Rightarrow> 'c container_request" where
  "with_mapped_port host p r = r\<lparr>cr_ports := Some (unwrap_or (cr_ports r) [] @ [port_mapping_new host p])\<rparr>"

definition with_privileged :: "bool \<Rightarrow> 'c container_request \<Rightarrow> 'c container_request" where
  "with_privileged b r = r\<lparr>cr_privileged := b\<rparr>"

definition with_readonly_rootfs :: "bool \<Rightarrow> 'c container_request \<Rightarrow> 'c container_request" where
  "with_readonly_rootfs b r = r\<lparr>cr_readonly_rootfs := b\<rparr>"

definition with_cap_add :: "string \<Rightarrow> 'c container_request \<Rightarrow> 'c container_request" where
  "with_cap_add c r = r\<lparr>cr_cap_add := Some (unwrap_or (cr_cap_add r) [] @ [c])\<rparr>"

definition with_cap_drop :: "string \<Rightarrow> 'c container_request \<Rightarrow> 'c container_request" where
  "with_cap_drop c r = r\<lparr>cr_cap_drop := Some (unwrap_or (cr_cap_drop r) [] @ [c])\<rparr>"

definition with_shm_size :: "u64 \<Rightarrow> 'c container_request \<Rightarrow> 'c container_request" where
  "with_shm_size bytes r = r\<lparr>cr_shm_size := Some bytes\<rparr>"

definition with_startup_timeout :: "duration \<Rightarrow> 'c container_request \<Rightarrow> 'c container_request" where
  "with_startup_timeout t r = r\<lparr>cr_startup_timeout := Some t\<rparr>"

definition with_working_dir :: "string \<Rightarrow> 'c container_request \<Rightarrow> 'c container_request" where
  "with_working_dir d r = r\<lparr>cr_working_dir := Some d\<rparr>"

definition with_log_consumer :: "'c \<Rightarrow> 'c container_request \<Rightarrow> 'c container_request" where
  "with_log_consumer c r = r\<lparr>cr_log_consumers := cr_log_consumers r @ [c]\<rparr>"

definition with_user :: "string \<Rightarrow> 'c container_request \<Rightarrow> 'c container_request" where
  "with_user u r = r\<lparr>cr_user := Some u\<rparr>"

definition with_open_stdin :: "bool \<Rightarrow> 'c container_request \<Rightarrow> 'c container_request" where
  "with_open_stdin b r = r\<lparr>cr_open_stdin := Some b\<rparr>"

definition with_ready_conditions :: "wait_for list \<Rightarrow> 'c container_request \<Rightarrow> 'c container_request" where
  "with_ready_conditions cs r = r\<lparr>cr_ready_conditions := Some cs\<rparr>"

definition with_health_check :: "healthcheck \<Rightarrow> 'c container_request \<Rightarrow> 'c container_request" where
  "with_health_check hc r = r\<lparr>cr_health_check := Some hc\<rparr>"

definition with_platform :: "string \<Rightarrow> 'c container_request \<Rightarrow> 'c container_request" where
  "with_platform p r = r\<lparr>cr_platform := Some p\<rparr>"

definition with_init :: "'c container_request \<Rightarrow> 'c container_request" where
  "with_init r = r\<lparr>cr_init := True\<rparr>"

definition with_ssh :: "'c container_request \<Rightarrow> 'c container_request" where
  "with_ssh r = r\<lparr>cr_ssh := True\<rparr>"

definition with_masked_paths :: "string list \<Rightarrow> 'c container_request \<Rightarrow> 'c container_request" where
  "with_masked_paths ps r = r\<lparr>cr_masked_paths := Some ps\<rparr>"

definition with_readonly_paths :: "string list \<Rightarrow> 'c container_request \<Rightarrow> 'c container_request" where
  "with_readonly_paths ps r = r\<lparr>cr_readonly_paths := Some ps\<rparr>"

definition with_kernel :: "string \<Rightarrow> 'c container_request \<Rightarrow> 'c container_request" where
  "with_kernel path r = r\<lparr>cr_kernel := Some path\<rparr>"

section \<open>Checks before anything is sent\<close>

fun reject_duplicate_loop :: "(container_port, u16) btree_map \<Rightarrow> port_mapping list \<Rightarrow> unit result" where
  "reject_duplicate_loop mapped [] = Inr ()"
| "reject_duplicate_loop mapped (p # ps) =
     (case bt_get mapped (pm_container_port p) of
        Some previous \<Rightarrow>
          Inl (Other (''duplicate container port mapping: container port '' @ port_to_string (pm_container_port p)
            @ '' is mapped to both host ports '' @ show_nat (unat previous) @ '' and '' @ show_nat (unat (pm_host_port p))))
      | None \<Rightarrow> reject_duplicate_loop (bt_insert (pm_container_port p) (pm_host_port p) mapped) ps)"

definition reject_duplicate_mapped_ports :: "port_mapping list \<Rightarrow> unit result" where
  "reject_duplicate_mapped_ports ports = reject_duplicate_loop [] ports"

definition linux_unsupported_request_reason :: "'c container_request \<Rightarrow> string option" where
  "linux_unsupported_request_reason r =
     (if cr_ssh r then Some ''with_ssh() is not implemented on Linux''
      else if cr_masked_paths r \<noteq> None then Some ''with_masked_paths() is not implemented on Linux''
      else if cr_readonly_paths r \<noteq> None then Some ''with_readonly_paths() is not implemented on Linux''
      else if cr_kernel r \<noteq> None then Some ''with_kernel() is not implemented on Linux''
      else None)"

section \<open>The configuration of a Docker container\<close>

definition add_exposed :: "container_port \<Rightarrow> port_mapping list \<Rightarrow> port_mapping list" where
  "add_exposed exposed ports =
     (if list_ex (\<lambda>p. pm_container_port p = exposed) ports then ports else ports @ [port_mapping_new 0 exposed])"

definition config_ports :: "'c container_request \<Rightarrow> port_mapping list" where
  "config_ports r = fold add_exposed (img_expose_ports (cr_image r)) (unwrap_or (cr_ports r) [])"

text \<open>\<open>None\<close> is the panic of \<open>expect\<close> on a request with duplicate mappings.\<close>

definition build_container_config :: "'c container_request \<Rightarrow> container_config option" where
  "build_container_config r =
     (case (case cr_ports r of Some ports \<Rightarrow> reject_duplicate_mapped_ports ports | None \<Rightarrow> Inr ()) of
        Inl _ \<Rightarrow> None
      | Inr _ \<Rightarrow> Some
          \<lparr>cc_image = descriptor r, cc_entrypoint = map_option (\<lambda>e. [e]) (img_entrypoint (cr_image r)),
           cc_cmd = request_cmd r, cc_env = fold_env (env_vars r) [], cc_ports = config_ports r, cc_mounts = mounts r,
           cc_name = cr_container_name r, cc_labels = cr_labels r, cc_privileged = cr_privileged r,
           cc_working_dir = cr_working_dir r, cc_user = cr_user r, cc_init = cr_init r,
           cc_health_check = cr_health_check r, cc_cap_add = unwrap_or (cr_cap_add r) [],
           cc_cap_drop = unwrap_or (cr_cap_drop r) [], cc_shm_size = cr_shm_size r,
           cc_readonly_rootfs = cr_readonly_rootfs r, cc_hostname = cr_hostname r, cc_open_stdin = cr_open_stdin r,
           cc_network = cr_network r, cc_platform = cr_platform r,
           cc_extra_hosts = map (\<lambda>(name, host). name @ '':'' @ extra_host_text host) (cr_hosts r)\<rparr>)"

section \<open>Facts\<close>

lemma reject_duplicate_loop_iff:
  "bt_wf m \<Longrightarrow> reject_duplicate_loop m ps = Inr () \<longleftrightarrow>
     distinct (map pm_container_port ps) \<and> (\<forall>p \<in> set ps. bt_get m (pm_container_port p) = None)"
proof (induction ps arbitrary: m)
  case (Cons p ps)
  show ?case
  proof (cases "bt_get m (pm_container_port p)")
    case None
    then show ?thesis using Cons.IH [OF bt_wf_insert [OF Cons.prems]] Cons.prems by (auto simp: image_iff)
  qed simp
qed simp

lemma reject_duplicate_iff: "reject_duplicate_mapped_ports ps = Inr () \<longleftrightarrow> distinct (map pm_container_port ps)"
  using reject_duplicate_loop_iff [OF bt.inv_empty, of ps] by (simp add: reject_duplicate_mapped_ports_def)

lemma reject_duplicate_cases: "reject_duplicate_mapped_ports ps = Inr () \<or> (\<exists>e. reject_duplicate_mapped_ports ps = Inl e)"
  by (cases "reject_duplicate_mapped_ports ps") simp_all

text \<open>What the port list of a configuration says of a container port.\<close>

abbreviation host_ports :: "port_mapping list \<Rightarrow> container_port \<rightharpoonup> u16" where
  "host_ports ps \<equiv> map_of (map (\<lambda>m. (pm_container_port m, pm_host_port m)) ps)"

lemma host_ports_None: "host_ports ps p = None \<longleftrightarrow> p \<notin> pm_container_port ` set ps"
  by (simp add: map_of_eq_None_iff image_image)

lemma add_exposed_distinct: "distinct (map pm_container_port ps) \<Longrightarrow> distinct (map pm_container_port (add_exposed e ps))"
  by (auto simp: add_exposed_def list_ex_iff port_mapping_new_def)

lemma add_exposed_host_ports:
  "host_ports (add_exposed e ps) p =
     (case host_ports ps p of Some host \<Rightarrow> Some host | None \<Rightarrow> if p = e then Some 0 else None)"
proof (cases "e \<in> pm_container_port ` set ps")
  case True
  then have "add_exposed e ps = ps" by (auto simp: add_exposed_def list_ex_iff)
  moreover have "p \<noteq> e" if "host_ports ps p = None" using that True by (auto simp: host_ports_None)
  ultimately show ?thesis by (cases "host_ports ps p") auto
next
  case False
  then have "add_exposed e ps = ps @ [port_mapping_new 0 e]" by (auto simp: add_exposed_def list_ex_iff)
  then show ?thesis by (cases "host_ports ps p") (simp_all add: port_mapping_new_def map_add_def)
qed

lemma fold_add_exposed:
  assumes "distinct (map pm_container_port ps)"
  shows "distinct (map pm_container_port (fold add_exposed es ps)) \<and>
     host_ports (fold add_exposed es ps) p =
       (case host_ports ps p of Some host \<Rightarrow> Some host | None \<Rightarrow> if p \<in> set es then Some 0 else None)"
  using assms
proof (induction es arbitrary: ps)
  case (Cons e es)
  from Cons.IH [OF add_exposed_distinct [OF Cons.prems]] show ?case
    by (auto simp: add_exposed_host_ports split: option.splits if_splits)
qed (simp split: option.splits)

lemma build_container_config_Some:
  assumes "build_container_config r = Some c"
  shows "distinct (map pm_container_port (unwrap_or (cr_ports r) []))" and "cc_ports c = config_ports r"
    and "cc_mounts c = mounts r"
  using assms
  by (auto simp: build_container_config_def unwrap_or_def reject_duplicate_iff split: option.splits sum.splits)

lemma build_container_config_total:
  "(\<And>ports. cr_ports r = Some ports \<Longrightarrow> reject_duplicate_mapped_ports ports = Inr ()) \<Longrightarrow> \<exists>c. build_container_config r = Some c"
  by (auto simp: build_container_config_def split: option.splits)

lemma build_port_bindings_host:
  assumes "distinct (map pm_container_port ports)"
  shows "map_of (build_port_bindings ports) (port_key p) =
    map_option (\<lambda>host. [\<lparr>host_ip = ''0.0.0.0'', binding_host_port = show_nat (unat host)\<rparr>]) (host_ports ports p)"
proof -
  have "distinct (map fst (map binding_entry ports))"
    using assms by (simp add: comp_def binding_entry_def distinct_map inj_on_def)
  then have "map_of (build_port_bindings ports) (port_key p) = map_of (map binding_entry ports) (port_key p)"
    unfolding build_port_bindings_lookup by (subst map_of_inject_set [THEN iffD2]) (simp_all add: rev_map [symmetric])
  also have "\<dots> = map_option (\<lambda>host. [\<lparr>host_ip = ''0.0.0.0'', binding_host_port = show_nat (unat host)\<rparr>]) (host_ports ports p)"
    by (induction ports) (simp_all add: binding_entry_def)
  finally show ?thesis .
qed

section \<open>Requests made by the builders\<close>

text \<open>The invariant of requests: sorted maps without duplicate keys and well-formed mounts.\<close>

definition request_wf :: "'c container_request \<Rightarrow> bool" where
  "request_wf r \<longleftrightarrow> bt_wf (cr_labels r) \<and> bt_wf (cr_env_vars r) \<and> bt_wf (cr_hosts r) \<and> (\<forall>m \<in> set (mounts r). mount_wf m)"

lemma request_wf_new [wf_intros]: "(\<And>m. m \<in> set (img_mounts img) \<Longrightarrow> mount_wf m) \<Longrightarrow> request_wf (request_of_image img)"
  by (simp add: request_wf_def request_of_image_def mounts_def bt.inv_empty)

lemmas request_builders =
  with_cmd_def with_name_def with_tag_def with_container_name_def with_hostname_def with_network_def with_copy_to_def
  with_mapped_port_def with_privileged_def with_readonly_rootfs_def with_cap_add_def with_cap_drop_def with_shm_size_def
  with_startup_timeout_def with_working_dir_def with_log_consumer_def with_user_def with_open_stdin_def
  with_ready_conditions_def with_health_check_def with_platform_def with_init_def with_ssh_def with_masked_paths_def
  with_readonly_paths_def with_kernel_def

lemma request_wf_plain [wf_intros]:
  assumes "request_wf r"
  shows "request_wf (with_cmd cmd r)" "request_wf (with_name name r)" "request_wf (with_tag name r)"
    "request_wf (with_container_name name r)" "request_wf (with_hostname name r)" "request_wf (with_network name r)"
    "request_wf (with_copy_to target source r)" "request_wf (with_mapped_port host p r)" "request_wf (with_privileged b r)"
    "request_wf (with_readonly_rootfs b r)" "request_wf (with_cap_add name r)" "request_wf (with_cap_drop name r)"
    "request_wf (with_shm_size n r)" "request_wf (with_startup_timeout d r)" "request_wf (with_working_dir name r)"
    "request_wf (with_log_consumer lc r)" "request_wf (with_user name r)" "request_wf (with_open_stdin b r)"
    "request_wf (with_ready_conditions cs r)" "request_wf (with_health_check hc r)" "request_wf (with_platform name r)"
    "request_wf (with_init r)" "request_wf (with_ssh r)" "request_wf (with_masked_paths cmd r)"
    "request_wf (with_readonly_paths cmd r)" "request_wf (with_kernel name r)"
  using assms by (simp_all add: request_wf_def mounts_def request_builders)

lemma request_wf_maps [wf_intros]:
  assumes "request_wf r"
  shows "request_wf (with_label k v r)" "request_wf (with_labels kvs r)" "request_wf (with_env_var k v r)"
    "request_wf (with_host k host r)"
  using assms
  by (simp_all add: request_wf_def mounts_def with_label_def with_labels_def with_env_var_def with_host_def bt_wf_insert bt.inv_insert_all)

lemma request_wf_mount [wf_intros]: "request_wf r \<Longrightarrow> mount_wf m \<Longrightarrow> request_wf (with_mount m r)"
  by (auto simp: request_wf_def mounts_def with_mount_def)

text \<open>The requests the public interface can make.\<close>

inductive built_request :: "'c container_request \<Rightarrow> bool" where
  built_new: "(\<And>m. m \<in> set (img_mounts img) \<Longrightarrow> built_mount m) \<Longrightarrow> built_request (request_of_image img)"
| "built_request r \<Longrightarrow> built_request (with_cmd cmd r)"
| "built_request r \<Longrightarrow> built_request (with_name name r)"
| "built_request r \<Longrightarrow> built_request (with_tag tag r)"
| "built_request r \<Longrightarrow> built_request (with_container_name name r)"
| "built_request r \<Longrightarrow> built_request (with_hostname name r)"
| "built_request r \<Longrightarrow> built_request (with_network name r)"
| "built_request r \<Longrightarrow> built_request (with_label k v r)"
| "built_request r \<Longrightarrow> built_request (with_labels kvs r)"
| "built_request r \<Longrightarrow> built_request (with_env_var k v r)"
| "built_request r \<Longrightarrow> built_request (with_host k host r)"
| "built_request r \<Longrightarrow> built_request (with_copy_to target source r)"
| "built_request r \<Longrightarrow> built_request (with_mapped_port hp p r)"
| "built_request r \<Longrightarrow> built_request (with_privileged b r)"
| "built_request r \<Longrightarrow> built_request (with_readonly_rootfs b r)"
| "built_request r \<Longrightarrow> built_request (with_cap_add cap r)"
| "built_request r \<Longrightarrow> built_request (with_cap_drop cap r)"
| "built_request r \<Longrightarrow> built_request (with_shm_size n r)"
| "built_request r \<Longrightarrow> built_request (with_startup_timeout d r)"
| "built_request r \<Longrightarrow> built_request (with_working_dir dir r)"
| "built_request r \<Longrightarrow> built_request (with_log_consumer lc r)"
| "built_request r \<Longrightarrow> built_request (with_user u r)"
| "built_request r \<Longrightarrow> built_request (with_open_stdin b r)"
| "built_request r \<Longrightarrow> built_request (with_ready_conditions cs r)"
| "built_request r \<Longrightarrow> built_request (with_health_check hc r)"
| "built_request r \<Longrightarrow> built_request (with_platform pf r)"
| "built_request r \<Longrightarrow> built_request (with_init r)"
| "built_request r \<Longrightarrow> built_request (with_ssh r)"
| "built_request r \<Longrightarrow> built_request (with_masked_paths ps r)"
| "built_request r \<Longrightarrow> built_request (with_readonly_paths ps r)"
| "built_request r \<Longrightarrow> built_request (with_kernel k r)"
| "built_request r \<Longrightarrow> built_mount m \<Longrightarrow> built_request (with_mount m r)"

lemma mount_wf_built [wf_intros]: "built_mount m \<Longrightarrow> mount_wf m"
  by (induction rule: built_mount.induct) (blast intro: wf_intros)+

lemma built_request_wf: "built_request r \<Longrightarrow> request_wf r"
  by (induction rule: built_request.induct) (blast intro: wf_intros)+

section \<open>Properties\<close>

text \<open>
  C20. A request made by the builders always has a create body, and the body is a JSON document that says
  what the configuration says, member by member, whatever bytes the image name, commands,
  environment, labels, paths and hosts contain: no value can break out of its string.
\<close>

theorem request_body_reads_back:
  assumes "built_request r" and "build_container_config r = Some c"
  shows "\<exists>body. body_from_config c = Inr body \<and> read_json (body_to_json body) = Some (config_value c)"
proof (rule body_reads_back)
  fix m assume "m \<in> set (cc_mounts c)"
  with build_container_config_Some(3) [OF assms(2)] built_request_wf [OF assms(1)] show "mount_wf m"
    by (simp add: request_wf_def)
qed

definition sample_request :: "unit container_request" where
  "sample_request =
     with_mapped_port 8080 (Tcp 80) (with_cmd [[CHR 0x22, CHR 0x5C, CHR 0x0A]] (with_mount (bind_mount ''/a'' ''/b'')
       (request_of_image (generic_as_image (with_exposed_port (Udp 53) (with_exposed_port (Tcp 80) (generic_image_new ''app'' ''1'')))))))"

lemma sample_request_built: "built_request sample_request"
  unfolding sample_request_def
  by (intro built_request.intros built_bind) (simp add: generic_as_image_def image_default_def)

lemma sample_request_config: "\<exists>c. build_container_config sample_request = Some c"
  by (rule build_container_config_total)
    (simp add: sample_request_def request_of_image_def request_builders with_mount_def unwrap_or_def reject_duplicate_mapped_ports_def)

theorem request_body_reads_back_witness:
  "\<exists>c body. build_container_config sample_request = Some c \<and> body_from_config c = Inr body \<and>
     read_json (body_to_json body) = Some (config_value c)"
  using sample_request_config request_body_reads_back [OF sample_request_built] by blast

text \<open>
  The ports a request asks for are the ports the daemon is asked to publish: in the create body a
  mapped container port has the host port it was mapped to, an exposed port that is not mapped has
  port 0, for which the daemon picks one, and no other port is published.
\<close>

lemma request_ports_published:
  assumes "build_container_config r = Some c"
  shows "map_of (build_port_bindings (cc_ports c)) (port_key p) =
     map_option (\<lambda>host. [\<lparr>host_ip = ''0.0.0.0'', binding_host_port = show_nat (unat host)\<rparr>])
       (case host_ports (unwrap_or (cr_ports r) []) p of
          Some host \<Rightarrow> Some host
        | None \<Rightarrow> if p \<in> set (img_expose_ports (cr_image r)) then Some 0 else None)"
proof -
  note c = build_container_config_Some [OF assms]
  note ports = fold_add_exposed [OF c(1), of "img_expose_ports (cr_image r)" p]
  then show ?thesis unfolding c(2) config_ports_def by (subst build_port_bindings_host) simp_all
qed

end
