(* ===== verification/Copy_In.thy ===== *)
theory Copy_In
  imports Container_Request Docker_Tar
begin

text \<open>
  \<open>copy_to_sources_linux\<close> of \<open>src/runners/async_runner.rs\<close> and
  \<open>io_error_with_host_path\<close> of \<open>src/core/copy.rs\<close>: files and directories of the host are
  packed into archives and sent to a container that has been created and not started. The file
  system of the host is a record of the answers it gives; what a file gives when it is read is
  independent of the size its metadata showed before. The walk over a directory takes the number
  of directories it may visit and is \<open>None\<close> when that is not enough.
\<close>

section \<open>The host's file system\<close>

datatype file_kind = KindSymlink | KindDir | KindFile | KindOther

record host_fs =
  fs_symlink_metadata :: "string \<Rightarrow> io_error + file_kind \<times> nat"
  fs_read_dir :: "string \<Rightarrow> io_error + string list"
  fs_read :: "string \<Rightarrow> io_error + u8 list"

definition path_display :: "string \<Rightarrow> string" where
  "path_display path = from_utf8_lossy (as_bytes path)"

definition io_error_with_host_path :: "string \<Rightarrow> io_error \<Rightarrow> copy_to_container_error" where
  "io_error_with_host_path path e = CopyToIo (IoError (io_kind_of e) (path_display path @ '': '' @ io_text e))"

definition copy_error :: "copy_to_container_error \<Rightarrow> error" where
  "copy_error e = Other (copy_to_error_text e)"

definition host_io :: "string \<Rightarrow> io_error + 'a \<Rightarrow> 'a result" where
  "host_io path r = map_err (\<lambda>e. copy_error (io_error_with_host_path path e)) r"

definition size_limit_err :: "string \<Rightarrow> error" where
  "size_limit_err path = copy_error (SizeLimitExceeded DOCKER_RESPONSE_BODY_LIMIT (path_display path))"

definition check_file_size_limit :: "string \<Rightarrow> nat \<Rightarrow> unit result" where
  "check_file_size_limit path sz = (if DOCKER_RESPONSE_BODY_LIMIT < sz then Inl (size_limit_err path) else Inr ())"

definition read_file_limited :: "host_fs \<Rightarrow> string \<Rightarrow> u8 list result" where
  "read_file_limited fs path =
     rbind (host_io path (fs_read fs path)) (\<lambda>content.
       let data = take (DOCKER_RESPONSE_BODY_LIMIT + 1) content
       in if DOCKER_RESPONSE_BODY_LIMIT < length data then Inl (size_limit_err path) else Inr data)"

definition name_err :: "string \<Rightarrow> error" where
  "name_err msg = copy_error (PathNameError msg)"

section \<open>Targets\<close>

definition make_path_relative :: "string \<Rightarrow> string result" where
  "make_path_relative path =
     (let relative = dropWhile (\<lambda>c. c = CHR ''/'') path
      in if relative = [] then Inl (name_err ''copy_to target path must not be root only'') else Inr relative)"

text \<open>\<open>Path::components\<close> of an absolute path without its root: empty pieces and \<open>.\<close> are dropped.\<close>

definition path_components :: "string \<Rightarrow> string list" where
  "path_components path = filter (\<lambda>c. c \<noteq> [] \<and> c \<noteq> ''.'') (split_on CHR ''/'' path)"

definition path_file_name :: "string \<Rightarrow> string option" where
  "path_file_name path =
     (let cs = path_components path in if cs = [] \<or> last cs = ''..'' then None else Some (last cs))"

definition contains_str :: "string \<Rightarrow> string \<Rightarrow> bool" where
  "contains_str s pat = list_ex (\<lambda>i. starts_with (drop i s) pat) [0..<Suc (length s)]"

definition check_target :: "string \<Rightarrow> string result" where
  "check_target path =
     (if \<not> starts_with path ''/'' then Inl (name_err ''copy_to target path must be absolute'')
      else if ends_with path ''/'' then Inl (name_err ''copy_to target path must not end with a slash'')
      else if ends_with path ''/.'' then Inl (name_err (''copy_to target path must not end with a '' @ [CHR 0x27] @ ''.'' @ [CHR 0x27]))
      else if contains_str path ''//'' then Inl (name_err (''copy_to target path must not contain '' @ [CHR 0x27] @ ''//'' @ [CHR 0x27]))
      else if path_file_name path = None then Inl (name_err ''copy_to target path must have a file name'')
      else if ''..'' \<in> set (path_components path) then
        Inl (name_err (''copy_to target path must not contain '' @ [CHR 0x27] @ ''..'' @ [CHR 0x27]))
      else make_path_relative path)"

section \<open>Archives\<close>

definition append_tar :: "ustar_builder \<Rightarrow> tar_entry \<Rightarrow> ustar_builder result" where
  "append_tar builder x = map_err copy_error (append_entry builder x)"

definition DIR_MODE :: u32 where
  "DIR_MODE = 493"

definition append_ancestor :: "u32 \<Rightarrow> u32 \<Rightarrow> string \<times> ustar_builder \<Rightarrow> string \<Rightarrow> (string \<times> ustar_builder) result" where
  "append_ancestor uid gid st part =
     (if part = [] then Inr st
      else
        let acc = (if fst st \<noteq> [] then fst st @ ''/'' else []) @ part
        in rbind (append_tar (snd st) (TarDir (acc @ ''/'') DIR_MODE uid gid)) (\<lambda>b. Inr (acc, b)))"

definition append_ancestor_directories :: "ustar_builder \<Rightarrow> string \<Rightarrow> u32 \<Rightarrow> u32 \<Rightarrow> ustar_builder result" where
  "append_ancestor_directories builder relative uid gid =
     rbind (foldr_res (append_ancestor uid gid) ([], builder) (butlast (split_on CHR ''/'' relative))) (\<lambda>st. Inr (snd st))"

text \<open>\<open>Path::strip_prefix\<close> on a path that was made by joining names to the prefix.\<close>

definition strip_path_prefix :: "string \<Rightarrow> string \<Rightarrow> string option" where
  "strip_path_prefix root path =
     (if starts_with path root then Some (dropWhile (\<lambda>c. c = CHR ''/'') (drop (length root) path)) else None)"

definition append_child ::
  "host_fs \<Rightarrow> string \<Rightarrow> string \<Rightarrow> u32 \<Rightarrow> u32 \<Rightarrow> u32 \<Rightarrow> string \<Rightarrow> ustar_builder \<times> string list \<Rightarrow> string \<Rightarrow>
   (ustar_builder \<times> string list) result" where
  "append_child fs host_root tar_root mode uid gid dir st name =
     (let path = path_join dir name
      in rbind (host_io path (fs_symlink_metadata fs path)) (\<lambda>(kind, len).
         rbind (ok_or (name_err ''copy_to walk path escaped source root'') (strip_path_prefix host_root path)) (\<lambda>rel.
         if \<not> utf8_valid (as_bytes rel) then Inl (name_err ''copy_to source path under directory is not valid UTF-8'')
         else
           let tar_path = (if rel = [] then tar_root else tar_root @ ''/'' @ rel)
           in case kind of
                KindSymlink \<Rightarrow> Inl (name_err (''copy_to source contains a symlink: '' @ path_display path))
              | KindDir \<Rightarrow>
                  rbind (append_tar (fst st) (TarDir (tar_path @ ''/'') DIR_MODE uid gid)) (\<lambda>b. Inr (b, path # snd st))
              | KindOther \<Rightarrow> Inl (name_err ''copy_to source contains a non-regular file'')
              | KindFile \<Rightarrow>
                  rbind (check_file_size_limit path len) (\<lambda>_.
                  rbind (read_file_limited fs path) (\<lambda>data.
                  rbind (append_tar (fst st) (TarFile tar_path data mode uid gid)) (\<lambda>b. Inr (b, snd st)))))))"

text \<open>The stack is a list with its top first.\<close>

fun walk_stack ::
  "nat \<Rightarrow> host_fs \<Rightarrow> string \<Rightarrow> string \<Rightarrow> u32 \<Rightarrow> u32 \<Rightarrow> u32 \<Rightarrow> ustar_builder \<Rightarrow> string list \<Rightarrow> ustar_builder result option" where
  "walk_stack n fs host_root tar_root mode uid gid builder [] = Some (Inr builder)"
| "walk_stack 0 fs host_root tar_root mode uid gid builder (dir # stack) = None"
| "walk_stack (Suc n) fs host_root tar_root mode uid gid builder (dir # stack) =
     (case rbind (host_io dir (fs_read_dir fs dir)) (\<lambda>names.
         foldr_res (append_child fs host_root tar_root mode uid gid dir) (builder, stack) (rev (sort names))) of
        Inl e \<Rightarrow> Some (Inl e)
      | Inr (builder', stack') \<Rightarrow> walk_stack n fs host_root tar_root mode uid gid builder' stack')"

definition append_host_directory ::
  "nat \<Rightarrow> host_fs \<Rightarrow> ustar_builder \<Rightarrow> string \<Rightarrow> string \<Rightarrow> u32 \<Rightarrow> u32 \<Rightarrow> u32 \<Rightarrow> ustar_builder result option" where
  "append_host_directory n fs builder host_root tar_root mode uid gid =
     walk_stack n fs host_root tar_root mode uid gid builder [host_root]"

definition and_then :: "'a result option \<Rightarrow> ('a \<Rightarrow> 'b result option) \<Rightarrow> 'b result option" where
  "and_then m k = (case m of None \<Rightarrow> None | Some (Inl e) \<Rightarrow> Some (Inl e) | Some (Inr x) \<Rightarrow> k x)"

definition append_source :: "nat \<Rightarrow> host_fs \<Rightarrow> string \<Rightarrow> copy_to_container \<Rightarrow> ustar_builder result option" where
  "append_source n fs relative src =
     (let mode = ct_mode (cp_target src); uid = ct_uid (cp_target src); gid = ct_gid (cp_target src)
      in case cp_source src of
           SourceFile path \<Rightarrow>
             and_then (Some (host_io path (fs_symlink_metadata fs path))) (\<lambda>(kind, len).
             case kind of
               KindSymlink \<Rightarrow> Some (Inl (name_err (''copy_to source is a symlink: '' @ path_display path)))
             | KindDir \<Rightarrow>
                 and_then (Some (append_ancestor_directories builder_new relative uid gid)) (\<lambda>b.
                 and_then (Some (append_tar b (TarDir (relative @ ''/'') DIR_MODE uid gid))) (\<lambda>b.
                 append_host_directory n fs b path relative mode uid gid))
             | KindFile \<Rightarrow>
                 and_then (Some (append_ancestor_directories builder_new relative uid gid)) (\<lambda>b.
                 and_then (Some (check_file_size_limit path len)) (\<lambda>_.
                 and_then (Some (read_file_limited fs path)) (\<lambda>data.
                 Some (append_tar b (TarFile relative data mode uid gid)))))
             | KindOther \<Rightarrow> Some (Inl (name_err ''copy_to source is not a regular file or directory'')))
         | SourceData data \<Rightarrow>
             and_then (Some (append_ancestor_directories builder_new relative uid gid)) (\<lambda>b.
             Some (append_tar b (TarFile relative data mode uid gid))))"

definition source_archive :: "nat \<Rightarrow> host_fs \<Rightarrow> copy_to_container \<Rightarrow> u8 list result option" where
  "source_archive n fs src =
     and_then (Some (check_target (ct_path (cp_target src)))) (\<lambda>relative.
     and_then (append_source n fs relative src) (\<lambda>builder.
     Some (map_err copy_error (builder_finish builder))))"

section \<open>Sending\<close>

definition io_opt :: "'a result option \<Rightarrow> ('e, 'a option) effect" where
  "io_opt r h = (case r of None \<Rightarrow> (Inr None, h) | Some (Inl e) \<Rightarrow> (Inl e, h) | Some (Inr x) \<Rightarrow> (Inr (Some x), h))"

definition io_and_then :: "('e, 'a option) effect \<Rightarrow> ('a \<Rightarrow> ('e, 'b option) effect) \<Rightarrow> ('e, 'b option) effect" where
  "io_and_then m k = io_bind m (\<lambda>r. case r of None \<Rightarrow> io_lift (Inr None) | Some x \<Rightarrow> k x)"

definition io_some :: "('e, 'a) effect \<Rightarrow> ('e, 'a option) effect" where
  "io_some m = io_bind m (\<lambda>x. io_lift (Inr (Some x)))"

fun copy_sources :: "nat \<Rightarrow> 'v world \<Rightarrow> host_fs \<Rightarrow> string \<Rightarrow> copy_to_container list \<Rightarrow> unit option io" where
  "copy_sources n w fs i [] = io_lift (Inr (Some ()))"
| "copy_sources n w fs i (src # srcs) =
     io_and_then (io_opt (source_archive n fs src)) (\<lambda>tar.
     io_and_then (io_some (docker_copy_to w i ''/'' tar)) (\<lambda>_.
     copy_sources n w fs i srcs))"

definition copy_to_sources_linux :: "nat \<Rightarrow> 'v world \<Rightarrow> host_fs \<Rightarrow> string \<Rightarrow> 'c container_request \<Rightarrow> unit option io" where
  "copy_to_sources_linux n w fs i r = copy_sources n w fs i (copy_to_sources r)"

section \<open>Facts about targets\<close>

lemma contains_str_iff: "contains_str s pat \<longleftrightarrow> (\<exists>u v. s = u @ pat @ v)"
proof
  assume "contains_str s pat"
  then obtain i v where "drop i s = pat @ v" by (auto simp: contains_str_def list_ex_iff starts_with_def prefix_def)
  then have "s = take i s @ pat @ v" by (metis append_take_drop_id)
  then show "\<exists>u v. s = u @ pat @ v" by blast
next
  assume "\<exists>u v. s = u @ pat @ v"
  then obtain u v where s: "s = u @ pat @ v" by blast
  then have "starts_with (drop (length u) s) pat \<and> length u \<in> set [0..<Suc (length s)]" by (simp add: starts_with_def)
  then show "contains_str s pat" unfolding contains_str_def list_ex_iff by blast
qed

lemma hd_split_on: "hd (split_on c s) = [] \<longleftrightarrow> s = [] \<or> hd s = c"
  by (cases s) (auto split: list.splits)

lemma empty_in_split_on: "[] \<in> set (split_on c s) \<longleftrightarrow> hd (split_on c s) = [] \<or> [] \<in> set (tl (split_on c s))"
  by (cases "split_on c s") auto

lemma double_Cons: "(\<exists>u v. x # xs = u @ c # c # v) \<longleftrightarrow> (x = c \<and> xs \<noteq> [] \<and> hd xs = c) \<or> (\<exists>u v. xs = u @ c # c # v)"
  (is "?lhs \<longleftrightarrow> ?rhs")
proof
  assume ?lhs
  then obtain u v where "x # xs = u @ c # c # v" by blast
  then show ?rhs by (cases u) auto
next
  assume ?rhs
  then consider ys where "x = c" "xs = c # ys" | u v where "xs = u @ c # c # v" by (auto simp: neq_Nil_conv)
  then show ?lhs
  proof cases
    case (1 ys)
    then have "x # xs = [] @ c # c # ys" by simp
    then show ?thesis by blast
  next
    case (2 u v)
    then have "x # xs = (x # u) @ c # c # v" by simp
    then show ?thesis by blast
  qed
qed

lemma ends_with_single: "s \<noteq> [] \<Longrightarrow> ends_with s [c] \<longleftrightarrow> last s = c"
  by (cases s rule: rev_cases) (auto simp: ends_with_def)

lemma empty_in_tl_split_on:
  "[] \<in> set (tl (split_on c s)) \<longleftrightarrow> s \<noteq> [] \<and> (last s = c \<or> (\<exists>u v. s = u @ c # c # v))"
proof (induction s)
  case (Cons x xs)
  show ?case
  proof (cases "x = c")
    case True
    then have "[] \<in> set (tl (split_on c (x # xs))) \<longleftrightarrow> xs = [] \<or> hd xs = c \<or> [] \<in> set (tl (split_on c xs))"
      by (simp add: empty_in_split_on hd_split_on)
    then show ?thesis unfolding Cons.IH double_Cons using True by auto
  next
    case False
    then have "tl (split_on c (x # xs)) = tl (split_on c xs)" by (cases "split_on c xs") auto
    then show ?thesis unfolding double_Cons using Cons.IH False by auto
  qed
qed simp

lemma split_on_mid: "split_on c (u @ c # v) = split_on c u @ split_on c v"
proof (induction u)
  case (Cons x u)
  then show ?case by (cases "split_on c u") auto
qed simp

lemma split_on_free: "c \<notin> set s \<Longrightarrow> split_on c s = [s]"
  by (induction s) auto

lemma last_split_on: "c \<notin> set t \<Longrightarrow> ends_with s (c # t) \<longleftrightarrow> c \<in> set s \<and> last (split_on c s) = t"
proof
  assume "c \<notin> set t" and "ends_with s (c # t)"
  then show "c \<in> set s \<and> last (split_on c s) = t" by (auto simp: ends_with_def suffix_def split_on_mid split_on_free)
next
  assume t: "c \<notin> set t" and s: "c \<in> set s \<and> last (split_on c s) = t"
  from s obtain u v where uv: "s = u @ c # v" "c \<notin> set v" by (metis split_list_last)
  then have "last (split_on c s) = v" by (simp add: split_on_mid split_on_free)
  with s uv show "ends_with s (c # t)" by (auto simp: ends_with_def suffix_def)
qed

lemma filter_last: "xs \<noteq> [] \<Longrightarrow> P (last xs) \<Longrightarrow> filter P xs \<noteq> [] \<and> last (filter P xs) = last xs"
  by (induction xs rule: rev_induct) auto

text \<open>A target is accepted if and only if its pieces are proper names.\<close>

definition proper_target :: "string \<Rightarrow> bool" where
  "proper_target rel \<longleftrightarrow>
     (\<forall>c \<in> set (split_on CHR ''/'' rel). c \<noteq> [] \<and> c \<noteq> ''..'') \<and> last (split_on CHR ''/'' rel) \<noteq> ''.''"

lemma check_target_rel:
  "check_target (CHR ''/'' # rel) = Inr rel' \<longleftrightarrow> rel' = rel \<and> proper_target rel"
proof -
  let ?p = "CHR ''/'' # rel" and ?cs = "split_on CHR ''/'' rel"
  have cs: "split_on CHR ''/'' ?p = [] # ?cs" by simp
  have empty: "[] \<in> set ?cs \<longleftrightarrow> ends_with ?p ''/'' \<or> contains_str ?p ''//''"
    using empty_in_tl_split_on [of "CHR ''/''" ?p]
    by (simp add: contains_str_iff ends_with_single)
  have dot: "ends_with ?p ''/.'' \<longleftrightarrow> last ?cs = ''.''"
    using last_split_on [of "CHR ''/''" "''.''" ?p] by simp
  show ?thesis
  proof (cases "[] \<in> set ?cs \<or> last ?cs = ''.''")
    case True
    then show ?thesis using empty dot by (auto simp: check_target_def proper_target_def)
  next
    case False
    then have comps: "path_components ?p = filter (\<lambda>c. c \<noteq> ''.'') ?cs"
      by (auto simp: path_components_def intro!: filter_cong)
    from False have "path_components ?p \<noteq> [] \<and> last (path_components ?p) = last ?cs"
      unfolding comps by (intro filter_last) simp_all
    then have name: "path_file_name ?p = None \<longleftrightarrow> last ?cs = ''..''" by (auto simp: path_file_name_def Let_def)
    have dots: "''..'' \<in> set (path_components ?p) \<longleftrightarrow> ''..'' \<in> set ?cs" by (auto simp: comps)
    from False have "rel \<noteq> []" "hd rel \<noteq> CHR ''/''" using empty_in_split_on [of "CHR ''/''" rel] hd_split_on by auto
    then have rel: "make_path_relative ?p = Inr rel" by (cases rel) (simp_all add: make_path_relative_def Let_def)
    from False empty dot have ends: "\<not> ends_with ?p ''/''" "\<not> ends_with ?p ''/.''" "\<not> contains_str ?p ''//''" by blast+
    have abs: "starts_with ?p ''/''" by (simp add: starts_with_def)
    have last: "last ?cs = ''..'' \<Longrightarrow> ''..'' \<in> set ?cs" by (metis last_in_set split_on_neq_Nil)
    have target: "proper_target rel \<longleftrightarrow> ''..'' \<notin> set ?cs" using False by (auto simp: proper_target_def)
    show ?thesis
    proof (cases "''..'' \<in> set ?cs")
      case True
      then show ?thesis using target by (simp add: check_target_def ends abs name dots del: split_on.simps)
    next
      case False
      then show ?thesis using target last rel by (auto simp add: check_target_def ends abs name dots simp del: split_on.simps)
    qed
  qed
qed

section \<open>Facts about the walk\<close>

text \<open>
  A finite directory tree, its entries in name order, and the file systems that show it at a path:
  the names a directory lists are those of its entries in any order, and no name is empty or has a
  slash.
\<close>

datatype host_tree = HFile "u8 list" | HDir "(string \<times> host_tree) list" | HSymlink | HOther

fun dir_count :: "host_tree \<Rightarrow> nat" where
  "dir_count (HDir kids) = Suc (sum_list (map (\<lambda>kt. dir_count (snd kt)) kids))"
| "dir_count _ = 0"

fun shows_tree :: "host_fs \<Rightarrow> string \<Rightarrow> host_tree \<Rightarrow> bool" where
  "shows_tree fs p (HFile d) \<longleftrightarrow> fs_symlink_metadata fs p = Inr (KindFile, length d) \<and> fs_read fs p = Inr d"
| "shows_tree fs p (HDir kids) \<longleftrightarrow>
     (\<exists>l. fs_symlink_metadata fs p = Inr (KindDir, l)) \<and>
     (\<exists>names. fs_read_dir fs p = Inr names \<and> sort names = map fst kids) \<and>
     (\<forall>kt \<in> set kids. fst kt \<noteq> [] \<and> CHR ''/'' \<notin> set (fst kt) \<and> shows_tree fs (path_join p (fst kt)) (snd kt))"
| "shows_tree fs p HSymlink \<longleftrightarrow> (\<exists>l. fs_symlink_metadata fs p = Inr (KindSymlink, l))"
| "shows_tree fs p HOther \<longleftrightarrow> (\<exists>l. fs_symlink_metadata fs p = Inr (KindOther, l))"

fun is_dir :: "host_tree \<Rightarrow> bool" where
  "is_dir (HDir _) = True"
| "is_dir _ = False"

lemma append_child_stack:
  assumes "append_child fs root tr mode uid gid dir st (fst kt) = Inr st'" and "shows_tree fs (path_join dir (fst kt)) (snd kt)"
  shows "snd st' = (if is_dir (snd kt) then [path_join dir (fst kt)] else []) @ snd st"
  using assms
  by (cases "snd kt") (auto simp: append_child_def Let_def host_io_def rbind_eq_Inr_iff split: if_splits)

lemma append_children_stack:
  assumes "foldr_res (append_child fs root tr mode uid gid dir) st (map fst kids) = Inr st'"
    and "\<forall>kt \<in> set kids. shows_tree fs (path_join dir (fst kt)) (snd kt)"
  shows "snd st' = rev (map (\<lambda>kt. path_join dir (fst kt)) (filter (is_dir \<circ> snd) kids)) @ snd st"
  using assms
proof (induction kids arbitrary: st)
  case (Cons kt kids)
  from Cons.prems(1) obtain st1 where st1: "append_child fs root tr mode uid gid dir st (fst kt) = Inr st1"
    "foldr_res (append_child fs root tr mode uid gid dir) st1 (map fst kids) = Inr st'"
    by (auto simp: rbind_eq_Inr_iff)
  from append_child_stack [OF st1(1)] Cons.IH [OF st1(2)] Cons.prems(2) show ?case by simp
qed simp

lemma dir_count_subdirs:
  "sum_list (map (\<lambda>kt. dir_count (snd kt)) (filter (is_dir \<circ> snd) kids)) = sum_list (map (\<lambda>kt. dir_count (snd kt)) kids)"
proof (induction kids)
  case (Cons kt kids)
  then show ?case by (cases "snd kt") simp_all
qed simp

lemma shows_dir_kids:
  assumes "shows_tree fs p (HDir kids)"
  obtains names where "fs_read_dir fs p = Inr names" "sort names = map fst kids"
    and "\<forall>kt \<in> set kids. shows_tree fs (path_join p (fst kt)) (snd kt)"
  using assms by auto

text \<open>The walk visits every directory once, so their number bounds its rounds.\<close>

lemma walk_stack_terminates:
  assumes "list_all2 (\<lambda>p t. is_dir t \<and> shows_tree fs p t) stack ts" and "sum_list (map dir_count ts) \<le> n"
  shows "\<exists>r. walk_stack n fs root tr mode uid gid b stack = Some r"
  using assms
proof (induction n arbitrary: b stack ts)
  case 0
  then show ?case by (cases stack; cases ts; cases "hd ts") auto
next
  case (Suc n)
  show ?case
  proof (cases stack)
    case (Cons dir stack')
    from Suc.prems(1) Cons obtain t ts' where ts: "ts = t # ts'" "is_dir t" "shows_tree fs dir t"
      "list_all2 (\<lambda>p t. is_dir t \<and> shows_tree fs p t) stack' ts'" by (auto simp: list_all2_Cons1)
    from ts(2) obtain kids where t: "t = HDir kids" by (cases t) auto
    from ts(3) [unfolded t] obtain names where names: "fs_read_dir fs dir = Inr names" "sort names = map fst kids"
      and kids: "\<forall>kt \<in> set kids. shows_tree fs (path_join dir (fst kt)) (snd kt)" by (rule shows_dir_kids)
    let ?fold = "foldr_res (append_child fs root tr mode uid gid dir) (b, stack') (rev (map fst kids))"
    show ?thesis
    proof (cases ?fold)
      case (Inl e)
      then show ?thesis by (simp add: Cons names host_io_def)
    next
      case (Inr st)
      obtain b' st' where st: "st = (b', st')" by fastforce
      from append_children_stack [of fs root tr mode uid gid dir "(b, stack')" "rev kids" st] Inr kids st
      have st': "st' = map (\<lambda>kt. path_join dir (fst kt)) (filter (is_dir \<circ> snd) kids) @ stack'"
        by (simp add: rev_map rev_filter [symmetric])
      let ?ts = "map snd (filter (is_dir \<circ> snd) kids) @ ts'"
      have "list_all2 (\<lambda>p t. is_dir t \<and> shows_tree fs p t) st' ?ts"
        unfolding st' using kids ts(4) by (intro list_all2_appendI) (auto simp: list_all2_conv_all_nth dest: nth_mem)
      moreover have "sum_list (map dir_count ?ts) \<le> n"
        using Suc.prems(2) ts(1) t dir_count_subdirs [of kids] by (simp add: comp_def)
      ultimately show ?thesis using Suc.IH [of st' ?ts b'] by (simp add: Cons names host_io_def Inr st)
    qed
  qed simp
qed

text \<open>
  Paths below the copied directory, relative to it. A clean tree has only directories and files
  within the limit, under names that are UTF-8.
\<close>

definition rel_join :: "string \<Rightarrow> string \<Rightarrow> string" where
  "rel_join rel name = (if rel = [] then name else rel @ ''/'' @ name)"

definition host_path :: "string \<Rightarrow> string \<Rightarrow> string" where
  "host_path root rel = (if rel = [] then root else path_join root rel)"

definition good_rel :: "string \<Rightarrow> bool" where
  "good_rel rel \<longleftrightarrow> rel = [] \<or> hd rel \<noteq> CHR ''/'' \<and> last rel \<noteq> CHR ''/''"

fun clean :: "string \<Rightarrow> host_tree \<Rightarrow> bool" where
  "clean rel (HFile d) \<longleftrightarrow> length d \<le> DOCKER_RESPONSE_BODY_LIMIT"
| "clean rel (HDir kids) \<longleftrightarrow>
     (\<forall>kt \<in> set kids. utf8_valid (as_bytes (rel_join rel (fst kt))) \<and> clean (rel_join rel (fst kt)) (snd kt))"
| "clean rel HSymlink \<longleftrightarrow> False"
| "clean rel HOther \<longleftrightarrow> False"

text \<open>What the archive of a tree holds: the entries of a directory before those of its subdirectories.\<close>

fun tree_items :: "string \<Rightarrow> host_tree \<Rightarrow> (string \<times> string \<times> host_tree) list" where
  "tree_items rel (HDir kids) =
     map (\<lambda>kt. (rel, kt)) (rev kids) @ concat (map (\<lambda>kt. tree_items (rel_join rel (fst kt)) (snd kt)) kids)"
| "tree_items rel _ = []"

definition item_entry :: "string \<Rightarrow> u32 \<Rightarrow> u32 \<Rightarrow> u32 \<Rightarrow> string \<times> string \<times> host_tree \<Rightarrow> tar_entry" where
  "item_entry tar_root mode uid gid x =
     (let path = tar_root @ ''/'' @ rel_join (fst x) (fst (snd x))
      in case snd (snd x) of HFile d \<Rightarrow> TarFile path d mode uid gid | _ \<Rightarrow> TarDir (path @ ''/'') DIR_MODE uid gid)"

lemma good_rel_join:
  assumes "good_rel rel" and "n \<noteq> []" and "CHR ''/'' \<notin> set n"
  shows "good_rel (rel_join rel n)"
proof -
  have "hd n \<noteq> CHR ''/''" "last n \<noteq> CHR ''/''" using assms(2,3) hd_in_set last_in_set by metis+
  then show ?thesis using assms(1,2) by (auto simp: good_rel_def rel_join_def)
qed

lemma host_path_join:
  assumes "good_rel rel"
  shows "path_join (host_path root rel) n = host_path root (rel_join rel n) \<or> n = []"
proof (cases "rel = [] \<or> n = []")
  case True
  then show ?thesis by (auto simp: host_path_def rel_join_def)
next
  case False
  with assms have "host_path root rel \<noteq> []" "last (host_path root rel) \<noteq> CHR ''/''"
    by (auto simp: host_path_def path_join_def good_rel_def)
  then have "path_join (host_path root rel) n = host_path root rel @ ''/'' @ n" by (simp add: path_join_def)
  with False show ?thesis by (simp add: host_path_def rel_join_def path_join_def)
qed

lemma strip_host_path:
  assumes "good_rel rel" and "rel \<noteq> []"
  shows "strip_path_prefix root (host_path root rel) = Some rel"
proof -
  from assms obtain c cs where c: "rel = c # cs" "c \<noteq> CHR ''/''" by (cases rel) (auto simp: good_rel_def)
  then show ?thesis by (simp add: strip_path_prefix_def host_path_def path_join_def starts_with_def)
qed

lemma append_child_clean:
  assumes "shows_tree fs (host_path root (rel_join rel n)) t" and "clean (rel_join rel n) t"
    and "utf8_valid (as_bytes (rel_join rel n))" and "good_rel rel" and "n \<noteq> []" and "CHR ''/'' \<notin> set n"
  shows "append_child fs root tr mode uid gid (host_path root rel) st n =
    rbind (append_tar (fst st) (item_entry tr mode uid gid (rel, n, t)))
      (\<lambda>b. Inr (b, (if is_dir t then [host_path root (rel_join rel n)] else []) @ snd st))"
proof -
  have path: "path_join (host_path root rel) n = host_path root (rel_join rel n)"
    using host_path_join [OF assms(4), of root n] assms(5) by blast
  have ne: "rel_join rel n \<noteq> []" using assms(5) by (simp add: rel_join_def)
  note strip = strip_host_path [OF good_rel_join [OF assms(4-6)] ne]
  show ?thesis using assms(1-3) ne
    by (cases t) (auto simp: append_child_def Let_def host_io_def path strip item_entry_def check_file_size_limit_def read_file_limited_def)
qed

lemma append_children_clean:
  assumes "\<forall>kt \<in> set kids. shows_tree fs (host_path root (rel_join rel (fst kt))) (snd kt) \<and> clean (rel_join rel (fst kt)) (snd kt) \<and>
      utf8_valid (as_bytes (rel_join rel (fst kt))) \<and> fst kt \<noteq> [] \<and> CHR ''/'' \<notin> set (fst kt)" and "good_rel rel"
  shows "foldr_res (append_child fs root tr mode uid gid (host_path root rel)) st (map fst kids) =
    rbind (foldr_res append_tar (fst st) (map (\<lambda>kt. item_entry tr mode uid gid (rel, kt)) kids))
      (\<lambda>b. Inr (b, rev (map (\<lambda>kt. host_path root (rel_join rel (fst kt))) (filter (is_dir \<circ> snd) kids)) @ snd st))"
  using assms(1)
proof (induction kids arbitrary: st)
  case (Cons kt kids)
  from Cons.prems have child: "append_child fs root tr mode uid gid (host_path root rel) st (fst kt) =
    rbind (append_tar (fst st) (item_entry tr mode uid gid (rel, kt)))
      (\<lambda>b. Inr (b, (if is_dir (snd kt) then [host_path root (rel_join rel (fst kt))] else []) @ snd st))"
    using append_child_clean [of fs root rel "fst kt" "snd kt" tr mode uid gid st] assms(2) by simp
  show ?case
    using Cons.IH Cons.prems
    by (cases "append_tar (fst st) (item_entry tr mode uid gid (rel, kt))") (auto simp: child)
qed simp

definition subdirs :: "string \<Rightarrow> (string \<times> host_tree) list \<Rightarrow> (string \<times> host_tree) list" where
  "subdirs rel kids = map (\<lambda>kt. (rel_join rel (fst kt), snd kt)) (filter (is_dir \<circ> snd) kids)"

lemma tree_items_subdirs:
  "concat (map (\<lambda>kt. tree_items (rel_join rel (fst kt)) (snd kt)) kids) = concat (map (\<lambda>(r, t). tree_items r t) (subdirs rel kids))"
proof (induction kids)
  case (Cons kt kids)
  then show ?case by (cases "snd kt") (simp_all add: subdirs_def)
qed (simp add: subdirs_def)

abbreviation entries_of :: "string \<Rightarrow> u32 \<Rightarrow> u32 \<Rightarrow> u32 \<Rightarrow> (string \<times> host_tree) list \<Rightarrow> tar_entry list" where
  "entries_of tr mode uid gid zs \<equiv> map (item_entry tr mode uid gid) (concat (map (\<lambda>(r, t). tree_items r t) zs))"

lemma walk_stack_clean:
  assumes "\<forall>z \<in> set zs. is_dir (snd z) \<and> good_rel (fst z) \<and> shows_tree fs (host_path root (fst z)) (snd z) \<and> clean (fst z) (snd z)"
    and "sum_list (map (\<lambda>z. dir_count (snd z)) zs) \<le> n"
  shows "walk_stack n fs root tr mode uid gid b (map (\<lambda>z. host_path root (fst z)) zs) =
    Some (foldr_res append_tar b (entries_of tr mode uid gid zs))"
  using assms
proof (induction n arbitrary: b zs)
  case 0
  then have "zs = []" by (cases zs; cases "snd (hd zs)") auto
  then show ?case by simp
next
  case (Suc n)
  show ?case
  proof (cases zs)
    case (Cons z zs')
    with Suc.prems(1) obtain rel kids where z: "z = (rel, HDir kids)" "good_rel rel" "shows_tree fs (host_path root rel) (HDir kids)"
      "clean rel (HDir kids)" by (cases z; cases "snd z") auto
    from z(3) obtain names where names: "fs_read_dir fs (host_path root rel) = Inr names" "sort names = map fst kids" by auto
    have join: "path_join (host_path root rel) (fst kt) = host_path root (rel_join rel (fst kt))" if "kt \<in> set kids" for kt
      using z(3) that host_path_join [OF z(2), of root "fst kt"] by auto
    have kids: "\<forall>kt \<in> set kids. shows_tree fs (host_path root (rel_join rel (fst kt))) (snd kt) \<and> clean (rel_join rel (fst kt)) (snd kt) \<and>
      utf8_valid (as_bytes (rel_join rel (fst kt))) \<and> fst kt \<noteq> [] \<and> CHR ''/'' \<notin> set (fst kt)"
    proof
      fix kt assume kt: "kt \<in> set kids"
      show "shows_tree fs (host_path root (rel_join rel (fst kt))) (snd kt) \<and> clean (rel_join rel (fst kt)) (snd kt) \<and>
        utf8_valid (as_bytes (rel_join rel (fst kt))) \<and> fst kt \<noteq> [] \<and> CHR ''/'' \<notin> set (fst kt)"
        unfolding join [OF kt, symmetric] using z(3,4) kt by simp
    qed
    let ?zs = "subdirs rel kids @ zs'"
    let ?own = "map (\<lambda>kt. item_entry tr mode uid gid (rel, kt)) (rev kids)"
    have fold: "foldr_res (append_child fs root tr mode uid gid (host_path root rel)) (b, map (\<lambda>z. host_path root (fst z)) zs') (rev (map fst kids))
        = rbind (foldr_res append_tar b ?own) (\<lambda>b'. Inr (b', map (\<lambda>z. host_path root (fst z)) ?zs))"
      using append_children_clean [of "rev kids" fs root rel tr mode uid gid "(b, map (\<lambda>z. host_path root (fst z)) zs')"] kids z(2)
      by (simp add: rev_map rev_filter [symmetric] subdirs_def comp_def)
    have ok: "\<forall>z \<in> set ?zs. is_dir (snd z) \<and> good_rel (fst z) \<and> shows_tree fs (host_path root (fst z)) (snd z) \<and> clean (fst z) (snd z)"
      using kids Suc.prems(1) Cons good_rel_join [OF z(2)] by (auto simp: subdirs_def)
    have count: "sum_list (map (\<lambda>z. dir_count (snd z)) ?zs) \<le> n"
      using Suc.prems(2) Cons z(1) dir_count_subdirs [of kids] by (simp add: subdirs_def comp_def)
    have entries: "entries_of tr mode uid gid zs = ?own @ entries_of tr mode uid gid ?zs"
      unfolding Cons z(1) by (simp add: tree_items_subdirs)
    have "walk_stack (Suc n) fs root tr mode uid gid b (map (\<lambda>z. host_path root (fst z)) zs) =
      (case foldr_res append_tar b ?own of Inl e \<Rightarrow> Some (Inl e) | Inr b' \<Rightarrow> Some (foldr_res append_tar b' (entries_of tr mode uid gid ?zs)))"
      using Suc.IH [OF ok count] by (cases "foldr_res append_tar b ?own") (simp_all add: Cons z(1) names host_io_def fold del: map_append)
    then show ?thesis unfolding entries foldr_res_append by (cases "foldr_res append_tar b ?own") simp_all
  qed simp
qed

text \<open>
  The converse: a walk that succeeds has met nothing but proper entries, and has taken a round for each
  directory below its stack.
\<close>

lemma append_child_success:
  assumes "append_child fs root tr mode uid gid (host_path root rel) st n = Inr st'"
    and "shows_tree fs (host_path root (rel_join rel n)) t" and "good_rel rel" and "n \<noteq> []" and "CHR ''/'' \<notin> set n"
  shows "utf8_valid (as_bytes (rel_join rel n)) \<and> (is_dir t \<or> clean (rel_join rel n) t)"
proof -
  have path: "path_join (host_path root rel) n = host_path root (rel_join rel n)"
    using host_path_join [OF assms(3), of root n] assms(4) by blast
  have ne: "rel_join rel n \<noteq> []" using assms(4) by (simp add: rel_join_def)
  note strip = strip_host_path [OF good_rel_join [OF assms(3-5)] ne]
  show ?thesis using assms(1,2)
    by (cases t) (auto simp: append_child_def Let_def host_io_def path strip check_file_size_limit_def rbind_eq_Inr_iff split: if_splits)
qed

lemma append_children_success:
  assumes "foldr_res (append_child fs root tr mode uid gid (host_path root rel)) st (map fst kids) = Inr st'"
    and "\<forall>kt \<in> set kids. shows_tree fs (host_path root (rel_join rel (fst kt))) (snd kt) \<and> fst kt \<noteq> [] \<and> CHR ''/'' \<notin> set (fst kt)"
    and "good_rel rel"
  shows "\<forall>kt \<in> set kids. utf8_valid (as_bytes (rel_join rel (fst kt))) \<and> (is_dir (snd kt) \<or> clean (rel_join rel (fst kt)) (snd kt))"
  using assms(1,2)
proof (induction kids arbitrary: st)
  case (Cons kt kids)
  from Cons.prems(1) obtain st1 where st1: "append_child fs root tr mode uid gid (host_path root rel) st (fst kt) = Inr st1"
    "foldr_res (append_child fs root tr mode uid gid (host_path root rel)) st1 (map fst kids) = Inr st'"
    by (auto simp: rbind_eq_Inr_iff)
  from append_child_success [OF st1(1) _ assms(3), of "snd kt"] Cons.IH [OF st1(2)] Cons.prems(2) show ?case by simp
qed simp

lemma walk_stack_success:
  assumes "\<forall>z \<in> set zs. is_dir (snd z) \<and> good_rel (fst z) \<and> shows_tree fs (host_path root (fst z)) (snd z)"
    and "walk_stack n fs root tr mode uid gid b (map (\<lambda>z. host_path root (fst z)) zs) = Some (Inr b')"
  shows "(\<forall>z \<in> set zs. clean (fst z) (snd z)) \<and> sum_list (map (\<lambda>z. dir_count (snd z)) zs) \<le> n"
  using assms
proof (induction n arbitrary: b zs)
  case 0
  then show ?case by (cases zs) auto
next
  case (Suc n)
  show ?case
  proof (cases zs)
    case (Cons z zs')
    with Suc.prems(1) obtain rel kids where z: "z = (rel, HDir kids)" "good_rel rel" "shows_tree fs (host_path root rel) (HDir kids)"
      by (cases z; cases "snd z") auto
    from z(3) obtain names where names: "fs_read_dir fs (host_path root rel) = Inr names" "sort names = map fst kids" by auto
    have join: "path_join (host_path root rel) (fst kt) = host_path root (rel_join rel (fst kt))" if "kt \<in> set kids" for kt
      using z(3) that host_path_join [OF z(2), of root "fst kt"] by auto
    have kids: "\<forall>kt \<in> set kids. shows_tree fs (host_path root (rel_join rel (fst kt))) (snd kt) \<and> fst kt \<noteq> [] \<and> CHR ''/'' \<notin> set (fst kt)"
      using z(3) join by fastforce
    let ?zs = "subdirs rel kids @ zs'" and ?paths = "map (\<lambda>z. host_path root (fst z))"
    from Suc.prems(2) obtain st where
      fold: "foldr_res (append_child fs root tr mode uid gid (host_path root rel)) (b, ?paths zs') (map fst (rev kids)) = Inr st" and
      rest: "walk_stack n fs root tr mode uid gid (fst st) (snd st) = Some (Inr b')"
      by (auto simp: Cons z(1) names host_io_def rev_map split: sum.splits)
    have shown: "\<forall>kt \<in> set (rev kids). shows_tree fs (path_join (host_path root rel) (fst kt)) (snd kt)"
      using kids by (simp add: join)
    have "map (\<lambda>kt. path_join (host_path root rel) (fst kt)) (filter (is_dir \<circ> snd) kids) = ?paths (subdirs rel kids)"
      by (simp add: subdirs_def join)
    then have "snd st = ?paths ?zs"
      using append_children_stack [OF fold shown] by (simp add: rev_map rev_filter [symmetric])
    moreover have "\<forall>z \<in> set ?zs. is_dir (snd z) \<and> good_rel (fst z) \<and> shows_tree fs (host_path root (fst z)) (snd z)"
      using kids Suc.prems(1) Cons good_rel_join [OF z(2)] by (auto simp: subdirs_def)
    ultimately have IH: "\<forall>z \<in> set ?zs. clean (fst z) (snd z)" "sum_list (map (\<lambda>z. dir_count (snd z)) ?zs) \<le> n"
      using Suc.IH [of ?zs "fst st"] rest by simp_all
    have own: "\<forall>kt \<in> set kids. utf8_valid (as_bytes (rel_join rel (fst kt))) \<and> (is_dir (snd kt) \<or> clean (rel_join rel (fst kt)) (snd kt))"
      using append_children_success [OF fold _ z(2)] kids by simp
    have below: "clean (rel_join rel (fst kt)) (snd kt)" if "kt \<in> set kids" "is_dir (snd kt)" for kt
    proof -
      have "(rel_join rel (fst kt), snd kt) \<in> set ?zs" using that by (auto simp: subdirs_def)
      with IH(1) show ?thesis by fastforce
    qed
    have "clean rel (HDir kids)" using own below by auto
    then show ?thesis using IH dir_count_subdirs [of kids] by (simp add: Cons z(1) subdirs_def comp_def)
  qed simp
qed

text \<open>Every entry comes after the entry of the directory it is in.\<close>

fun parents_first :: "string set \<Rightarrow> (string \<times> string \<times> host_tree) list \<Rightarrow> bool" where
  "parents_first known [] = True"
| "parents_first known (x # xs) \<longleftrightarrow>
     fst x \<in> known \<and> parents_first (if is_dir (snd (snd x)) then insert (rel_join (fst x) (fst (snd x))) known else known) xs"

definition dirs_of :: "(string \<times> string \<times> host_tree) list \<Rightarrow> string set" where
  "dirs_of xs = {rel_join (fst x) (fst (snd x)) | x. x \<in> set xs \<and> is_dir (snd (snd x))}"

lemma parents_first_append: "parents_first known (xs @ ys) \<longleftrightarrow> parents_first known xs \<and> parents_first (known \<union> dirs_of xs) ys"
proof (induction xs arbitrary: known)
  case (Cons x xs)
  have "(if is_dir (snd (snd x)) then insert (rel_join (fst x) (fst (snd x))) known else known) \<union> dirs_of xs = known \<union> dirs_of (x # xs)"
    by (cases x) (auto simp: dirs_of_def)
  then show ?case using Cons by simp
qed (simp add: dirs_of_def)

lemma parents_first_mono: "parents_first known xs \<Longrightarrow> known \<subseteq> known' \<Longrightarrow> parents_first known' xs"
proof (induction xs arbitrary: known known')
  case (Cons x xs)
  let ?add = "\<lambda>known. if is_dir (snd (snd x)) then insert (rel_join (fst x) (fst (snd x))) known else known"
  have "?add known \<subseteq> ?add known'" using Cons.prems(2) by auto
  with Cons.IH [of "?add known" "?add known'"] Cons.prems show ?case by auto
qed simp

lemma parents_first_own: "rel \<in> known \<Longrightarrow> parents_first known (map (\<lambda>kt. (rel, kt)) kids)"
  by (induction kids arbitrary: known) auto

lemma parents_first_concat:
  "(\<And>xs. xs \<in> set xss \<Longrightarrow> parents_first known xs) \<Longrightarrow> parents_first known (concat xss)"
  by (induction xss) (auto simp: parents_first_append intro: parents_first_mono)

lemma tree_items_parents_first: "parents_first {rel} (tree_items rel t)"
proof (induction rel t rule: tree_items.induct)
  case (1 rel kids)
  let ?own = "map (\<lambda>kt. (rel, kt)) (rev kids)"
  have "parents_first ({rel} \<union> dirs_of ?own) (tree_items (rel_join rel (fst kt)) (snd kt))" if "kt \<in> set kids" for kt
  proof (cases "is_dir (snd kt)")
    case True
    with that have "{rel_join rel (fst kt)} \<subseteq> {rel} \<union> dirs_of ?own" by (auto simp: dirs_of_def)
    then show ?thesis by (rule parents_first_mono [OF 1 [OF that]])
  next
    case False
    then have "tree_items (rel_join rel (fst kt)) (snd kt) = []" by (cases "snd kt") simp_all
    then show ?thesis by simp
  qed
  then have "parents_first ({rel} \<union> dirs_of ?own) (concat (map (\<lambda>kt. tree_items (rel_join rel (fst kt)) (snd kt)) kids))"
    by (intro parents_first_concat) auto
  moreover have "parents_first {rel} ?own" by (rule parents_first_own) simp
  ultimately show ?case by (simp only: tree_items.simps parents_first_append simp_thms)
qed simp_all

section \<open>Properties\<close>

text \<open>
  C17. The target of a copy is accepted if and only if it is an absolute path each of whose pieces is a
  name: no piece is empty or \<open>..\<close> and the last is not \<open>.\<close>, so that an entry of the
  archive cannot leave the place it names. What follows the first slash is the name in the archive.
\<close>

theorem copy_target_accepted:
  "check_target path = Inr rel \<longleftrightarrow> path = CHR ''/'' # rel \<and> proper_target rel"
proof (cases "starts_with path ''/''")
  case True
  then obtain rel' where "path = CHR ''/'' # rel'" by (auto simp: starts_with_def prefix_def)
  then show ?thesis using check_target_rel by auto
next
  case False
  then show ?thesis by (auto simp: check_target_def starts_with_def)
qed

text \<open>
  C18. Packing a directory ends on every finite tree, whatever it holds, and takes exactly one round for
  each directory if it succeeds: as many rounds as the tree has directories always end it, and it never
  succeeds with fewer. It succeeds only on a tree of directories and files, under names that are UTF-8 and within the
  limit on a file, and then with an entry for everything in every directory.
\<close>

theorem copy_walk_terminates:
  assumes "shows_tree fs root (HDir kids)"
  shows "(\<forall>n \<ge> dir_count (HDir kids). append_host_directory n fs b root tar_root mode uid gid \<noteq> None) \<and>
     (append_host_directory n fs b root tar_root mode uid gid = Some (Inr b') \<longrightarrow>
        dir_count (HDir kids) \<le> n \<and> clean [] (HDir kids) \<and>
        foldr_res append_tar b (map (item_entry tar_root mode uid gid) (tree_items [] (HDir kids))) = Inr b')"
proof (intro conjI allI impI)
  fix n
  assume "dir_count (HDir kids) \<le> n"
  then show "append_host_directory n fs b root tar_root mode uid gid \<noteq> None"
    using walk_stack_terminates [of fs "[root]" "[HDir kids]" n root tar_root mode uid gid b] assms
    by (auto simp: append_host_directory_def simp del: shows_tree.simps dir_count.simps)
next
  let ?zs = "[([], HDir kids)]"
  assume run: "append_host_directory n fs b root tar_root mode uid gid = Some (Inr b')"
  have zs: "\<forall>z \<in> set ?zs. is_dir (snd z) \<and> good_rel (fst z) \<and> shows_tree fs (host_path root (fst z)) (snd z)"
    using assms by (simp add: host_path_def good_rel_def del: shows_tree.simps)
  have walk: "walk_stack n fs root tar_root mode uid gid b (map (\<lambda>z. host_path root (fst z)) ?zs) = Some (Inr b')"
    using run by (simp add: append_host_directory_def host_path_def)
  from walk_stack_success [OF zs walk] show n: "dir_count (HDir kids) \<le> n" and "clean [] (HDir kids)"
    by (simp_all del: clean.simps)
  then have "\<forall>z \<in> set ?zs. is_dir (snd z) \<and> good_rel (fst z) \<and> shows_tree fs (host_path root (fst z)) (snd z) \<and> clean (fst z) (snd z)"
    using zs by (simp del: clean.simps shows_tree.simps)
  from walk_stack_clean [OF this, of n tar_root mode uid gid b] n walk
  show "foldr_res append_tar b (map (item_entry tar_root mode uid gid) (tree_items [] (HDir kids))) = Inr b'"
    by (simp del: tree_items.simps clean.simps)
qed

text \<open>
  C19. Packing a directory of files and directories appends exactly one entry for each of them, with the
  file's bytes and the requested mode and owner, and each after the entry of the directory that
  holds it; it fails only if appending an entry fails.
\<close>

theorem copy_walk_complete:
  assumes "shows_tree fs root (HDir kids)" and "clean [] (HDir kids)" and "dir_count (HDir kids) \<le> n"
  shows "append_host_directory n fs b root tar_root mode uid gid =
     Some (foldr_res append_tar b (map (item_entry tar_root mode uid gid) (tree_items [] (HDir kids)))) \<and>
   parents_first {[]} (tree_items [] (HDir kids))"
proof
  let ?zs = "[([], HDir kids)]"
  have "\<forall>z \<in> set ?zs. is_dir (snd z) \<and> good_rel (fst z) \<and> shows_tree fs (host_path root (fst z)) (snd z) \<and> clean (fst z) (snd z)"
    using assms(1,2) by (simp add: host_path_def good_rel_def del: shows_tree.simps clean.simps)
  from walk_stack_clean [OF this, of n tar_root mode uid gid b] assms(3)
  show "append_host_directory n fs b root tar_root mode uid gid =
     Some (foldr_res append_tar b (map (item_entry tar_root mode uid gid) (tree_items [] (HDir kids))))"
    by (simp add: append_host_directory_def host_path_def del: tree_items.simps)
qed (rule tree_items_parents_first)

definition sample_fs :: host_fs where
  "sample_fs =
     \<lparr>fs_symlink_metadata = (\<lambda>p. if p \<in> {''/h'', ''/h/d''} then Inr (KindDir, 0) else if p = ''/h/d/f'' then Inr (KindFile, 2) else Inl (IoError NotFound p)),
      fs_read_dir = (\<lambda>p. if p = ''/h'' then Inr [''d''] else if p = ''/h/d'' then Inr [''f''] else Inl (IoError NotFound p)),
      fs_read = (\<lambda>p. if p = ''/h/d/f'' then Inr [7, 8] else Inl (IoError NotFound p))\<rparr>"

lemma sample_fs_shows: "shows_tree sample_fs ''/h'' (HDir [(''d'', HDir [(''f'', HFile [7, 8])])])"
  by (simp add: sample_fs_def path_join_def)

theorem copy_walk_terminates_witness:
  "append_host_directory 2 sample_fs builder_new ''/h'' ''t'' 420 0 0 \<noteq> None \<and>
   (\<forall>b'. append_host_directory 1 sample_fs builder_new ''/h'' ''t'' 420 0 0 \<noteq> Some (Inr b'))"
  using copy_walk_terminates [OF sample_fs_shows, of builder_new "''t''" 420 0 0 1] by auto

theorem copy_walk_complete_witness:
  "append_host_directory 2 sample_fs builder_new ''/h'' ''t'' 420 0 0 =
     Some (foldr_res append_tar builder_new [TarDir ''t/d/'' DIR_MODE 0 0, TarFile ''t/d/f'' [7, 8] 420 0 0])"
  using copy_walk_complete [OF sample_fs_shows, of 2 builder_new "''t''" 420 0 0]
  by (simp add: str_simps rel_join_def item_entry_def DOCKER_RESPONSE_BODY_LIMIT_def)

end
