(* ===== verification/Container_Async.thy ===== *)
theory Container_Async
  imports Copy_In
begin

text \<open>
  \<open>src/core/containers/async_container.rs\<close> and its \<open>exec.rs\<close> on Linux: the handle of a
  running container with its operations, its removal when it is dropped, and the exit code it
  shares with the threads that wait for the container to end.
\<close>

section \<open>The exit code and its generations\<close>

record wait_state =
  ws_generation :: u64
  ws_exit_code :: "int option"

definition new_wait_state :: wait_state where
  "new_wait_state = \<lparr>ws_generation = 0, ws_exit_code = None\<rparr>"

definition store_if_current :: "u64 \<Rightarrow> int \<Rightarrow> wait_state \<Rightarrow> bool \<times> wait_state" where
  "store_if_current generation code s =
     (if ws_generation s = generation then (True, s\<lparr>ws_exit_code := Some code\<rparr>) else (False, s))"

definition bump :: "wait_state \<Rightarrow> u64 \<times> wait_state" where
  "bump s = (ws_generation s + 1, \<lparr>ws_generation = ws_generation s + 1, ws_exit_code = None\<rparr>)"

section \<open>Handles\<close>

datatype container_log_source = NoLogs | DockerStream nat

record 'c container =
  co_id :: string
  co_request :: "'c container_request"
  co_dropped :: bool
  co_wait_state :: wait_state
  co_log_source :: container_log_source
  co_log_consumers :: "'c list option"

text \<open>
  What surrounds a handle beside the daemon: what the container shows while it is polled, the answer
  to a new log session, the number of polls that fit before a timeout, whether the tasks of a log
  session are done, whether a tokio runtime is entered, and the host's file system with a bound on
  its directories.
\<close>

record runtime =
  rt_view :: container_view
  rt_log_session :: "event list \<Rightarrow> string \<Rightarrow> unit result"
  rt_polls :: "duration \<Rightarrow> nat"
  rt_all_done :: "event list \<Rightarrow> bool"
  rt_in_runtime :: bool
  rt_fs :: host_fs
  rt_dirs :: nat

definition container_new ::
  "string \<Rightarrow> 'c container_request \<Rightarrow> wait_state \<Rightarrow> container_log_source \<Rightarrow> 'c list option \<Rightarrow> 'c container" where
  "container_new i r ws source consumers =
     \<lparr>co_id = i, co_request = r, co_dropped = False, co_wait_state = ws, co_log_source = source, co_log_consumers = consumers\<rparr>"

definition get_host :: string where
  "get_host = ''localhost''"

definition container_ports :: "'v world \<Rightarrow> 'c container \<Rightarrow> ports io" where
  "container_ports w c = docker_ports w (co_id c)"

definition get_host_port_ipv4 :: "'v world \<Rightarrow> 'c container \<Rightarrow> container_port \<Rightarrow> u16 io" where
  "get_host_port_ipv4 w c p = port_of w (co_id c) map_to_host_port_ipv4 p"

definition get_host_port_ipv6 :: "'v world \<Rightarrow> 'c container \<Rightarrow> container_port \<Rightarrow> u16 io" where
  "get_host_port_ipv6 w c p = port_of w (co_id c) map_to_host_port_ipv6 p"

definition container_state_of :: "'v world \<Rightarrow> 'c container \<Rightarrow> container_state io" where
  "container_state_of w c =
     io_bind (docker_container_state w (co_id c)) (\<lambda>snap.
     io_lift (Inr \<lparr>cs_id = co_id c, cs_host = get_host, cs_ports = snap_ports snap\<rparr>))"

definition is_running :: "'v world \<Rightarrow> 'c container \<Rightarrow> bool io" where
  "is_running w c = io_bind (docker_container_state w (co_id c)) (\<lambda>snap. io_lift (Inr (snap_running snap)))"

definition exit_code_hint :: "runtime \<Rightarrow> event list \<Rightarrow> int option" where
  "exit_code_hint rt h = ce_exit_hint (rt_view rt) h"

definition container_exit_code :: "'v world \<Rightarrow> runtime \<Rightarrow> 'c container \<Rightarrow> int option io" where
  "container_exit_code w rt c = (\<lambda>h.
     case exit_code_hint rt h of
       Some code \<Rightarrow> (Inr (Some code), h)
     | None \<Rightarrow> io_bind (docker_container_state w (co_id c)) (\<lambda>_. io_lift (Inr None)) h)"

section \<open>Copies out of the container\<close>

fun copy_from_error_text :: "copy_from_container_error \<Rightarrow> string" where
  "copy_from_error_text (CopyFromIo e) = ''I/O error: '' @ io_text e"
| "copy_from_error_text IsDirectory = ''is a directory''"
| "copy_from_error_text EmptyArchive = ''empty archive''"
| "copy_from_error_text (UnsupportedEntry s) = ''unsupported entry type: '' @ s"

text \<open>The last argument is \<open>copy_from_reader\<close> of the target; for a \<open>Vec\<close> it is \<open>Inr\<close>.\<close>

definition copy_file_from ::
  "'v world \<Rightarrow> 'c container \<Rightarrow> string \<Rightarrow> (u8 list \<Rightarrow> copy_from_container_error + 'a) \<Rightarrow> 'a io" where
  "copy_file_from w c source target =
     (if source = [] \<or> \<not> starts_with source ''/'' then io_lift (Inl (Other ''copy_file_from path must be absolute''))
      else
        io_bind (docker_copy_from w (co_id c) source) (\<lambda>tar. io_lift (
          map_err (\<lambda>e. Other (copy_from_error_text e)) (rbind (parse_first_regular_file_from_ustar tar) target))))"

section \<open>Commands\<close>

definition contains_bytes :: "u8 list \<Rightarrow> u8 list \<Rightarrow> bool" where
  "contains_bytes haystack needle = (needle = [] \<or> needle \<in> set (windows (length needle) haystack))"

definition is_log_wait :: "wait_for \<Rightarrow> bool" where
  "is_log_wait c = (case c of WaitLogs _ \<Rightarrow> True | _ \<Rightarrow> False)"

definition ready_conditions_require_log :: "wait_for list \<Rightarrow> bool" where
  "ready_conditions_require_log cs = list_ex is_log_wait cs"

definition log_source_is_none :: "'c container \<Rightarrow> bool" where
  "log_source_is_none c = (co_log_source c = NoLogs)"

text \<open>\<open>tokio::time::timeout\<close> around the wait for the conditions.\<close>

definition block_with_timeout :: "'v world \<Rightarrow> runtime \<Rightarrow> string \<Rightarrow> duration \<Rightarrow> wait_for list \<Rightarrow> unit io" where
  "block_with_timeout w rt i timeout conds =
     io_bind (block_until_ready (rt_polls rt timeout) w (rt_view rt) i conds) (\<lambda>r.
     io_lift (ok_or (WaitContainer (StartupTimeout i timeout)) r))"

definition check_cmd_condition :: "docker_exec_result \<Rightarrow> cmd_wait_for \<Rightarrow> unit io" where
  "check_cmd_condition raw cond =
     (case cond of
        CmdStdOutMessage message \<Rightarrow>
          if \<not> contains_bytes (er_stdout raw) message
          then io_lift (Inl (Other (''expected message not found in stdout: '' @ from_utf8_lossy message))) else io_lift (Inr ())
      | CmdStdErrMessage message \<Rightarrow>
          if \<not> contains_bytes (er_stderr raw) message
          then io_lift (Inl (Other (''expected message not found in stderr: '' @ from_utf8_lossy message))) else io_lift (Inr ())
      | CmdExit None \<Rightarrow> io_lift (Inr ())
      | CmdExit (Some code) \<Rightarrow>
          (case er_exit_code raw of
             Some actual \<Rightarrow>
               if actual \<noteq> code then io_lift (Inl (Exec (ExitCodeMismatch code actual))) else io_lift (Inr ())
           | None \<Rightarrow> io_lift (Inl (Other ''exec exit code is unavailable, cannot verify expected exit code'')))
      | CmdDuration d \<Rightarrow> io_event (Sleep d)
      | CmdNothing \<Rightarrow> io_lift (Inr ()))"

definition exec_environment :: "'v world \<Rightarrow> string \<Rightarrow> (string, string) btree_map \<Rightarrow> string list io" where
  "exec_environment w i vars =
     (if vars = [] then io_lift (Inr [])
      else io_bind (container_env w i) (\<lambda>env.
        io_lift (Inr (fold_env (List.map_filter (split_once CHR ''='') env) vars))))"

definition container_exec :: "'v world \<Rightarrow> runtime \<Rightarrow> 'c container \<Rightarrow> exec_command \<Rightarrow> docker_exec_result io" where
  "container_exec w rt c e =
     (if log_source_is_none c \<and> ready_conditions_require_log (ec_container_ready_conditions e)
      then io_lift (Inl (Other ''log wait requires a log source, but none is available''))
      else
        io_bind (exec_environment w (co_id c) (ec_env_vars e)) (\<lambda>env.
        io_bind (docker_exec w (co_id c) (ec_cmd e) env) (\<lambda>raw.
        io_bind (block_with_timeout w rt (co_id c) (startup_timeout (co_request c)) (ec_container_ready_conditions e)) (\<lambda>_.
        io_bind (check_cmd_condition raw (ec_cmd_ready_condition e)) (\<lambda>_.
        io_lift (Inr raw))))))"

definition exec_all :: "'v world \<Rightarrow> runtime \<Rightarrow> 'c container \<Rightarrow> exec_command list \<Rightarrow> unit io" where
  "exec_all w rt c cmds = io_for (\<lambda>e. io_bind (container_exec w rt c e) (\<lambda>_. io_lift (Inr ()))) cmds"

section \<open>Stopping, restarting, removing\<close>

definition stop_log_delivery :: "'c container \<Rightarrow> unit io" where
  "stop_log_delivery c =
     (case co_log_source c of DockerStream k \<Rightarrow> io_event (StopLogs k) | NoLogs \<Rightarrow> io_lift (Inr ()))"

definition stop_with_timeout :: "'v world \<Rightarrow> 'c container \<Rightarrow> int option \<Rightarrow> unit io" where
  "stop_with_timeout w c t = io_bind (stop_log_delivery c) (\<lambda>_. docker_stop w (co_id c) t)"

definition container_stop :: "'v world \<Rightarrow> 'c container \<Rightarrow> unit io" where
  "container_stop w c = stop_with_timeout w c None"

definition container_pause :: "'v world \<Rightarrow> 'c container \<Rightarrow> unit io" where
  "container_pause w c = docker_pause w (co_id c)"

definition container_unpause :: "'v world \<Rightarrow> 'c container \<Rightarrow> unit io" where
  "container_unpause w c = docker_unpause w (co_id c)"

text \<open>The session that is opened is named by the length of the history before it.\<close>

definition spawn_log_session :: "runtime \<Rightarrow> string \<Rightarrow> nat io" where
  "spawn_log_session rt i h =
     (map_sum id (\<lambda>_. length h) (rt_log_session rt h i), h @ [SpawnLogSession i])"

definition spawn_log_consumers :: "'c list option \<Rightarrow> nat \<Rightarrow> unit io" where
  "spawn_log_consumers consumers k =
     (case consumers of
        None \<Rightarrow> io_lift (Inr ())
      | Some _ \<Rightarrow> io_bind (io_event (SpawnConsumer k SrcStdOut)) (\<lambda>_. io_event (SpawnConsumer k SrcStdErr)))"

definition refresh_log_streams :: "'v world \<Rightarrow> runtime \<Rightarrow> 'c container \<Rightarrow> 'c container io" where
  "refresh_log_streams w rt c =
     io_bind (stop_log_delivery c) (\<lambda>_.
     io_bind (start_container w (co_id c)) (\<lambda>_.
     if co_log_source c = NoLogs then io_lift (Inr c)
     else
       io_bind (io_catch (spawn_log_session rt (co_id c))) (\<lambda>r.
       case r of
         Inl e \<Rightarrow> io_bind (io_catch (docker_stop w (co_id c) (Some 0))) (\<lambda>_. io_lift (Inl e))
       | Inr k \<Rightarrow>
           io_bind (spawn_log_consumers (co_log_consumers c) k) (\<lambda>_.
           io_lift (Inr (c\<lparr>co_log_source := DockerStream k\<rparr>))))))"

definition spawn_exit_code_waiter :: "string \<Rightarrow> u64 \<Rightarrow> unit io" where
  "spawn_exit_code_waiter i generation = io_event (SpawnWaiter i generation)"

definition reset_wait_state_and_respawn :: "'c container \<Rightarrow> 'c container io" where
  "reset_wait_state_and_respawn c =
     (let (generation, ws) = bump (co_wait_state c)
      in io_bind (spawn_exit_code_waiter (co_id c) generation) (\<lambda>_. io_lift (Inr (c\<lparr>co_wait_state := ws\<rparr>))))"

text \<open>The handle is shared: what a start that fails has changed of it stays changed.\<close>

definition container_start ::
  "'v world \<Rightarrow> runtime \<Rightarrow> 'c container \<Rightarrow> event list \<Rightarrow> (unit result \<times> 'c container) \<times> event list" where
  "container_start w rt c h =
     (case io_bind (is_running w c) (\<lambda>running.
             if running then io_lift (Inr c)
             else io_bind (refresh_log_streams w rt c) reset_wait_state_and_respawn) h of
        (Inl e, h1) \<Rightarrow> ((Inl e, c), h1)
      | (Inr c', h1) \<Rightarrow>
          (case io_bind (container_state_of w c') (\<lambda>state.
                  io_bind (io_lift (img_exec_after_start (cr_image (co_request c')) state)) (exec_all w rt c')) h1 of
             (r, h2) \<Rightarrow> ((r, c'), h2)))"

fun drop_poll :: "nat \<Rightarrow> runtime \<Rightarrow> unit io" where
  "drop_poll 0 rt = io_lift (Inr ())"
| "drop_poll (Suc n) rt = (\<lambda>h.
     if rt_all_done rt h then (Inr (), h) else io_bind (io_event (Sleep (from_millis 50))) (\<lambda>_. drop_poll n rt) h)"

definition removal_wanted :: "'v world \<Rightarrow> bool" where
  "removal_wanted w = (env_command (w_env w ''TESTCONTAINERS_COMMAND'') = Remove)"

text \<open>
  \<open>Drop\<close>. Inside a runtime the removal runs on a thread of its own, outside on the caller's; its
  outcome, or that it takes longer than \<open>DROP_REMOVE_TIMEOUT\<close>, is only logged.
\<close>

definition drop_container :: "'v world \<Rightarrow> runtime \<Rightarrow> 'c container \<Rightarrow> unit io" where
  "drop_container w rt c =
     io_bind (stop_log_delivery c) (\<lambda>_.
     io_bind (if co_log_source c \<noteq> NoLogs \<and> \<not> rt_in_runtime rt then drop_poll 20 rt else io_lift (Inr ())) (\<lambda>_.
     if co_dropped c \<or> \<not> removal_wanted w then io_lift (Inr ())
     else io_bind (io_catch (remove_blocking w (co_id c) True)) (\<lambda>_. io_lift (Inr ()))))"

text \<open>The handle is consumed: \<open>Drop\<close> runs when the method returns, with an error as well.\<close>

definition remove_then_drop :: "unit io \<Rightarrow> 'v world \<Rightarrow> runtime \<Rightarrow> 'c container \<Rightarrow> unit io" where
  "remove_then_drop remove w rt c =
     io_bind (stop_log_delivery c) (\<lambda>_.
     io_bind (io_catch remove) (\<lambda>r.
     io_bind (drop_container w rt (case r of Inr _ \<Rightarrow> c\<lparr>co_dropped := True\<rparr> | Inl _ \<Rightarrow> c)) (\<lambda>_.
     io_lift r)))"

definition container_rm :: "'v world \<Rightarrow> runtime \<Rightarrow> 'c container \<Rightarrow> unit io" where
  "container_rm w rt c = remove_then_drop (docker_remove w (co_id c) True) w rt c"

definition container_rm_blocking :: "'v world \<Rightarrow> runtime \<Rightarrow> 'c container \<Rightarrow> unit io" where
  "container_rm_blocking w rt c = remove_then_drop (remove_blocking w (co_id c) True) w rt c"

end
