(* ===== verification/Io_Events.thy ===== *)
theory Io_Events
  imports Container_Async
begin

text \<open>
  What an operation can do to the outside: every operation only appends to the history, and the
  events it appends belong to a class that is checked request by request. The locale collects what
  a class must allow for the operations on one container to stay within it; it is interpreted for
  the requests that remove nothing and for those that pull nothing.
\<close>

named_theorems emits_intros

definition emits :: "('e \<Rightarrow> bool) \<Rightarrow> ('e, 'a) effect \<Rightarrow> bool" where
  "emits P m \<longleftrightarrow> (\<forall>h. \<exists>es. snd (m h) = h @ es \<and> list_all P es)"

lemma emitsE:
  assumes "emits P m" and "m h = (r, h')"
  obtains es where "h' = h @ es" "list_all P es"
  using assms unfolding emits_def by (metis snd_conv)

lemma emits_mono: "emits P m \<Longrightarrow> (\<And>e. P e \<Longrightarrow> Q e) \<Longrightarrow> emits Q m"
  unfolding emits_def by (metis list.pred_mono_strong)

lemma emits_lift [emits_intros]: "emits P (io_lift r)"
  by (simp add: emits_def io_lift_def)

lemma emits_pair [simp]: "emits P (Pair r)"
  by (simp add: emits_def)

lemma emits_event [emits_intros]: "P e \<Longrightarrow> emits P (io_event e)"
  by (simp add: emits_def io_event_def)

lemma emits_http [emits_intros]: "P (Http rq) \<Longrightarrow> emits P (http w rq)"
  by (simp add: emits_def http_def)

lemma emits_catch [emits_intros]: "emits P m \<Longrightarrow> emits P (io_catch m)"
  unfolding emits_def io_catch_def by (metis (no_types, lifting) case_prod_conv prod.collapse snd_conv)

lemma emits_map_err [emits_intros]: "emits P m \<Longrightarrow> emits P (io_map_err f m)"
  unfolding emits_def io_map_err_def by (metis (no_types, lifting) case_prod_conv prod.collapse snd_conv)

lemma emits_bind [emits_intros]:
  assumes "emits P m" and "\<And>x. emits P (k x)"
  shows "emits P (io_bind m k)"
  unfolding emits_def
proof
  fix h
  obtain r h1 where m: "m h = (r, h1)" by fastforce
  obtain es where es: "h1 = h @ es" "list_all P es" using emitsE [OF assms(1) m] .
  show "\<exists>es. snd (io_bind m k h) = h @ es \<and> list_all P es"
  proof (cases r)
    case (Inl e)
    with m es show ?thesis by (simp add: io_bind_def)
  next
    case (Inr x)
    obtain es' where "snd (k x h1) = h1 @ es'" "list_all P es'" using assms(2) unfolding emits_def by blast
    with m es Inr show ?thesis by (simp add: io_bind_def)
  qed
qed

lemma emits_for [emits_intros]: "(\<And>x. x \<in> set xs \<Longrightarrow> emits P (f x)) \<Longrightarrow> emits P (io_for f xs)"
  by (induction xs) (auto intro: emits_intros)

text \<open>An operation that looks at the history may choose a different operation at each one.\<close>

lemma emits_choice: "(\<And>h. \<exists>m. emits P m \<and> f h = m h) \<Longrightarrow> emits P f"
  unfolding emits_def by metis

lemma emits_if [emits_intros]: "(b \<Longrightarrow> emits P m) \<Longrightarrow> (\<not> b \<Longrightarrow> emits P m') \<Longrightarrow> emits P (if b then m else m')"
  by simp

lemma emits_option [emits_intros]:
  "(v = None \<Longrightarrow> emits P m) \<Longrightarrow> (\<And>x. v = Some x \<Longrightarrow> emits P (k x)) \<Longrightarrow> emits P (case v of None \<Rightarrow> m | Some x \<Rightarrow> k x)"
  by (cases v) simp_all

lemma emits_sum [emits_intros]:
  "(\<And>e. v = Inl e \<Longrightarrow> emits P (m e)) \<Longrightarrow> (\<And>x. v = Inr x \<Longrightarrow> emits P (k x)) \<Longrightarrow>
   emits P (case v of Inl e \<Rightarrow> m e | Inr x \<Rightarrow> k x)"
  by (cases v) simp_all

lemma emits_prod [emits_intros]: "(\<And>a b. v = (a, b) \<Longrightarrow> emits P (k a b)) \<Longrightarrow> emits P (case v of (a, b) \<Rightarrow> k a b)"
  by (cases v) simp_all

lemma emits_cons [emits_intros]: "emits P m \<Longrightarrow> emits P (Let x (\<lambda>_. m))"
  by (simp add: Let_def)

lemma emits_some [emits_intros]: "emits P m \<Longrightarrow> emits P (io_some m)"
  unfolding io_some_def by (intro emits_intros)

lemma emits_opt [emits_intros]: "emits P (io_opt r)"
  unfolding emits_def io_opt_def by (auto split: option.splits sum.splits)

lemma emits_and_then [emits_intros]: "emits P m \<Longrightarrow> (\<And>x. emits P (k x)) \<Longrightarrow> emits P (io_and_then m k)"
  unfolding io_and_then_def by (intro emits_intros)

section \<open>Classes of events\<close>

locale container_events =
  fixes P :: "event \<Rightarrow> bool"
  assumes quiet_sleep: "P (Sleep d)"
    and quiet_session: "P (SpawnLogSession i)"
    and quiet_waiter: "P (SpawnWaiter i g)"
    and quiet_consumer: "P (SpawnConsumer k src)"
    and quiet_stop: "P (StopLogs k)"
    and quiet_request: "rq_method rq \<noteq> ''DELETE'' \<Longrightarrow> rq_path rq = container_path i s \<or> rq_path rq = ''/exec/'' @ s \<Longrightarrow> P (Http rq)"
begin

lemmas quiet = quiet_sleep quiet_session quiet_waiter quiet_consumer quiet_stop

lemma emits_container_request:
  "m \<noteq> ''DELETE'' \<Longrightarrow> emits P (request w m (container_path i s) b)"
  "m \<noteq> ''DELETE'' \<Longrightarrow> emits P (request w m (''/exec/'' @ s) b)"
  "m \<noteq> ''DELETE'' \<Longrightarrow> emits P (request_with_body_limit w m (container_path i s) b l)"
  "m \<noteq> ''DELETE'' \<Longrightarrow> emits P (request_with_body_limit w m (''/exec/'' @ s) b l)"
  "m \<noteq> ''DELETE'' \<Longrightarrow> emits P (request_with_content_type w m (container_path i s) bd ct)"
  unfolding request_def request_with_body_limit_def request_with_content_type_def
  by (auto intro!: emits_http quiet_request [of _ i s])

lemmas requests = emits_container_request

lemma emits_inspect: "emits P (inspect_json w i)" "emits P (docker_container_state w i)" "emits P (docker_ports w i)"
  "emits P (container_health w i)" "emits P (container_env w i)"
proof -
  show i: "emits P (inspect_json w i)" unfolding inspect_json_def by (intro emits_intros requests) simp
  show s: "emits P (docker_container_state w i)" unfolding docker_container_state_def by (intro emits_intros i)
  show "emits P (docker_ports w i)" unfolding docker_ports_def by (intro emits_intros s)
  show "emits P (container_health w i)" unfolding container_health_def Let_def by (intro emits_intros i)
  show "emits P (container_env w i)" unfolding container_env_def Let_def by (intro emits_intros i)
qed

lemma emits_start_stop: "emits P (start_container w i)" "emits P (docker_stop w i t)" "emits P (docker_copy_to w i d tar)"
  unfolding start_container_def docker_stop_def docker_copy_to_def Let_def
  by (intro emits_intros requests; simp)+

lemma emits_copy: "emits P (copy_sources n w fs i srcs)"
proof (induction srcs)
  case (Cons src srcs)
  then show ?case by (simp only: copy_sources.simps) (intro emits_intros emits_start_stop)
qed (simp add: emits_lift)

lemma emits_exec_inspect: "emits P (exec_inspect_loop w e ms states)"
proof (induction ms arbitrary: states)
  case Nil
  then show ?case unfolding exec_inspect_loop.simps exec_inspect_def by (intro emits_intros requests) simp
next
  case (Cons ms rest)
  then show ?case unfolding exec_inspect_loop.simps exec_inspect_def Let_def by (intro emits_intros requests quiet) simp_all
qed

lemma emits_exec: "emits P (docker_exec w i cmd env)"
  unfolding docker_exec_def Let_def by (intro emits_intros requests emits_exec_inspect; simp)

lemma emits_health_wait: "emits P (health_wait_loop n w i poll sr)"
proof (induction n arbitrary: sr)
  case (Suc n)
  have "emits P (case v of None \<Rightarrow> m1 | Some Starting \<Rightarrow> m2 | Some Healthy \<Rightarrow> m3 | Some UnhealthyStatus \<Rightarrow> m4)"
    if "emits P m1" "emits P m2" "emits P m3" "emits P m4" for v and m1 m2 m3 m4 :: "'x io"
    using that by (cases v; cases "the v") auto
  note health_case = this
  show ?case unfolding health_wait_loop.simps Let_def by (intro emits_intros emits_inspect health_case quiet Suc)
qed (simp add: emits_lift)

lemma emits_exit_wait: "emits P (exit_wait_until_ready n w ce i s)"
proof (induction n)
  case (Suc n)
  show ?case
  proof (rule emits_choice)
    fix h
    let ?poll = "io_bind (docker_container_state w i) (\<lambda>state.
      if \<not> snap_running state \<and> ew_expected_code s = None then io_lift (Inr (Some ()))
      else io_bind (io_event (Sleep (ew_poll_interval s))) (\<lambda>_. exit_wait_until_ready n w ce i s))"
    show "\<exists>m. emits P m \<and> exit_wait_until_ready (Suc n) w ce i s h = m h"
    proof (cases "ce_exit_hint ce h")
      case None
      have "emits P ?poll" by (intro emits_intros emits_inspect quiet Suc)
      with None show ?thesis by (intro exI [of _ ?poll]) simp
    next
      case (Some code)
      have "emits P (io_lift (fst (exit_wait_until_ready (Suc n) w ce i s h)))" by (rule emits_lift)
      with Some show ?thesis
        by (intro exI [of _ "io_lift (fst (exit_wait_until_ready (Suc n) w ce i s h))"]) (auto simp: io_lift_def split: option.split)
    qed
  qed
qed (simp add: emits_lift)

lemma emits_http_loop: "emits P (http_wait_loop n ce s matcher host port bytes)"
proof (induction n)
  case (Suc n)
  show ?case
  proof (rule emits_choice)
    fix h
    let ?again = "io_bind (io_event (Sleep (hs_poll_interval s))) (\<lambda>_. http_wait_loop n ce s matcher host port bytes)"
    have again: "emits P ?again" by (intro emits_intros quiet Suc)
    have ready: "emits P (io_lift (Inr (Some ())))" by (rule emits_lift)
    show "\<exists>m. emits P m \<and> http_wait_loop (Suc n) ce s matcher host port bytes h = m h"
    proof (cases "\<exists>rsp. send_request ce s host port bytes h = Inr rsp \<and> matcher rsp")
      case True
      then show ?thesis by (intro exI [of _ "io_lift (Inr (Some ()))"] conjI ready) (auto simp: io_lift_def)
    next
      case False
      then show ?thesis by (intro exI [of _ ?again] conjI again) (auto split: sum.split)
    qed
  qed
qed (simp add: emits_lift)

lemma emits_http_wait: "emits P (http_wait_until_ready n w ce i s)"
  unfolding http_wait_until_ready_def http_wait_port_def port_of_def
  by (intro emits_intros emits_inspect emits_http_loop)

lemma emits_log_wait:
  "emits P (\<lambda>h. case log_wait_until_ready s (turns h) of None \<Rightarrow> (Inr None, h) | Some (Inr _, _) \<Rightarrow> (Inr (Some ()), h) | Some (Inl e, _) \<Rightarrow> (Inl e, h))"
  by (auto simp: emits_def split: option.splits sum.splits)

lemma emits_wait: "emits P (wait_until_ready n w ce i c)"
proof (cases c)
  case (WaitLogs s)
  then show ?thesis using emits_log_wait by (simp add: wait_until_ready_def)
next
  case (WaitDuration d)
  then show ?thesis by (simp add: wait_until_ready_def) (intro emits_intros quiet)
qed (simp_all add: wait_until_ready_def health_wait_until_ready_def emits_lift emits_health_wait emits_exit_wait emits_http_wait)

lemma emits_block: "emits P (block_until_ready n w ce i cs)"
proof (induction cs)
  case (Cons c cs)
  then show ?case by (simp only: block_until_ready.simps) (intro emits_intros emits_wait)
qed (simp add: emits_lift)

lemma emits_cmd_condition: "emits P (check_cmd_condition raw cond)"
proof (cases cond)
  case (CmdExit code)
  then show ?thesis by (cases code; cases "er_exit_code raw") (simp_all add: check_cmd_condition_def emits_lift)
qed (simp_all add: check_cmd_condition_def emits_lift emits_event quiet)

lemma emits_container_exec: "emits P (container_exec w rt c e)"
  unfolding container_exec_def exec_environment_def block_with_timeout_def
  by (intro emits_intros emits_inspect emits_exec emits_block emits_cmd_condition)

lemma emits_exec_all: "emits P (exec_all w rt c cmds)"
  unfolding exec_all_def by (intro emits_intros emits_container_exec)

lemma emits_stop_logs: "emits P (stop_log_delivery c)"
  by (cases "co_log_source c") (simp_all add: stop_log_delivery_def emits_lift emits_event quiet)

lemma emits_session: "emits P (spawn_log_session rt i)" "emits P (spawn_log_consumers consumers k)" "emits P (spawn_exit_code_waiter i g)"
proof -
  show "emits P (spawn_log_session rt i)" by (simp add: emits_def spawn_log_session_def quiet)
  show "emits P (spawn_log_consumers consumers k)" unfolding spawn_log_consumers_def by (intro emits_intros quiet)
  show "emits P (spawn_exit_code_waiter i g)" unfolding spawn_exit_code_waiter_def by (intro emits_intros quiet)
qed

lemma emits_drop_poll: "emits P (drop_poll n rt)"
proof (induction n)
  case (Suc n)
  show ?case
  proof (rule emits_choice)
    fix h
    let ?again = "io_bind (io_event (Sleep (from_millis 50))) (\<lambda>_. drop_poll n rt)"
    have "emits P ?again" "emits P (io_lift (Inr ()))" by (intro emits_intros quiet Suc)+
    then show "\<exists>m. emits P m \<and> drop_poll (Suc n) rt h = m h"
      by (cases "rt_all_done rt h")
        (rule exI [of _ "io_lift (Inr ())"], simp add: io_lift_def, rule exI [of _ ?again], simp)
  qed
qed (simp add: emits_lift)

end

definition is_delete :: "event \<Rightarrow> bool" where
  "is_delete e \<longleftrightarrow> (\<exists>rq. e = Http rq \<and> rq_method rq = ''DELETE'')"

definition is_pull :: "event \<Rightarrow> bool" where
  "is_pull e \<longleftrightarrow> (\<exists>rq. e = Http rq \<and> rq_method rq = ''POST'' \<and> starts_with (rq_path rq) ''/images/create?'')"

interpretation keeping: container_events "\<lambda>e. \<not> is_delete e"
  by unfold_locales (auto simp: is_delete_def)

interpretation pulling: container_events "\<lambda>e. \<not> is_pull e"
  by unfold_locales (auto simp: is_pull_def starts_with_def container_path_def)

end
