(* ===== verification/Lifecycle.thy ===== *)
theory Lifecycle
  imports Io_Events
begin

text \<open>
  What holds over the life of a container handle: which requests remove the container, when a
  command's condition is met, and which run of the container a recorded exit code belongs to.
\<close>

section \<open>Removals\<close>

definition removals :: "event list \<Rightarrow> event list" where
  "removals es = filter is_delete es"

abbreviation removal :: "string \<Rightarrow> event" where
  "removal i \<equiv> Http (remove_request i True)"

lemma is_delete_removal [simp]: "is_delete (removal i)"
  by (simp add: is_delete_def remove_request_def)

lemma removals_simps [simp]: "removals [] = []" "removals (xs @ ys) = removals xs @ removals ys"
  "removals (e # es) = (if is_delete e then e # removals es else removals es)"
  by (simp_all add: removals_def)

lemma removals_none: "list_all (\<lambda>e. \<not> is_delete e) es \<Longrightarrow> removals es = []"
  by (simp add: removals_def filter_empty_conv list_all_iff)

lemma remove_history:
  "snd (docker_remove w i True h) = h @ [removal i]" "snd (remove_blocking w i True h) = h @ [removal i]"
  by (simp_all add: docker_remove_def remove_blocking_def io_bind_def http_def io_lift_def split: sum.split)

lemma drop_history:
  "\<exists>es. drop_container w rt c h = (Inr (), h @ es) \<and>
     removals es = (if removal_wanted w \<and> \<not> co_dropped c then [removal (co_id c)] else [])"
proof -
  let ?poll = "if co_log_source c \<noteq> NoLogs \<and> \<not> rt_in_runtime rt then drop_poll 20 rt else io_lift (Inr ())"
  obtain h1 where s: "stop_log_delivery c h = (Inr (), h1)"
    by (cases "co_log_source c") (simp_all add: stop_log_delivery_def io_event_def)
  obtain es1 where es1: "h1 = h @ es1" "list_all (\<lambda>e. \<not> is_delete e) es1" using emitsE [OF keeping.emits_stop_logs s] .
  have "fst (drop_poll n rt h) = Inr ()" for n h
    by (induction n arbitrary: h) (simp_all add: io_bind_def io_event_def)
  then obtain h2 where p: "?poll h1 = (Inr (), h2)" by (cases "?poll h1") (auto split: if_splits, metis fst_conv)
  have "emits (\<lambda>e. \<not> is_delete e) ?poll" by (intro emits_intros keeping.emits_drop_poll)
  from emitsE [OF this p] obtain es2 where es2: "h2 = h1 @ es2" "list_all (\<lambda>e. \<not> is_delete e) es2" .
  obtain r where rm: "remove_blocking w (co_id c) True h2 = (r, h2 @ [removal (co_id c)])"
    using remove_history(2) [of w "co_id c" h2] by (cases "remove_blocking w (co_id c) True h2") simp
  show ?thesis
  proof (cases "co_dropped c \<or> \<not> removal_wanted w")
    case True
    then have "drop_container w rt c h = (Inr (), h @ es1 @ es2)"
      using s p es1(1) es2(1) by (simp add: drop_container_def io_bind_def)
    then show ?thesis using True removals_none [OF es1(2)] removals_none [OF es2(2)] by auto
  next
    case False
    then have "drop_container w rt c h = (Inr (), h @ es1 @ es2 @ [removal (co_id c)])"
      using s p es1(1) es2(1) rm by (simp add: drop_container_def io_bind_def io_catch_def)
    then show ?thesis using False removals_none [OF es1(2)] removals_none [OF es2(2)] by auto
  qed
qed

lemma remove_then_drop_history:
  assumes "\<And>h. snd (remove h) = h @ [removal (co_id c)]"
  shows "\<exists>r es. remove_then_drop remove w rt c h = (r, h @ es) \<and>
     removals es = removal (co_id c) # (if removal_wanted w \<and> \<not> co_dropped c \<and> (\<exists>e. r = Inl e) then [removal (co_id c)] else [])"
proof -
  obtain h1 where s: "stop_log_delivery c h = (Inr (), h1)"
    by (cases "co_log_source c") (simp_all add: stop_log_delivery_def io_event_def)
  obtain es1 where es1: "h1 = h @ es1" "list_all (\<lambda>e. \<not> is_delete e) es1" using emitsE [OF keeping.emits_stop_logs s] .
  obtain r where rm: "remove h1 = (r, h1 @ [removal (co_id c)])" using assms [of h1] by (cases "remove h1") simp
  let ?c = "case r of Inr _ \<Rightarrow> c\<lparr>co_dropped := True\<rparr> | Inl _ \<Rightarrow> c"
  obtain es2 where es2: "drop_container w rt ?c (h1 @ [removal (co_id c)]) = (Inr (), (h1 @ [removal (co_id c)]) @ es2)"
    "removals es2 = (if removal_wanted w \<and> \<not> co_dropped ?c then [removal (co_id ?c)] else [])" using drop_history by blast
  have "remove_then_drop remove w rt c h = (r, h @ es1 @ [removal (co_id c)] @ es2)"
    using s rm es1(1) es2(1) by (simp add: remove_then_drop_def io_bind_def io_catch_def)
  moreover have "removals es2 = (if removal_wanted w \<and> \<not> co_dropped c \<and> (\<exists>e. r = Inl e) then [removal (co_id c)] else [])"
    using es2(2) by (cases r) auto
  ultimately show ?thesis using removals_none [OF es1(2)] by auto
qed

section \<open>Commands\<close>

lemma contains_bytes_iff: "contains_bytes haystack needle \<longleftrightarrow> sublist needle haystack"
proof
  assume "contains_bytes haystack needle"
  then consider "needle = []" | i where "needle = take (length needle) (drop i haystack)"
    by (auto simp: contains_bytes_def windows_def)
  then show "sublist needle haystack"
    by cases (simp, metis sublist_drop sublist_order.order_trans sublist_take)
next
  assume "sublist needle haystack"
  then obtain u v where "haystack = u @ needle @ v" by (auto simp: sublist_def)
  then have "needle = take (length needle) (drop (length u) haystack)" "length u < length haystack + 1 - length needle"
    by simp_all
  then show "contains_bytes haystack needle" by (auto simp: contains_bytes_def windows_def image_iff intro!: bexI [of _ "length u"])
qed

definition condition_met :: "docker_exec_result \<Rightarrow> cmd_wait_for \<Rightarrow> bool" where
  "condition_met raw cond =
     (case cond of
        CmdStdOutMessage m \<Rightarrow> sublist m (er_stdout raw)
      | CmdStdErrMessage m \<Rightarrow> sublist m (er_stderr raw)
      | CmdExit (Some code) \<Rightarrow> er_exit_code raw = Some code
      | _ \<Rightarrow> True)"

lemma check_cmd_condition_met: "fst (check_cmd_condition raw cond h) = Inr () \<longleftrightarrow> condition_met raw cond"
proof (cases cond)
  case (CmdExit code)
  then show ?thesis
    by (cases code; cases "er_exit_code raw") (auto simp: check_cmd_condition_def condition_met_def)
qed (simp_all add: check_cmd_condition_def condition_met_def contains_bytes_iff io_event_def)

lemma io_bind_InrE:
  assumes "io_bind m k h = (Inr y, h')"
  obtains x h1 where "m h = (Inr x, h1)" "k x h1 = (Inr y, h')"
  using assms by (auto simp: io_bind_def split: prod.splits sum.splits)

section \<open>Runs and generations\<close>

text \<open>
  The exit code is written by the threads that wait for the container while it may be stopped and
  started again. The daemon counts the runs of the container; a thread spawned during a run reports
  an exit code of that run or of a later one, never of one that ended before. \<open>sys_armed\<close> is the
  run for which the current generation was made, \<open>sys_arms\<close> the number of generations so far.
\<close>

record wait_system =
  sys_wait :: wait_state
  sys_run :: nat
  sys_armed :: nat
  sys_arms :: nat
  sys_waiters :: "(u64 \<times> nat \<times> nat) list"

definition system_started :: wait_system where
  "system_started = \<lparr>sys_wait = new_wait_state, sys_run = 1, sys_armed = 1, sys_arms = 0, sys_waiters = [(0, 0, 1)]\<rparr>"

inductive wait_step :: "(nat \<Rightarrow> int set) \<Rightarrow> wait_system \<Rightarrow> wait_system \<Rightarrow> bool" for codes where
  step_start: "wait_step codes s (s\<lparr>sys_run := sys_run s + 1\<rparr>)"
| step_rearm:
  "bump (sys_wait s) = (g, ws) \<Longrightarrow>
   wait_step codes s (s\<lparr>sys_wait := ws, sys_armed := sys_run s, sys_arms := sys_arms s + 1,
     sys_waiters := (g, sys_arms s + 1, sys_run s) # sys_waiters s\<rparr>)"
| step_report:
  "(g, k, r) \<in> set (sys_waiters s) \<Longrightarrow> r \<le> r' \<Longrightarrow> r' \<le> sys_run s \<Longrightarrow> code \<in> codes r' \<Longrightarrow>
   store_if_current g code (sys_wait s) = (stored, ws) \<Longrightarrow>
   wait_step codes s (s\<lparr>sys_wait := ws, sys_waiters := remove1 (g, k, r) (sys_waiters s)\<rparr>)"

definition reaches :: "(nat \<Rightarrow> int set) \<Rightarrow> wait_system \<Rightarrow> bool" where
  "reaches codes s \<longleftrightarrow> (wait_step codes)\<^sup>*\<^sup>* system_started s"

definition wait_inv :: "(nat \<Rightarrow> int set) \<Rightarrow> wait_system \<Rightarrow> bool" where
  "wait_inv codes s \<longleftrightarrow>
     ws_generation (sys_wait s) = of_nat (sys_arms s) \<and> sys_armed s \<le> sys_run s \<and>
     (\<forall>(g, k, r) \<in> set (sys_waiters s). g = of_nat k \<and> k \<le> sys_arms s \<and> (k = sys_arms s \<longrightarrow> r = sys_armed s)) \<and>
     (\<forall>code. ws_exit_code (sys_wait s) = Some code \<longrightarrow> (\<exists>r. sys_armed s \<le> r \<and> r \<le> sys_run s \<and> code \<in> codes r))"

lemma wait_inv_started: "wait_inv codes system_started"
  by (simp add: wait_inv_def system_started_def new_wait_state_def)

lemma arms_mono: "wait_step codes s s' \<Longrightarrow> sys_arms s \<le> sys_arms s'"
  by (induction rule: wait_step.induct) simp_all

lemma generation_inject:
  assumes "(of_nat k :: u64) = of_nat n" and "k \<le> n" and "n < 2 ^ 64"
  shows "k = n"
proof -
  have "unat (of_nat k :: u64) = k" "unat (of_nat n :: u64) = n" using assms(2,3) by (simp_all add: unat_of_nat)
  then show ?thesis using assms(1) by metis
qed

lemma wait_inv_step:
  assumes "wait_step codes s s'" and "wait_inv codes s" and "sys_arms s' < 2 ^ 64"
  shows "wait_inv codes s'"
  using assms(1)
proof (cases rule: wait_step.cases)
  case step_start
  then show ?thesis using assms(2) by (fastforce simp: wait_inv_def)
next
  case (step_rearm g ws)
  then show ?thesis using assms(2) by (auto simp: wait_inv_def bump_def)
next
  case (step_report g k r r' code stored ws)
  have sub: "set (remove1 (g, k, r) (sys_waiters s)) \<subseteq> set (sys_waiters s)" by (rule set_remove1_subset)
  have waiter: "g = of_nat k" "k \<le> sys_arms s" "k = sys_arms s \<Longrightarrow> r = sys_armed s"
    using assms(2) step_report(2) by (auto simp: wait_inv_def)
  have arms: "sys_arms s < 2 ^ 64" using assms(3) step_report(1) by simp
  show ?thesis
  proof (cases "ws_generation (sys_wait s) = g")
    case True
    then have "k = sys_arms s" using assms(2) waiter(1,2) arms generation_inject [of k "sys_arms s"] by (simp add: wait_inv_def)
    with waiter(3) step_report(3) have "sys_armed s \<le> r'" by simp
    then show ?thesis using True assms(2) step_report sub
      by (auto simp: wait_inv_def store_if_current_def)
  next
    case False
    then show ?thesis using assms(2) step_report sub by (auto simp: wait_inv_def store_if_current_def)
  qed
qed

lemma wait_inv_reaches:
  assumes "reaches codes s" and "sys_arms s < 2 ^ 64"
  shows "wait_inv codes s"
  using assms unfolding reaches_def
proof (induction rule: rtranclp_induct)
  case (step s s')
  from arms_mono [OF step.hyps(2)] step.prems have "sys_arms s < 2 ^ 64" by simp
  with step show ?case by (blast intro: wait_inv_step)
qed (rule wait_inv_started)

section \<open>Properties\<close>

text \<open>
  C8. Dropping a handle asks the daemon to remove its container exactly once, unless it has been removed
  or the environment says to keep containers; then it asks for no removal at all. An explicit removal asks
  in either case, and dropping the handle afterwards asks again only if the first attempt failed.
\<close>

theorem removal_requests:
  "(\<exists>es. drop_container w rt c h = (Inr (), h @ es) \<and>
      removals es = (if removal_wanted w \<and> \<not> co_dropped c then [removal (co_id c)] else [])) \<and>
   (\<exists>r es. container_rm w rt c h = (r, h @ es) \<and>
      removals es = removal (co_id c) # (if removal_wanted w \<and> \<not> co_dropped c \<and> (\<exists>e. r = Inl e) then [removal (co_id c)] else [])) \<and>
   (\<exists>r es. container_rm_blocking w rt c h = (r, h @ es) \<and>
      removals es = removal (co_id c) # (if removal_wanted w \<and> \<not> co_dropped c \<and> (\<exists>e. r = Inl e) then [removal (co_id c)] else []))"
  unfolding container_rm_def container_rm_blocking_def
  by (intro conjI drop_history remove_then_drop_history remove_history)

text \<open>
  C13. A command in the container succeeds only with the condition it was given: the message is in the
  output that was collected, or the process ended with the expected exit code and not merely with
  an unknown one; and the result is the one the daemon gave for that command.
\<close>

theorem exec_condition_met:
  assumes "container_exec w rt c e h = (Inr raw, h')"
  shows "condition_met raw (ec_cmd_ready_condition e) \<and>
    (\<exists>env h1 h2. docker_exec w (co_id c) (ec_cmd e) env h1 = (Inr raw, h2)) \<and>
    (ready_conditions_require_log (ec_container_ready_conditions e) \<longrightarrow> co_log_source c \<noteq> NoLogs)"
proof (cases "log_source_is_none c \<and> ready_conditions_require_log (ec_container_ready_conditions e)")
  case True
  then show ?thesis using assms by (simp add: container_exec_def)
next
  case False
  from assms False obtain env h1 raw1 h2 x h3 y where
    "docker_exec w (co_id c) (ec_cmd e) env h1 = (Inr raw1, h2)"
    "check_cmd_condition raw1 (ec_cmd_ready_condition e) h3 = (Inr y, h')" "raw1 = raw"
    unfolding container_exec_def by (auto elim!: io_bind_InrE)
  moreover from this(2) have "condition_met raw1 (ec_cmd_ready_condition e)"
    using check_cmd_condition_met [of raw1 "ec_cmd_ready_condition e" h3] by simp
  ultimately show ?thesis using False by (auto simp: log_source_is_none_def)
qed

definition sample_container :: "unit container" where
  "sample_container = container_new ''c'' (request_of_image (image_default ''app'' ''1'' [])) new_wait_state NoLogs None"

theorem exec_condition_met_witness:
  "\<exists>rt raw h'. container_exec sample_exec_world rt sample_container (with_cmd_ready_condition (cmd_exit_code 3) (exec_command_new [''ls''])) []
       = (Inr raw, h') \<and> er_exit_code raw = Some 3"
proof -
  let ?e = "with_cmd_ready_condition (cmd_exit_code 3) (exec_command_new [''ls''])"
  obtain raw h' where raw: "docker_exec sample_exec_world ''c'' [''ls''] [] [] = (Inr raw, h')" "er_exit_code raw = Some 3"
    using sample_exec by blast
  then have ok: "container_exec sample_exec_world rt sample_container ?e [] = (Inr raw, h')" for rt
    by (simp add: container_exec_def sample_container_def container_new_def with_cmd_ready_condition_def exec_command_new_def
        cmd_exit_code_def ready_conditions_require_log_def exec_environment_def block_with_timeout_def io_bind_def check_cmd_condition_def)
  from exec_condition_met [OF this] have "er_exit_code raw = Some 3"
    by (simp add: condition_met_def with_cmd_ready_condition_def cmd_exit_code_def)
  with ok show ?thesis by blast
qed

text \<open>
  C10. However restarts and the threads of earlier runs interleave, the exit code a handle shows is never one of a
  run before that for which the handle was last armed. Between a restart and its arming, the thread of
  the run before may already report the code of the new run; once the handle is armed for the run that the
  daemon made last, a recorded code is one of that run. The generation counter has 64 bits and wraps, so this is claimed
  while the handle has been armed anew fewer than \<open>2\<^sup>6\<^sup>4\<close> times.
\<close>

theorem exit_code_of_present_run:
  assumes "reaches codes s" and "sys_arms s < 2 ^ 64" and "ws_exit_code (sys_wait s) = Some code"
  shows "(\<exists>r. sys_armed s \<le> r \<and> r \<le> sys_run s \<and> code \<in> codes r) \<and> (sys_armed s = sys_run s \<longrightarrow> code \<in> codes (sys_run s))"
proof -
  from wait_inv_reaches [OF assms(1,2)] assms(3) obtain r where "sys_armed s \<le> r" "r \<le> sys_run s" "code \<in> codes r"
    by (auto simp: wait_inv_def)
  then show ?thesis by (metis order_antisym)
qed

text \<open>A restart during which the thread of the first run still reports its code.\<close>

definition sample_codes :: "nat \<Rightarrow> int set" where
  "sample_codes r = (if r = 1 then {3} else if r = 2 then {7} else {})"

definition sample_system :: wait_system where
  "sample_system = \<lparr>sys_wait = \<lparr>ws_generation = 1, ws_exit_code = Some 7\<rparr>, sys_run = 2, sys_armed = 2, sys_arms = 1, sys_waiters = []\<rparr>"

lemma sample_system_reached: "reaches sample_codes sample_system"
proof -
  let ?mk = "\<lambda>g e r a n ws. \<lparr>sys_wait = \<lparr>ws_generation = g, ws_exit_code = e\<rparr>, sys_run = r, sys_armed = a, sys_arms = n, sys_waiters = ws\<rparr>"
  let ?s1 = "?mk 0 None 2 1 0 [(0, 0, 1)]" and ?s2 = "?mk 1 None 2 2 1 [(1, 1, 2), (0, 0, 1)]" and ?s3 = "?mk 1 None 2 2 1 [(1, 1, 2)]"
  have 1: "wait_step sample_codes system_started ?s1"
    using step_start [of sample_codes system_started] by (simp add: system_started_def new_wait_state_def numeral_2_eq_2)
  have 2: "wait_step sample_codes ?s1 ?s2"
    using step_rearm [of ?s1 1 "\<lparr>ws_generation = 1, ws_exit_code = None\<rparr>" sample_codes] by (simp add: bump_def)
  have 3: "wait_step sample_codes ?s2 ?s3"
    using step_report [of 0 0 1 ?s2 1 3 sample_codes False "\<lparr>ws_generation = 1, ws_exit_code = None\<rparr>"]
    by (simp add: store_if_current_def sample_codes_def)
  have 4: "wait_step sample_codes ?s3 sample_system"
    using step_report [of 1 1 2 ?s3 2 7 sample_codes True "\<lparr>ws_generation = 1, ws_exit_code = Some 7\<rparr>"]
    by (simp add: store_if_current_def sample_codes_def sample_system_def)
  from 1 2 3 4 show ?thesis unfolding reaches_def by (meson rtranclp.rtrancl_into_rtrancl rtranclp.rtrancl_refl)
qed

theorem exit_code_of_present_run_witness:
  "ws_exit_code (sys_wait sample_system) = Some 7 \<and> 7 \<in> sample_codes (sys_run sample_system)"
  using exit_code_of_present_run [OF sample_system_reached, of 7] by (simp add: sample_system_def)

end
