(* ===== verification/Runner.thy ===== *)
theory Runner
  imports Lifecycle
begin

text \<open>
  \<open>AsyncRunner\<close> of \<open>src/runners/async_runner.rs\<close> on Linux: a request is checked, its image
  resolved or pulled, the container created, filled, started and waited for; on the way every
  failure after the creation removes the container again unless the environment says to keep it.
\<close>

section \<open>Images\<close>

definition resolve_or_pull_linux :: "'v world \<Rightarrow> string \<Rightarrow> string option \<Rightarrow> unit io" where
  "resolve_or_pull_linux w d platform =
     io_bind (io_catch (resolve_image_descriptor w d)) (\<lambda>r.
     case r of
       Inr _ \<Rightarrow> io_lift (Inr ())
     | Inl e \<Rightarrow>
         (case e of
            Client (ImageNotFound _) \<Rightarrow>
              io_bind (pull_image w d platform) (\<lambda>_.
              io_bind (resolve_image_descriptor w d) (\<lambda>_. io_lift (Inr ())))
          | _ \<Rightarrow> io_lift (Inl e)))"

definition runner_pull_image :: "'v world \<Rightarrow> 'c container_request \<Rightarrow> 'c container_request io" where
  "runner_pull_image w r = io_bind (pull_image w (descriptor r) (cr_platform r)) (\<lambda>_. io_lift (Inr r))"

section \<open>After the creation\<close>

definition rollback_remove :: "'v world \<Rightarrow> string \<Rightarrow> unit io" where
  "rollback_remove w i =
     (if removal_wanted w then io_bind (io_catch (docker_remove w i True)) (\<lambda>_. io_lift (Inr ())) else io_lift (Inr ()))"

definition linux_log_stream_required :: "'c container_request \<Rightarrow> wait_for list \<Rightarrow> bool" where
  "linux_log_stream_required r conds \<longleftrightarrow> list_ex is_log_wait conds \<or> cr_log_consumers r \<noteq> []"

definition start_linux_log_stream ::
  "'v world \<Rightarrow> runtime \<Rightarrow> string \<Rightarrow> 'c list \<Rightarrow> bool \<Rightarrow> (container_log_source \<times> 'c list option) io" where
  "start_linux_log_stream w rt i consumers log_required =
     io_bind (io_catch (spawn_log_session rt i)) (\<lambda>r.
     case r of
       Inr k \<Rightarrow>
         let stored = (if consumers \<noteq> [] then Some consumers else None)
         in io_bind (spawn_log_consumers stored k) (\<lambda>_. io_lift (Inr (DockerStream k, stored)))
     | Inl e \<Rightarrow>
         if log_required then io_bind (rollback_remove w i) (\<lambda>_. io_lift (Inl e))
         else io_lift (Inr (NoLogs, None)))"

definition cleanup_on_ready_failure :: "'v world \<Rightarrow> runtime \<Rightarrow> 'c container \<Rightarrow> error \<Rightarrow> 'c container io" where
  "cleanup_on_ready_failure w rt c e =
     io_bind (if removal_wanted w then io_bind (io_catch (container_rm w rt c)) (\<lambda>_. io_lift (Inr ()))
              else drop_container w rt c) (\<lambda>_.
     io_lift (Inl e))"

definition ready_sequence :: "'v world \<Rightarrow> runtime \<Rightarrow> 'c container \<Rightarrow> duration \<Rightarrow> wait_for list \<Rightarrow> unit io" where
  "ready_sequence w rt c timeout conds =
     io_bind (container_state_of w c) (\<lambda>state.
     io_bind (io_lift (img_exec_before_ready (cr_image (co_request c)) state)) (\<lambda>cmds.
     io_bind (exec_all w rt c cmds) (\<lambda>_.
     io_bind (block_with_timeout w rt (co_id c) timeout conds) (\<lambda>_.
     io_bind (container_state_of w c) (\<lambda>state.
     io_bind (io_lift (img_exec_after_start (cr_image (co_request c)) state)) (\<lambda>cmds.
     exec_all w rt c cmds))))))"

definition run_ready_sequence :: "'v world \<Rightarrow> runtime \<Rightarrow> 'c container \<Rightarrow> duration \<Rightarrow> wait_for list \<Rightarrow> 'c container io" where
  "run_ready_sequence w rt c timeout conds =
     io_bind (io_catch (ready_sequence w rt c timeout conds)) (\<lambda>r.
     case r of Inl e \<Rightarrow> cleanup_on_ready_failure w rt c e | Inr _ \<Rightarrow> io_lift (Inr c))"

definition after_start :: "'v world \<Rightarrow> runtime \<Rightarrow> 'c container_request \<Rightarrow> string \<Rightarrow> 'c container io" where
  "after_start w rt r i =
     (let conds = ready_conditions r; ws = new_wait_state
      in io_bind (start_linux_log_stream w rt i (cr_log_consumers r) (linux_log_stream_required r conds)) (\<lambda>(source, stored).
         io_bind (spawn_exit_code_waiter i (ws_generation ws)) (\<lambda>_.
         run_ready_sequence w rt (container_new i (r\<lparr>cr_log_consumers := []\<rparr>) ws source stored) (startup_timeout r) conds)))"

definition after_create :: "'v world \<Rightarrow> runtime \<Rightarrow> 'c container_request \<Rightarrow> string \<Rightarrow> 'c container option io" where
  "after_create w rt r i =
     io_bind (io_catch (copy_to_sources_linux (rt_dirs rt) w (rt_fs rt) i r)) (\<lambda>copied.
     case copied of
       Inl e \<Rightarrow> io_bind (rollback_remove w i) (\<lambda>_. io_lift (Inl e))
     | Inr None \<Rightarrow> io_lift (Inr None)
     | Inr (Some _) \<Rightarrow>
         io_bind (io_catch (start_container w i)) (\<lambda>started.
         case started of
           Inl e \<Rightarrow> io_bind (rollback_remove w i) (\<lambda>_. io_lift (Inl e))
         | Inr _ \<Rightarrow> io_some (after_start w rt r i)))"

section \<open>Start\<close>

text \<open>
  The panic of \<open>build_container_config\<close> is written as an error; the check of the ports before it
  makes it unreachable.
\<close>

definition runner_start :: "'v world \<Rightarrow> runtime \<Rightarrow> 'c container_request \<Rightarrow> 'c container option io" where
  "runner_start w rt r =
     (case linux_unsupported_request_reason r of
        Some msg \<Rightarrow> io_lift (Inl (Other msg))
      | None \<Rightarrow>
          io_bind (io_lift (case cr_ports r of Some ports \<Rightarrow> reject_duplicate_mapped_ports ports | None \<Rightarrow> Inr ())) (\<lambda>_.
          io_bind (resolve_or_pull_linux w (descriptor r) (cr_platform r)) (\<lambda>_.
          case build_container_config r of
            None \<Rightarrow> io_lift (Inl (Other ''panic''))
          | Some config \<Rightarrow>
              io_bind (create_container w config) (\<lambda>i.
              after_create w rt r i))))"

section \<open>Facts\<close>

lemma io_bind_InlE:
  assumes "io_bind m k h = (Inl e, h')"
  obtains "m h = (Inl e, h')" | x h1 where "m h = (Inr x, h1)" "k x h1 = (Inl e, h')"
  using assms by (auto simp: io_bind_def split: prod.splits sum.splits)

lemma io_catch_conv: "io_catch m h = (Inr r, h') \<longleftrightarrow> m h = (r, h')" "io_catch m h \<noteq> (Inl e, h')"
  by (auto simp: io_catch_def split: prod.splits)

subsection \<open>Rolling back\<close>

lemma removals_subset: "set (removals es) \<subseteq> set es"
  by (simp add: removals_def)

lemma rollback_history:
  "\<exists>es. rollback_remove w i h = (Inr (), h @ es) \<and> removals es = (if removal_wanted w then [removal i] else [])"
proof -
  obtain x where "docker_remove w i True h = (x, h @ [removal i])"
    using remove_history(1) [of w i h] by (cases "docker_remove w i True h") simp
  then show ?thesis by (simp add: rollback_remove_def io_bind_def io_catch_def)
qed

lemma cleanup_history:
  "\<exists>es. cleanup_on_ready_failure w rt c e h = (Inl e, h @ es) \<and>
     (if removal_wanted w then removal (co_id c) \<in> set es else removals es = [])"
proof (cases "removal_wanted w")
  case True
  from remove_then_drop_history [where remove = "docker_remove w (co_id c) True", OF remove_history(1), of w rt h]
  obtain x es where rm: "container_rm w rt c h = (x, h @ es)" and "removals es \<noteq> []" "hd (removals es) = removal (co_id c)"
    unfolding container_rm_def by force
  then have "removal (co_id c) \<in> set es" using hd_in_set [of "removals es"] removals_subset by auto
  with rm True show ?thesis by (simp add: cleanup_on_ready_failure_def io_bind_def io_catch_def)
next
  case False
  from drop_history [of w rt c h] False show ?thesis
    by (auto simp: cleanup_on_ready_failure_def io_bind_def)
qed

text \<open>An operation that, when it fails, has asked for the container to be removed if that is wanted.\<close>

definition cleans :: "'v world \<Rightarrow> string \<Rightarrow> 'a io \<Rightarrow> bool" where
  "cleans w i m \<longleftrightarrow> (\<forall>h e h'. m h = (Inl e, h') \<longrightarrow> (\<exists>es. h' = h @ es \<and> (removal_wanted w \<longrightarrow> removal i \<in> set es)))"

lemma cleans_never_fails: "(\<And>h. \<exists>x. fst (m h) = Inr x) \<Longrightarrow> cleans w i m"
  unfolding cleans_def by (metis fst_conv sum.distinct(1))

lemma cleans_bind:
  assumes "cleans w i m" and "\<And>x. cleans w i (k x)" and "emits (\<lambda>_. True) m"
  shows "cleans w i (io_bind m k)"
  unfolding cleans_def
proof (intro allI impI)
  fix h e h' assume "io_bind m k h = (Inl e, h')"
  then show "\<exists>es. h' = h @ es \<and> (removal_wanted w \<longrightarrow> removal i \<in> set es)"
  proof (cases rule: io_bind_InlE)
    case 1
    then show ?thesis using assms(1) unfolding cleans_def by blast
  next
    case (2 x h1)
    from emitsE [OF assms(3) 2(1)] obtain es where es: "h1 = h @ es" .
    from assms(2) 2(2) obtain es' where es': "h' = h1 @ es'" "removal_wanted w \<longrightarrow> removal i \<in> set es'" unfolding cleans_def by blast
    from es es'(1) have "h' = h @ (es @ es')" by simp
    moreover from es'(2) have "removal_wanted w \<longrightarrow> removal i \<in> set (es @ es')" by simp
    ultimately show ?thesis by blast
  qed
qed

lemma cleans_rollback: "cleans w i (io_bind (rollback_remove w i) (\<lambda>_. io_lift (Inl e)))"
  unfolding cleans_def
proof (intro allI impI)
  fix h x h' assume a: "io_bind (rollback_remove w i) (\<lambda>_. io_lift (Inl e)) h = (Inl x, h')"
  obtain es where es: "rollback_remove w i h = (Inr (), h @ es)" "removals es = (if removal_wanted w then [removal i] else [])"
    using rollback_history by blast
  from es(2) have "removal_wanted w \<longrightarrow> removal i \<in> set es" using removals_subset [of es] by auto
  with es(1) a show "\<exists>es. h' = h @ es \<and> (removal_wanted w \<longrightarrow> removal i \<in> set es)" by (auto simp: io_bind_def)
qed

lemma cleans_cleanup: "cleans w (co_id c) (cleanup_on_ready_failure w rt c e)"
  unfolding cleans_def
proof (intro allI impI)
  fix h x h' assume a: "cleanup_on_ready_failure w rt c e h = (Inl x, h')"
  from cleanup_history [of w rt c e h] a show "\<exists>es. h' = h @ es \<and> (removal_wanted w \<longrightarrow> removal (co_id c) \<in> set es)"
    by (auto split: if_splits)
qed

interpretation anything: container_events "\<lambda>_. True"
  by unfold_locales simp_all

lemma emits_remove: "P (removal i) \<Longrightarrow> emits P (docker_remove w i True)" "P (removal i) \<Longrightarrow> emits P (remove_blocking w i True)"
  by (simp_all add: emits_def remove_history)

lemma emits_rollback: "(removal_wanted w \<Longrightarrow> P (removal i)) \<Longrightarrow> emits P (rollback_remove w i)"
  unfolding rollback_remove_def by (intro emits_intros emits_remove)

context container_events
begin

lemma emits_log_stream:
  "(removal_wanted w \<Longrightarrow> P (removal i)) \<Longrightarrow> emits P (start_linux_log_stream w rt i consumers log_required)"
  unfolding start_linux_log_stream_def Let_def by (intro emits_intros emits_session emits_rollback)

lemma emits_ready_sequence: "emits P (ready_sequence w rt c timeout conds)"
  unfolding ready_sequence_def container_state_of_def block_with_timeout_def
  by (intro emits_intros emits_inspect emits_exec_all emits_block)

lemma emits_drop: "(removal_wanted w \<Longrightarrow> P (removal (co_id c))) \<Longrightarrow> emits P (drop_container w rt c)"
  unfolding drop_container_def by (intro emits_intros emits_stop_logs emits_drop_poll emits_remove) simp

lemma emits_cleanup: "(removal_wanted w \<Longrightarrow> P (removal (co_id c))) \<Longrightarrow> emits P (cleanup_on_ready_failure w rt c e)"
  unfolding cleanup_on_ready_failure_def container_rm_def remove_then_drop_def
  by (intro emits_intros emits_stop_logs emits_remove emits_drop) (auto split: sum.splits)

lemma emits_after_start: "(removal_wanted w \<Longrightarrow> P (removal i)) \<Longrightarrow> emits P (after_start w rt r i)"
  unfolding after_start_def Let_def run_ready_sequence_def
  by (intro emits_intros emits_log_stream emits_session emits_ready_sequence emits_cleanup) (simp_all add: container_new_def)

lemma emits_after_create: "(removal_wanted w \<Longrightarrow> P (removal i)) \<Longrightarrow> emits P (after_create w rt r i)"
  unfolding after_create_def copy_to_sources_linux_def
  by (intro emits_intros emits_copy emits_start_stop emits_rollback emits_after_start)

end

lemma cleans_lift_Inr: "cleans w i (io_lift (Inr x))"
  by (simp add: cleans_def io_lift_def)

lemma cleans_catch: "cleans w i (io_catch m)"
  by (auto simp: cleans_def io_catch_conv)

lemma cleans_event: "cleans w i (io_event e)"
  by (simp add: cleans_def io_event_def)

lemma cleans_spawn: "cleans w i (spawn_log_consumers consumers k)" "cleans w i (spawn_exit_code_waiter j g)"
proof -
  show "cleans w i (spawn_log_consumers consumers k)"
    unfolding spawn_log_consumers_def
    by (cases consumers) (auto simp: cleans_lift_Inr intro!: cleans_bind cleans_event emits_event)
  show "cleans w i (spawn_exit_code_waiter j g)"
    unfolding spawn_exit_code_waiter_def by (rule cleans_event)
qed

lemma cleans_log_stream: "cleans w i (start_linux_log_stream w rt i consumers needed)"
  unfolding start_linux_log_stream_def Let_def
  by (intro cleans_bind cleans_catch anything.emits_session emits_catch)
    (auto intro!: cleans_bind cleans_rollback cleans_spawn cleans_lift_Inr anything.emits_session split: sum.split)

lemma cleans_run_ready: "cleans w (co_id c) (run_ready_sequence w rt c timeout conds)"
  unfolding run_ready_sequence_def
  by (intro cleans_bind cleans_catch emits_catch anything.emits_ready_sequence)
    (auto intro: cleans_cleanup cleans_lift_Inr split: sum.split)

lemma cleans_after_start: "cleans w i (after_start w rt r i)"
proof -
  have "cleans w i (run_ready_sequence w rt (container_new i r' ws source stored) timeout conds)" for r' ws source stored timeout conds
    using cleans_run_ready [of w "container_new i r' ws source stored"] by (simp add: container_new_def)
  then show ?thesis
    unfolding after_start_def Let_def
    by (auto intro!: cleans_bind cleans_spawn cleans_log_stream anything.emits_log_stream anything.emits_session)
qed

lemma cleans_after_create: "cleans w i (after_create w rt r i)"
  unfolding after_create_def copy_to_sources_linux_def
  by (intro cleans_bind cleans_catch emits_catch anything.emits_copy)
    (auto simp: io_some_def intro!: cleans_bind cleans_rollback cleans_after_start cleans_lift_Inr cleans_catch emits_catch
       anything.emits_start_stop anything.emits_after_start split: sum.split option.split)

text \<open>What an operation that succeeds has done.\<close>

definition emits_ok :: "(event \<Rightarrow> bool) \<Rightarrow> 'a io \<Rightarrow> bool" where
  "emits_ok P m \<longleftrightarrow> (\<forall>h x h'. m h = (Inr x, h') \<longrightarrow> (\<exists>es. h' = h @ es \<and> list_all P es))"

lemma emits_ok_emits: "emits P m \<Longrightarrow> emits_ok P m"
  unfolding emits_ok_def by (metis emitsE)

lemma emits_ok_fails: "emits_ok P (io_bind m (\<lambda>_. io_lift (Inl e)))" "emits_ok P (io_lift (Inl e))"
  by (auto simp: emits_ok_def io_bind_def io_lift_def split: prod.splits sum.splits)

lemma emits_ok_bind:
  assumes "emits_ok P m" and "\<And>x. emits_ok P (k x)"
  shows "emits_ok P (io_bind m k)"
  unfolding emits_ok_def
proof (intro allI impI)
  fix h y h' assume "io_bind m k h = (Inr y, h')"
  then obtain x h1 where "m h = (Inr x, h1)" "k x h1 = (Inr y, h')" by (rule io_bind_InrE)
  with assms obtain es es' where "h1 = h @ es" "list_all P es" "h' = h1 @ es'" "list_all P es'" unfolding emits_ok_def by metis
  then show "\<exists>es. h' = h @ es \<and> list_all P es" by simp
qed

lemma emits_ok_sum:
  "(\<And>e. emits_ok P (m e)) \<Longrightarrow> (\<And>x. emits_ok P (k x)) \<Longrightarrow> emits_ok P (case v of Inl e \<Rightarrow> m e | Inr x \<Rightarrow> k x)"
  "emits_ok P m' \<Longrightarrow> (\<And>x. emits_ok P (k' x)) \<Longrightarrow> emits_ok P (case u of None \<Rightarrow> m' | Some x \<Rightarrow> k' x)"
  by (cases v; simp) (cases u; simp)

context container_events
begin

lemma ok_log_stream: "emits_ok P (start_linux_log_stream w rt i consumers needed)"
proof -
  have "emits_ok P (if needed then io_bind (rollback_remove w i) (\<lambda>_. io_lift (Inl e)) else io_lift (Inr (NoLogs, None)))" for e
    by (cases needed) (simp_all only: if_True if_False emits_ok_fails(1) emits_ok_emits [OF emits_lift])
  then show ?thesis
    unfolding start_linux_log_stream_def Let_def
    by (intro emits_ok_bind [OF emits_ok_emits] emits_catch emits_session emits_ok_sum)
      (assumption | rule emits_ok_emits [OF emits_lift])+
qed

lemma ok_run_ready: "emits_ok P (run_ready_sequence w rt c timeout conds)"
  unfolding run_ready_sequence_def cleanup_on_ready_failure_def
  by (intro emits_ok_bind [OF emits_ok_emits [OF emits_catch]] emits_ready_sequence emits_ok_sum emits_ok_fails(1))
    (rule emits_ok_emits emits_lift)+

lemma ok_after_start: "emits_ok P (after_start w rt r i)"
  unfolding after_start_def Let_def
  by (auto intro!: emits_ok_bind [OF ok_log_stream] emits_ok_bind [OF emits_ok_emits] ok_run_ready emits_session)

lemma ok_after_create: "emits_ok P (after_create w rt r i)"
proof -
  have "emits_ok P (io_some (after_start w rt r i))" unfolding io_some_def
    by (rule emits_ok_bind [OF ok_after_start]) (rule emits_ok_emits, rule emits_lift)
  then show ?thesis
    unfolding after_create_def copy_to_sources_linux_def
    by (intro emits_ok_bind [OF emits_ok_emits [OF emits_catch]] emits_copy emits_start_stop emits_ok_sum emits_ok_fails(1))
      (assumption | rule emits_ok_emits emits_lift)+
qed

end

interpretation own: container_events "\<lambda>e. is_delete e \<longrightarrow> e = removal i"
  by unfold_locales (auto simp: is_delete_def)

lemma after_create_removals:
  assumes "after_create w rt r i h = (x, h')"
  shows "\<exists>es. h' = h @ es \<and> set (removals es) = (if removal_wanted w \<and> (\<exists>e. x = Inl e) then {removal i} else {})"
proof -
  obtain es where es: "h' = h @ es" "list_all (\<lambda>e. is_delete e \<longrightarrow> e = removal i) es"
    using emitsE [OF own.emits_after_create assms] by blast
  then have sub: "set (removals es) \<subseteq> {removal i}" by (auto simp: removals_def list_all_iff)
  consider (keep) "\<not> removal_wanted w" | (ok) y where "x = Inr y" | (failed) e where "removal_wanted w" "x = Inl e" by (cases x) auto
  then show ?thesis
  proof cases
    case keep
    with emitsE [OF keeping.emits_after_create assms] es(1) have "removals es = []" by (auto intro: removals_none)
    with es keep show ?thesis by auto
  next
    case ok
    with keeping.ok_after_create assms es(1) have "removals es = []" unfolding emits_ok_def by (metis removals_none same_append_eq)
    with es ok show ?thesis by auto
  next
    case failed
    with cleans_after_create assms es(1) have "removal i \<in> set es" unfolding cleans_def by (metis same_append_eq)
    then have "removal i \<in> set (removals es)" by (simp add: removals_def)
    with es sub failed show ?thesis by auto
  qed
qed

subsection \<open>Before the creation\<close>

definition request_accepted :: "'c container_request \<Rightarrow> bool" where
  "request_accepted r \<longleftrightarrow>
     linux_unsupported_request_reason r = None \<and> distinct (map pm_container_port (unwrap_or (cr_ports r) []))"

definition image_missing :: "'v world \<Rightarrow> string \<Rightarrow> event list \<Rightarrow> bool" where
  "image_missing w d h \<longleftrightarrow> (\<exists>d'. fst (resolve_image_descriptor w d h) = Inl (Client (ImageNotFound d')))"

lemma runner_start_rejected: "\<not> request_accepted r \<Longrightarrow> \<exists>e. runner_start w rt r h = (Inl e, h)"
  using reject_duplicate_iff
  by (auto simp: request_accepted_def runner_start_def io_bind_def unwrap_or_def split: option.splits sum.splits)

lemma runner_start_accepted:
  assumes "request_accepted r"
  obtains config where "build_container_config r = Some config"
    "runner_start w rt r = io_bind (resolve_or_pull_linux w (descriptor r) (cr_platform r)) (\<lambda>_.
       io_bind (create_container w config) (after_create w rt r))"
proof -
  have ok: "reject_duplicate_mapped_ports ports = Inr ()" if "cr_ports r = Some ports" for ports
    using assms that reject_duplicate_iff by (simp add: request_accepted_def unwrap_or_def)
  then have ports: "(case cr_ports r of Some ports \<Rightarrow> reject_duplicate_mapped_ports ports | None \<Rightarrow> Inr ()) = Inr ()"
    by (simp split: option.split)
  obtain config where config: "build_container_config r = Some config"
    using build_container_config_total [of r, OF ok] by blast
  moreover from assms config ports have "runner_start w rt r = io_bind (resolve_or_pull_linux w (descriptor r) (cr_platform r)) (\<lambda>_.
       io_bind (create_container w config) (after_create w rt r))"
    by (simp add: runner_start_def request_accepted_def io_bind_lift)
  ultimately show thesis using that by blast
qed

lemma runner_start_created:
  assumes "request_accepted r" and "build_container_config r = Some config"
    and "resolve_or_pull_linux w (descriptor r) (cr_platform r) h = (Inr (), h1)" and "create_container w config h1 = (Inr i, h2)"
  shows "runner_start w rt r h = after_create w rt r i h2"
proof -
  from runner_start_accepted [OF assms(1)] assms(2) have
    "runner_start w rt r = io_bind (resolve_or_pull_linux w (descriptor r) (cr_platform r)) (\<lambda>_.
       io_bind (create_container w config) (after_create w rt r))" by (metis option.inject)
  with assms(3,4) show ?thesis by (simp add: io_bind_def)
qed

lemma resolve_history: "\<exists>rq. snd (resolve_image_descriptor w d h) = h @ [Http rq] \<and> rq_method rq = ''GET''"
  by (auto simp: resolve_image_descriptor_def request_def request_with_body_limit_def http_def io_bind_def split: sum.split)

lemma emits_create: "emits (\<lambda>e. \<not> is_pull e \<and> \<not> is_delete e) (create_container w config)"
  unfolding create_container_def request_def request_with_body_limit_def
  by (intro emits_intros) (simp add: is_pull_def is_delete_def create_path_def starts_with_def Let_def)

lemma pull_history:
  "\<exists>y rq. pull_image w d p h = (y, h @ [Http rq]) \<and> is_pull (Http rq) \<and> \<not> is_delete (Http rq)"
  by (simp add: pull_image_def io_bind_def io_map_err_def request_with_extra_headers_def http_def is_pull_def is_delete_def starts_with_def
      split_def Let_def split: sum.split)

lemma resolve_or_pull_history:
  "\<exists>es. snd (resolve_or_pull_linux w d p h) = h @ es \<and> removals es = [] \<and>
     length (filter is_pull es) = (if image_missing w d h then 1 else 0)"
proof -
  obtain x rq where r: "resolve_image_descriptor w d h = (x, h @ [Http rq])" "rq_method rq = ''GET''"
    using resolve_history by (metis prod.collapse)
  then have quiet: "\<not> is_pull (Http rq)" "\<not> is_delete (Http rq)" by (simp_all add: is_pull_def is_delete_def)
  show ?thesis
  proof (cases "image_missing w d h")
    case True
    then obtain d' where x: "x = Inl (Client (ImageNotFound d'))" using r by (auto simp: image_missing_def)
    let ?k = "io_bind (pull_image w d p) (\<lambda>_. io_bind (resolve_image_descriptor w d) (\<lambda>_. io_lift (Inr ())))"
    have tail: "emits (\<lambda>e. \<not> is_pull e \<and> \<not> is_delete e) (io_bind (resolve_image_descriptor w d) (\<lambda>_. io_lift (Inr ())))"
      unfolding resolve_image_descriptor_def request_def request_with_body_limit_def
      by (intro emits_intros) (simp add: is_pull_def is_delete_def)
    obtain y rq' where pull: "pull_image w d p (h @ [Http rq]) = (y, h @ [Http rq, Http rq'])" "is_pull (Http rq')" "\<not> is_delete (Http rq')"
      using pull_history [of w d p "h @ [Http rq]"] by auto
    obtain es where "snd (resolve_or_pull_linux w d p h) = h @ [Http rq, Http rq'] @ es" "list_all (\<lambda>e. \<not> is_pull e \<and> \<not> is_delete e) es"
    proof (cases y)
      case (Inl e)
      then have "snd (resolve_or_pull_linux w d p h) = h @ [Http rq, Http rq'] @ []"
        using r x pull by (simp add: resolve_or_pull_linux_def io_bind_def io_catch_def)
      then show thesis using that by simp
    next
      case (Inr u)
      obtain es where "snd (io_bind (resolve_image_descriptor w d) (\<lambda>_. io_lift (Inr ())) (h @ [Http rq, Http rq'])) = (h @ [Http rq, Http rq']) @ es"
        "list_all (\<lambda>e. \<not> is_pull e \<and> \<not> is_delete e) es" using tail unfolding emits_def by blast
      with r x pull Inr show thesis using that [of es] by (simp add: resolve_or_pull_linux_def io_bind_def [of "io_catch _"] io_bind_def [of "pull_image _ _ _"] io_catch_def)
    qed
    with quiet pull(2,3) True show ?thesis by (auto simp: removals_def list_all_iff filter_empty_conv)
  next
    case False
    then have "snd (resolve_or_pull_linux w d p h) = h @ [Http rq]"
      using r by (auto simp: resolve_or_pull_linux_def image_missing_def io_bind_def io_catch_def split: sum.split error.split client_error.split)
    with quiet False show ?thesis by simp
  qed
qed

subsection \<open>A start that succeeds\<close>

lemma io_catch_case:
  assumes "io_bind (io_catch m) (\<lambda>v. case v of Inl e \<Rightarrow> f e | Inr y \<Rightarrow> k y) h = (Inr x, h')"
    and "\<And>e h1. \<nexists>y. f e h1 = (Inr y, h')"
  obtains y h1 where "m h = (Inr y, h1)" "k y h1 = (Inr x, h')"
  using assms by (auto simp: io_bind_def io_catch_def split: prod.splits sum.splits)

lemma never_succeeds: "\<nexists>y. io_bind m (\<lambda>_. io_lift (Inl e)) h1 = (Inr y, h')"
  by (auto elim!: io_bind_InrE simp: io_lift_def)

lemma after_create_success:
  assumes "after_create w rt r i h = (Inr (Some c), h')"
  obtains h1 h2 where "copy_to_sources_linux (rt_dirs rt) w (rt_fs rt) i r h = (Inr (Some ()), h1)"
    "start_container w i h1 = (Inr (), h2)" "after_start w rt r i h2 = (Inr c, h')"
proof -
  from assms obtain y h1 where y: "copy_to_sources_linux (rt_dirs rt) w (rt_fs rt) i r h = (Inr y, h1)"
    "(case y of None \<Rightarrow> io_lift (Inr None) | Some _ \<Rightarrow> io_bind (io_catch (start_container w i)) (\<lambda>started.
         case started of Inl e \<Rightarrow> io_bind (rollback_remove w i) (\<lambda>_. io_lift (Inl e)) | Inr _ \<Rightarrow> io_some (after_start w rt r i))) h1
     = (Inr (Some c), h')"
    unfolding after_create_def by (rule io_catch_case) (rule never_succeeds)
  then obtain u where u: "y = Some u" by (cases y) simp_all
  with y(2) have "io_bind (io_catch (start_container w i)) (\<lambda>started.
      case started of Inl e \<Rightarrow> io_bind (rollback_remove w i) (\<lambda>_. io_lift (Inl e)) | Inr _ \<Rightarrow> io_some (after_start w rt r i)) h1
      = (Inr (Some c), h')" by simp
  then obtain v h2 where "start_container w i h1 = (Inr v, h2)" "io_some (after_start w rt r i) h2 = (Inr (Some c), h')"
    by (rule io_catch_case) (rule never_succeeds)
  with y(1) u that show thesis by (auto simp: io_some_def elim!: io_bind_InrE)
qed

lemma log_stream_success:
  assumes "start_linux_log_stream w rt i consumers needed h = (Inr (source, stored), h')" and needed
  shows "source \<noteq> NoLogs"
  using assms
  by (auto simp: start_linux_log_stream_def Let_def io_bind_def io_catch_def spawn_log_consumers_def split: prod.splits sum.splits if_splits option.splits)

lemma ready_sequence_success:
  assumes "ready_sequence w rt c timeout conds h = (Inr (), h')"
  obtains h1 h2 es1 es2 where "block_until_ready (rt_polls rt timeout) w (rt_view rt) (co_id c) conds h1 = (Inr (Some ()), h2)"
    "h1 = h @ es1" "h' = h2 @ es2"
proof -
  define tail where "tail = io_bind (container_state_of w c) (\<lambda>state.
    io_bind (io_lift (img_exec_after_start (cr_image (co_request c)) state)) (exec_all w rt c))"
  from assms [unfolded ready_sequence_def] obtain state hs where s: "container_state_of w c h = (Inr state, hs)"
    and "io_bind (io_lift (img_exec_before_ready (cr_image (co_request c)) state)) (\<lambda>cmds. io_bind (exec_all w rt c cmds) (\<lambda>_.
      io_bind (block_with_timeout w rt (co_id c) timeout conds) (\<lambda>_. tail))) hs = (Inr (), h')"
    unfolding tail_def by (rule io_bind_InrE)
  from this(2) obtain cmds where
    "io_bind (exec_all w rt c cmds) (\<lambda>_. io_bind (block_with_timeout w rt (co_id c) timeout conds) (\<lambda>_. tail)) hs = (Inr (), h')"
    by (rule io_bind_InrE) (simp add: io_lift_def)
  then obtain he where e: "exec_all w rt c cmds hs = (Inr (), he)"
    and "io_bind (block_with_timeout w rt (co_id c) timeout conds) (\<lambda>_. tail) he = (Inr (), h')"
    by (rule io_bind_InrE) simp
  from this(2) obtain hb where b: "block_with_timeout w rt (co_id c) timeout conds he = (Inr (), hb)" and t: "tail hb = (Inr (), h')"
    by (rule io_bind_InrE) simp
  have "emits (\<lambda>_. True) (container_state_of w c)" unfolding container_state_of_def by (intro emits_intros anything.emits_inspect)
  note st = this
  from emitsE [OF st s] obtain es where "hs = h @ es" .
  moreover from emitsE [OF anything.emits_exec_all e] obtain es' where "he = hs @ es'" .
  ultimately have "he = h @ (es @ es')" by simp
  moreover have "emits (\<lambda>_. True) tail" unfolding tail_def by (intro emits_bind st emits_lift anything.emits_exec_all)
  from emitsE [OF this t] obtain es2 where "h' = hb @ es2" .
  moreover from b have "block_until_ready (rt_polls rt timeout) w (rt_view rt) (co_id c) conds he = (Inr (Some ()), hb)"
    by (auto simp: block_with_timeout_def ok_or_def elim!: io_bind_InrE split: option.splits)
  ultimately show thesis using that by blast
qed

lemma run_ready_success:
  assumes "run_ready_sequence w rt c timeout conds h = (Inr c', h')"
  shows "c' = c" and "ready_sequence w rt c timeout conds h = (Inr (), h')"
proof -
  from assms obtain y h1 where "ready_sequence w rt c timeout conds h = (Inr y, h1)" "io_lift (Inr c) h1 = (Inr c', h')"
    unfolding run_ready_sequence_def by (rule io_catch_case) (auto simp: cleanup_on_ready_failure_def never_succeeds)
  then show "c' = c" "ready_sequence w rt c timeout conds h = (Inr (), h')" by (simp_all add: io_lift_def)
qed

lemma after_start_success:
  assumes "after_start w rt r i h = (Inr c, h')"
  shows "\<exists>es5 h6 es7. SpawnWaiter i (ws_generation (co_wait_state c)) \<in> set es5 \<and>
     block_until_ready (rt_polls rt (startup_timeout r)) w (rt_view rt) i (ready_conditions r) (h @ es5) = (Inr (Some ()), h6) \<and>
     h' = h6 @ es7 \<and> co_id c = i \<and> \<not> co_dropped c \<and>
     (co_log_source c = NoLogs \<longrightarrow> cr_log_consumers r = [] \<and> \<not> list_ex is_log_wait (ready_conditions r))"
proof -
  let ?needed = "linux_log_stream_required r (ready_conditions r)"
  from assms obtain source stored h1 where
    logs: "start_linux_log_stream w rt i (cr_log_consumers r) ?needed h = (Inr (source, stored), h1)" and
    rest: "io_bind (spawn_exit_code_waiter i (ws_generation new_wait_state)) (\<lambda>_.
      run_ready_sequence w rt (container_new i (r\<lparr>cr_log_consumers := []\<rparr>) new_wait_state source stored) (startup_timeout r) (ready_conditions r)) h1
      = (Inr c, h')" unfolding after_start_def Let_def by (auto elim: io_bind_InrE)
  let ?c = "container_new i (r\<lparr>cr_log_consumers := []\<rparr>) new_wait_state source stored"
  obtain es1 where es1: "h1 = h @ es1" using emitsE [OF anything.emits_log_stream logs] by blast
  from rest have run: "run_ready_sequence w rt ?c (startup_timeout r) (ready_conditions r) (h1 @ [SpawnWaiter i 0]) = (Inr c, h')"
    by (simp add: io_bind_def spawn_exit_code_waiter_def io_event_def new_wait_state_def)
  note c = run_ready_success(1) [OF run]
  from run_ready_success(2) [OF run] obtain ha hb es es2 where
    "block_until_ready (rt_polls rt (startup_timeout r)) w (rt_view rt) (co_id ?c) (ready_conditions r) ha = (Inr (Some ()), hb)"
    "ha = (h1 @ [SpawnWaiter i 0]) @ es" "h' = hb @ es2" by (rule ready_sequence_success)
  moreover have "source \<noteq> NoLogs \<or> \<not> ?needed" using log_stream_success [OF logs] by blast
  ultimately show ?thesis unfolding c
    by (intro exI [of _ "es1 @ [SpawnWaiter i 0] @ es"] exI [of _ hb] exI [of _ es2])
      (auto simp: es1 container_new_def new_wait_state_def linux_log_stream_required_def)
qed

section \<open>Properties\<close>

text \<open>
  C1. A start leaves no container behind and removes no other. Once the daemon has made a container, a
  start that fails afterwards, in the copies, at the start, in the logs or in the waits, has asked for
  that container to be removed unless the environment says to keep it; a start that succeeds
  has asked for no removal.
\<close>

theorem start_no_leak:
  assumes "runner_start w rt r h = (x, h')" and "request_accepted r" and "build_container_config r = Some config"
    and "resolve_or_pull_linux w (descriptor r) (cr_platform r) h = (Inr (), h1)" and "create_container w config h1 = (Inr i, h2)"
  shows "\<exists>es. h' = h2 @ es \<and> set (removals es) = (if removal_wanted w \<and> (\<exists>e. x = Inl e) then {removal i} else {})"
proof -
  from runner_start_created [OF assms(2-5), of rt] assms(1) have "after_create w rt r i h2 = (x, h')" by simp
  then show ?thesis by (rule after_create_removals)
qed

text \<open>A daemon that makes the container and cannot start it.\<close>

definition failing_world :: "json world" where
  "failing_world = scripted [(200, None), (201, Some (JObj [(''Id'', JStr ''c'')])), (500, None)]"

definition plain_request :: "unit container_request" where
  "plain_request = request_of_image (image_default ''app'' ''1'' [])"

lemma plain_request_accepted: "request_accepted plain_request"
  by (simp add: request_accepted_def plain_request_def request_of_image_def image_default_def linux_unsupported_request_reason_def unwrap_or_def)

lemma plain_request_config: "\<exists>config body. build_container_config plain_request = Some config \<and> body_from_config config = Inr body"
  by (simp add: plain_request_def build_container_config_def request_of_image_def image_default_def body_from_config_def mounts_def)

lemma id_body_valid: "utf8_valid (as_bytes (render (JObj [(''Id'', JStr ''c'')])))"
  by (simp add: str_simps escape_json_def escape_json_value_def escape_char_def)

lemmas daemon_eval = scripted_def resolve_or_pull_linux_def resolve_image_descriptor_def create_container_def request_def
  request_with_body_limit_def response_id_def response_json_def required_member_def parse_body_render [OF id_body_valid]
  io_bind_def io_catch_def ok_or_def

definition sample_runtime :: runtime where
  "sample_runtime =
     \<lparr>rt_view = \<lparr>ce_log_turns = (\<lambda>_. []), ce_exit_hint = (\<lambda>_. None), ce_send = (\<lambda>_ _ _ _. Inl ''refused''),
        ce_http11 = plain_http11, ce_base64 = as_string\<rparr>,
      rt_log_session = (\<lambda>_ _. Inr ()), rt_polls = (\<lambda>_. 1), rt_all_done = (\<lambda>_. True), rt_in_runtime = True, rt_fs = sample_fs, rt_dirs = 2\<rparr>"

lemma plain_creates:
  assumes "build_container_config plain_request = Some config" and "body_from_config config = Inr body"
    and "take 2 answers = [(200, None), (201, Some (JObj [(''Id'', JStr ''c'')]))]"
  shows "\<exists>rq. resolve_or_pull_linux (scripted answers) (descriptor plain_request) (cr_platform plain_request) [] = (Inr (), [Http rq])"
    and "\<exists>rq. create_container (scripted answers) config [e] = (Inr ''c'', [e, Http rq])"
proof -
  from assms(3) obtain rest where "answers = [(200, None), (201, Some (JObj [(''Id'', JStr ''c'')]))] @ rest"
    by (metis append_take_drop_id)
  then show "\<exists>rq. resolve_or_pull_linux (scripted answers) (descriptor plain_request) (cr_platform plain_request) [] = (Inr (), [Http rq])"
    "\<exists>rq. create_container (scripted answers) config [e] = (Inr ''c'', [e, Http rq])"
    using assms(2) by (simp_all add: daemon_eval del: render.simps)
qed

lemma plain_copies: "copy_to_sources_linux n w fs i plain_request h = (Inr (Some ()), h)"
  by (simp add: copy_to_sources_linux_def copy_to_sources_def plain_request_def request_of_image_def image_default_def)

theorem start_no_leak_witness:
  "\<exists>e h2 es. runner_start failing_world sample_runtime plain_request [] = (Inl e, h2 @ es) \<and> set (removals es) = {removal ''c''}"
proof -
  obtain config body where c: "build_container_config plain_request = Some config" "body_from_config config = Inr body"
    using plain_request_config by blast
  note creates = plain_creates [OF c, of "[(200, None), (201, Some (JObj [(''Id'', JStr ''c'')])), (500, None)]", simplified, folded failing_world_def]
  from creates(1) obtain rq1 where r1: "resolve_or_pull_linux failing_world (descriptor plain_request) (cr_platform plain_request) [] = (Inr (), [Http rq1])" ..
  from creates(2) obtain rq2 where r2: "create_container failing_world config [Http rq1] = (Inr ''c'', [Http rq1, Http rq2])" ..
  note r = r1 r2
  obtain e h3 where start: "start_container failing_world ''c'' [Http rq1, Http rq2] = (Inl e, h3)"
    by (simp add: start_container_def failing_world_def daemon_eval status_error_def fail_def)
  obtain es where "rollback_remove failing_world ''c'' h3 = (Inr (), h3 @ es)" using rollback_history by blast
  with start have "\<exists>h'. after_create failing_world sample_runtime plain_request ''c'' [Http rq1, Http rq2] = (Inl e, h')"
    by (simp add: after_create_def io_bind_def io_catch_def plain_copies)
  then obtain h' where "after_create failing_world sample_runtime plain_request ''c'' [Http rq1, Http rq2] = (Inl e, h')" ..
  then have failed: "runner_start failing_world sample_runtime plain_request [] = (Inl e, h')"
    using runner_start_created [OF plain_request_accepted c(1) r] by simp
  moreover have "removal_wanted failing_world" by (simp add: removal_wanted_def failing_world_def scripted_def env_command_def)
  moreover note start_no_leak [OF calculation(1) plain_request_accepted c(1) r]
  ultimately have "\<exists>es. h' = [Http rq1, Http rq2] @ es \<and> set (removals es) = {removal ''c''}" by simp
  with failed show ?thesis by metis
qed

text \<open>
  C5. A request that is refused reaches no daemon. An accepted one pulls its image exactly when the daemon
  does not have it, and then once.
\<close>

theorem image_pulled_once:
  "\<exists>x es. runner_start w rt r h = (x, h @ es) \<and> (es = [] \<or> request_accepted r) \<and>
     length (filter is_pull es) = (if request_accepted r \<and> image_missing w (descriptor r) h then 1 else 0)"
proof (cases "request_accepted r")
  case True
  then obtain config where start: "runner_start w rt r = io_bind (resolve_or_pull_linux w (descriptor r) (cr_platform r)) (\<lambda>_.
       io_bind (create_container w config) (after_create w rt r))" by (rule runner_start_accepted)
  obtain y h1 where resolve: "resolve_or_pull_linux w (descriptor r) (cr_platform r) h = (y, h1)" by fastforce
  obtain es1 where es1: "h1 = h @ es1" "length (filter is_pull es1) = (if image_missing w (descriptor r) h then 1 else 0)"
    using resolve_or_pull_history [of w "descriptor r" "cr_platform r" h] resolve by auto
  have "emits (\<lambda>e. \<not> is_pull e) (create_container w config)" using emits_create by (rule emits_mono) simp
  moreover have "emits (\<lambda>e. \<not> is_pull e) (after_create w rt r i)" for i
    by (rule pulling.emits_after_create) (simp add: is_pull_def remove_request_def)
  ultimately have "emits (\<lambda>e. \<not> is_pull e) (io_bind (create_container w config) (after_create w rt r))" by (rule emits_bind)
  then obtain es2 where es2: "snd (io_bind (create_container w config) (after_create w rt r) h1) = h1 @ es2" "filter is_pull es2 = []"
    unfolding emits_def by (metis filter_empty_conv list_all_iff)
  have "snd (runner_start w rt r h) = h @ es1 \<or> snd (runner_start w rt r h) = h @ es1 @ es2"
    unfolding start io_bind_def [of "resolve_or_pull_linux _ _ _"] using resolve es1(1) es2(1) by (cases y) simp_all
  with es1(2) es2(2) True show ?thesis by (elim disjE) (cases "runner_start w rt r h", force)+
next
  case False
  with runner_start_rejected [of r w rt h] show ?thesis by auto
qed

text \<open>
  C2. A start that gives a handle has done everything, in order: the container was created from the request's
  configuration, filled with its copies before it was started, its exit code is watched, and
  every ready condition of the request was met after the start, with the
  logs at hand when a condition or a consumer needs them. The handle is that of the container and owns it.
\<close>

theorem start_ready:
  assumes "runner_start w rt r h = (Inr (Some c), h')"
  shows "\<exists>config i h1 h2 h3 h4 es5 h6 es7. build_container_config r = Some config \<and>
     resolve_or_pull_linux w (descriptor r) (cr_platform r) h = (Inr (), h1) \<and>
     create_container w config h1 = (Inr i, h2) \<and>
     copy_to_sources_linux (rt_dirs rt) w (rt_fs rt) i r h2 = (Inr (Some ()), h3) \<and>
     start_container w i h3 = (Inr (), h4) \<and>
     SpawnWaiter i (ws_generation (co_wait_state c)) \<in> set es5 \<and>
     block_until_ready (rt_polls rt (startup_timeout r)) w (rt_view rt) i (ready_conditions r) (h4 @ es5) = (Inr (Some ()), h6) \<and>
     h' = h6 @ es7 \<and> co_id c = i \<and> \<not> co_dropped c \<and>
     (co_log_source c = NoLogs \<longrightarrow> cr_log_consumers r = [] \<and> \<not> list_ex is_log_wait (ready_conditions r))"
proof -
  have acc: "request_accepted r" using assms runner_start_rejected [of r w rt h] by fastforce
  then obtain config where config: "build_container_config r = Some config"
    and start: "runner_start w rt r = io_bind (resolve_or_pull_linux w (descriptor r) (cr_platform r)) (\<lambda>_.
       io_bind (create_container w config) (after_create w rt r))" by (rule runner_start_accepted)
  from assms [unfolded start] obtain h1 where h1: "resolve_or_pull_linux w (descriptor r) (cr_platform r) h = (Inr (), h1)"
    and "io_bind (create_container w config) (after_create w rt r) h1 = (Inr (Some c), h')" by (rule io_bind_InrE) simp
  from this(2) obtain i h2 where h2: "create_container w config h1 = (Inr i, h2)" and "after_create w rt r i h2 = (Inr (Some c), h')"
    by (rule io_bind_InrE)
  from this(2) obtain h3 h4 where h3: "copy_to_sources_linux (rt_dirs rt) w (rt_fs rt) i r h2 = (Inr (Some ()), h3)"
    and h4: "start_container w i h3 = (Inr (), h4)" and after: "after_start w rt r i h4 = (Inr c, h')" by (rule after_create_success)
  from after_start_success [OF after] config h1 h2 h3 h4 show ?thesis by blast
qed

text \<open>A daemon that starts the container and shows it running; the third and the fourth event are no requests.\<close>

definition starting_world :: "json world" where
  "starting_world = scripted ([(200, None), (201, Some (JObj [(''Id'', JStr ''c'')])), (204, None), (0, None), (0, None)]
     @ replicate 2 (200, Some (JObj [(''State'', JObj [(''Running'', JBool True)])])))"

lemma state_body_valid: "utf8_valid (as_bytes (render (JObj [(''State'', JObj [(''Running'', JBool True)])])))"
  by (simp add: str_simps escape_json_def escape_json_value_def escape_char_def)

lemma starting_world_eq:
  "starting_world = scripted [(200, None), (201, Some (JObj [(''Id'', JStr ''c'')])), (204, None), (0, None), (0, None),
     (200, Some (JObj [(''State'', JObj [(''Running'', JBool True)])])), (200, Some (JObj [(''State'', JObj [(''Running'', JBool True)])]))]"
  by (simp add: starting_world_def numeral_2_eq_2)

lemma starting_creates:
  assumes "build_container_config plain_request = Some config" and "body_from_config config = Inr body"
  shows "\<exists>rq1 rq2. resolve_or_pull_linux starting_world (descriptor plain_request) (cr_platform plain_request) [] = (Inr (), [Http rq1]) \<and>
    create_container starting_world config [Http rq1] = (Inr ''c'', [Http rq1, Http rq2])"
proof -
  let ?answers = "[(200, None), (201, Some (JObj [(''Id'', JStr ''c'')])), (204, None), (0, None), (0, None),
     (200, Some (JObj [(''State'', JObj [(''Running'', JBool True)])])), (200, Some (JObj [(''State'', JObj [(''Running'', JBool True)])]))]"
  have "take 2 ?answers = [(200, None), (201, Some (JObj [(''Id'', JStr ''c'')]))]" by simp
  note creates = plain_creates [OF assms this, folded starting_world_eq]
  from creates(1) obtain rq1 where
    r1: "resolve_or_pull_linux starting_world (descriptor plain_request) (cr_platform plain_request) [] = (Inr (), [Http rq1])" ..
  from creates(2) obtain rq2 where "create_container starting_world config [Http rq1] = (Inr ''c'', [Http rq1, Http rq2])" ..
  with r1 show ?thesis by blast
qed

lemma starting_ready: "\<exists>c h'. after_start starting_world sample_runtime plain_request ''c'' [e1, e2, e3] = (Inr c, h')"
proof -
  have state: "\<exists>snap rq. docker_container_state starting_world ''c'' h = (Inr snap, h @ [Http rq])" if "length h = 5 \<or> length h = 6" for h
    using that
    by (auto simp: docker_container_state_def inspect_json_def starting_world_eq daemon_eval parse_body_render [OF state_body_valid]
        simp del: render.simps)
  let ?c = "container_new ''c'' (plain_request\<lparr>cr_log_consumers := []\<rparr>) new_wait_state (DockerStream 3) None" and ?h = "[e1, e2, e3, SpawnLogSession ''c'', SpawnWaiter ''c'' 0]"
  obtain snap1 rq1 where s1: "docker_container_state starting_world ''c'' ?h = (Inr snap1, ?h @ [Http rq1])" using state [of ?h] by auto
  obtain snap2 rq2 where s2: "docker_container_state starting_world ''c'' (?h @ [Http rq1]) = (Inr snap2, ?h @ [Http rq1, Http rq2])"
    using state [of "?h @ [Http rq1]"] by auto
  have "run_ready_sequence starting_world sample_runtime ?c t [] ?h = (Inr ?c, ?h @ [Http rq1, Http rq2])" for t
    using s1 s2
    by (simp add: run_ready_sequence_def ready_sequence_def container_state_of_def container_new_def plain_request_def request_of_image_def
        image_default_def exec_all_def block_with_timeout_def ok_or_def io_bind_def io_catch_def)
  moreover have "cr_log_consumers plain_request = []" "ready_conditions plain_request = []"
    by (simp_all add: plain_request_def request_of_image_def image_default_def ready_conditions_def unwrap_or_def)
  moreover have "spawn_log_session sample_runtime ''c'' [e1, e2, e3] = (Inr 3, [e1, e2, e3, SpawnLogSession ''c''])"
    by (simp add: spawn_log_session_def sample_runtime_def)
  moreover have "ws_generation new_wait_state = 0" by (simp add: new_wait_state_def)
  ultimately show ?thesis
    by (simp add: after_start_def start_linux_log_stream_def spawn_log_consumers_def spawn_exit_code_waiter_def io_event_def io_bind_def io_catch_def)
qed

theorem start_ready_witness:
  "\<exists>c h'. runner_start starting_world sample_runtime plain_request [] = (Inr (Some c), h') \<and> co_id c = ''c'' \<and>
     (\<exists>h3 h4. start_container starting_world ''c'' h3 = (Inr (), h4))"
proof -
  obtain config body where c: "build_container_config plain_request = Some config" "body_from_config config = Inr body"
    using plain_request_config by blast
  from starting_creates [OF c] obtain rq1 rq2 where
    r: "resolve_or_pull_linux starting_world (descriptor plain_request) (cr_platform plain_request) [] = (Inr (), [Http rq1])"
    "create_container starting_world config [Http rq1] = (Inr ''c'', [Http rq1, Http rq2])" by blast
  obtain rq3 where start: "start_container starting_world ''c'' [Http rq1, Http rq2] = (Inr (), [Http rq1, Http rq2, Http rq3])"
    by (simp add: start_container_def starting_world_eq daemon_eval del: render.simps)
  obtain c' h' where "after_start starting_world sample_runtime plain_request ''c'' [Http rq1, Http rq2, Http rq3] = (Inr c', h')"
    using starting_ready by blast
  with start have "after_create starting_world sample_runtime plain_request ''c'' [Http rq1, Http rq2] = (Inr (Some c'), h')"
    by (simp add: after_create_def io_bind_def io_catch_def io_some_def plain_copies)
  then have ok: "runner_start starting_world sample_runtime plain_request [] = (Inr (Some c'), h')"
    using runner_start_created [OF plain_request_accepted c(1) r] by simp
  from start_ready [OF this] obtain i h1 h3 h4 where "co_id c' = i" "start_container starting_world i h3 = (Inr (), h4)"
    "resolve_or_pull_linux starting_world (descriptor plain_request) (cr_platform plain_request) [] = (Inr (), h1)"
    "\<exists>h2. create_container starting_world config h1 = (Inr i, h2)" using c(1) by (elim exE conjE) auto
  then have "co_id c' = ''c''" "\<exists>h3 h4. start_container starting_world ''c'' h3 = (Inr (), h4)" using r by auto
  with ok show ?thesis by blast
qed

end
