(* ===== verification/Http_Decode.thy ===== *)
theory Http_Decode
  imports Wait_Strategies
begin

text \<open>
  The HTTP exchange below the Docker client and the HTTP wait: \<open>ResponseAccumulator\<close> of
  \<open>src/core/client/http_decode.rs\<close>, the encoding of requests and \<open>read_http11_response\<close> of
  \<open>src/core/client/docker_client.rs\<close>, and \<open>send_request_inner\<close> of
  \<open>src/core/wait/http_strategy.rs\<close>. The decoder of the crate \<open>shiguredo_http11\<close> and the socket
  are what they answer, call by call; a list of answers that is too short stands for a call that
  never returns, an answer to another call than the one made for a decoder that does not exist.
\<close>

section \<open>The decoder's answers\<close>

datatype body_kind = BodyNone | BodyTunnel | CloseDelimited | ContentLength nat | Chunked | OtherBody

record response_head =
  rh_status :: nat
  rh_headers :: "(string \<times> string) list"

text \<open>
  \<open>decode_headers\<close>; \<open>peek_body\<close> with a piece and \<open>consume_body\<close> of all of it; \<open>peek_body\<close> with
  nothing and \<open>progress\<close>.
\<close>

datatype decoder_answer =
  Headers "string + (response_head \<times> body_kind) option"
| Piece "u8 list" "string + body_progress"
| NoPiece "string + body_progress"

section \<open>ResponseAccumulator\<close>

datatype body_limit = Unlimited | Truncate nat | LimitError nat

text \<open>\<open>ra_max_body\<close> is the limit given to the decoder, \<open>None\<close> for its default.\<close>

record response_accumulator =
  ra_request_method :: string
  ra_max_body :: "nat option"
  ra_head :: "response_head option"
  ra_body_kind :: "body_kind option"
  ra_body_buf :: "u8 list"
  ra_body_done :: bool
  ra_body_limit :: body_limit

definition accumulator_new :: "string \<Rightarrow> body_limit \<Rightarrow> response_accumulator" where
  "accumulator_new method limit =
     \<lparr>ra_request_method = method,
      ra_max_body = (case limit of LimitError n \<Rightarrow> Some n | Truncate _ \<Rightarrow> Some (2 ^ 64 - 1) | Unlimited \<Rightarrow> None),
      ra_head = None, ra_body_kind = None, ra_body_buf = [], ra_body_done = False, ra_body_limit = limit\<rparr>"

definition store_piece :: "u8 list \<Rightarrow> response_accumulator \<Rightarrow> string + response_accumulator" where
  "store_piece data acc =
     (case ra_body_limit acc of
        Unlimited \<Rightarrow> Inr (acc\<lparr>ra_body_buf := ra_body_buf acc @ data\<rparr>)
      | Truncate n \<Rightarrow> Inr (acc\<lparr>ra_body_buf := ra_body_buf acc @ take (n - length (ra_body_buf acc)) data\<rparr>)
      | LimitError n \<Rightarrow>
          if n < length (ra_body_buf acc) + length data then Inl (''output exceeds '' @ show_nat n @ '' bytes limit'')
          else Inr (acc\<lparr>ra_body_buf := ra_body_buf acc @ data\<rparr>))"

fun drain_body ::
  "decoder_answer list \<Rightarrow> response_accumulator \<Rightarrow> ((string + unit) \<times> decoder_answer list \<times> response_accumulator) option" where
  "drain_body (Piece data consumed # as) acc =
     (case store_piece data acc of
        Inl e \<Rightarrow> Some (Inl e, as, acc)
      | Inr acc' \<Rightarrow>
          (case consumed of
             Inl e \<Rightarrow> Some (Inl e, as, acc')
           | Inr Complete \<Rightarrow> Some (Inr (), as, acc'\<lparr>ra_body_done := True\<rparr>)
           | Inr _ \<Rightarrow> drain_body as acc'))"
| "drain_body (NoPiece (Inl e) # as) acc = Some (Inl e, as, acc)"
| "drain_body (NoPiece (Inr Complete) # as) acc = Some (Inr (), as, acc\<lparr>ra_body_done := True\<rparr>)"
| "drain_body (NoPiece (Inr Advanced) # as) acc = drain_body as acc"
| "drain_body (NoPiece (Inr NeedData) # as) acc = Some (Inr (), as, acc)"
| "drain_body _ acc = None"

definition feed_body ::
  "nat \<Rightarrow> decoder_answer list \<Rightarrow> response_accumulator \<Rightarrow> ((string + bool) \<times> decoder_answer list \<times> response_accumulator) option" where
  "feed_body n as acc =
     (case ra_body_kind acc of
        None \<Rightarrow> Some (Inl ''missing body kind after headers'', as, acc)
      | Some OtherBody \<Rightarrow> Some (Inl ''unsupported body kind'', as, acc)
      | Some BodyNone \<Rightarrow> Some (Inr True, as, acc)
      | Some BodyTunnel \<Rightarrow> Some (Inr True, as, acc)
      | Some kind \<Rightarrow>
          (case drain_body as acc of
             None \<Rightarrow> None
           | Some (Inl e, rest) \<Rightarrow> Some (Inl e, rest)
           | Some (Inr _, as', acc') \<Rightarrow>
               if ra_body_done acc' then Some (Inr True, as', acc')
               else if n \<noteq> 0 then Some (Inr False, as', acc')
               else if kind = CloseDelimited then Some (Inr True, as', acc'\<lparr>ra_body_done := True\<rparr>)
               else Some (Inl ''connection closed before body complete'', as', acc')))"

fun feed_headers ::
  "nat \<Rightarrow> decoder_answer list \<Rightarrow> response_accumulator \<Rightarrow> ((string + bool) \<times> decoder_answer list \<times> response_accumulator) option" where
  "feed_headers n (Headers (Inl e) # as) acc = Some (Inl e, as, acc)"
| "feed_headers n (Headers (Inr (Some (h, k))) # as) acc =
     (if 100 \<le> rh_status h \<and> rh_status h < 200
      then feed_headers n as (acc\<lparr>ra_head := None, ra_body_kind := None, ra_body_buf := [], ra_body_done := False\<rparr>)
      else feed_body n as (acc\<lparr>ra_head := Some h, ra_body_kind := Some k\<rparr>))"
| "feed_headers n (Headers (Inr None) # as) acc =
     (if n = 0 then Some (Inl ''connection closed before headers complete'', as, acc) else Some (Inr False, as, acc))"
| "feed_headers n _ acc = None"

text \<open>\<open>feed(n)\<close>: \<open>n\<close> bytes have been read, none of them at the end of the stream.\<close>

definition feed_response ::
  "nat \<Rightarrow> decoder_answer list \<Rightarrow> response_accumulator \<Rightarrow> ((string + bool) \<times> decoder_answer list \<times> response_accumulator) option" where
  "feed_response n as acc = (if ra_head acc = None then feed_headers n as acc else feed_body n as acc)"

definition accumulator_finish :: "response_accumulator \<Rightarrow> string + response_head \<times> u8 list" where
  "accumulator_finish acc = rbind (ok_or ''no response head'' (ra_head acc)) (\<lambda>h. Inr (h, ra_body_buf acc))"

section \<open>Reading a response\<close>

text \<open>One turn of the loop: the room in the decoder's buffer, the error of \<open>mut_buf\<close>, the result of the read.\<close>

type_synonym read_turn = "nat \<times> string option \<times> (io_error + nat)"

fun read_response ::
  "(io_error \<Rightarrow> 'e) \<Rightarrow> (string \<Rightarrow> 'e) \<Rightarrow> read_turn list \<Rightarrow> decoder_answer list \<Rightarrow> response_accumulator \<Rightarrow>
   (('e + response_accumulator) \<times> decoder_answer list) option" where
  "read_response of_io of_text [] as acc = None"
| "read_response of_io of_text ((available, mut_buf, rd) # ts) as acc =
     (if min available 8192 = 0 then Some (Inl (of_text ''decoder buffer full''), as)
      else case mut_buf of
        Some m \<Rightarrow> Some (Inl (of_text m), as)
      | None \<Rightarrow>
          (case rd of
             Inl e \<Rightarrow> Some (Inl (of_io e), as)
           | Inr n \<Rightarrow>
               (case feed_response n as acc of
                  None \<Rightarrow> None
                | Some (Inl m, as', _) \<Rightarrow> Some (Inl (of_text m), as')
                | Some (Inr True, as', acc') \<Rightarrow> Some (Inr acc', as')
                | Some (Inr False, as', acc') \<Rightarrow> read_response of_io of_text ts as' acc')))"

text \<open>
  \<open>read_http11_response\<close>; \<open>rebuild\<close> is the error of building the library's response from the head.
\<close>

definition client_other :: "string \<Rightarrow> error" where
  "client_other m = Client (ClientOther m)"

definition read_http11_response ::
  "(response_head \<Rightarrow> string option) \<Rightarrow> string \<Rightarrow> body_limit \<Rightarrow> read_turn list \<Rightarrow> decoder_answer list \<Rightarrow> http_response result option" where
  "read_http11_response rebuild method limit turns as =
     map_option (\<lambda>(r, _).
         rbind r (\<lambda>acc.
         rbind (map_err client_other (accumulator_finish acc)) (\<lambda>(h, body).
         case rebuild h of
           Some m \<Rightarrow> Inl (client_other m)
         | None \<Rightarrow> Inr \<lparr>rsp_status = rh_status h, rsp_body = Some body\<rparr>)))
       (read_response Io client_other turns as (accumulator_new method limit))"

section \<open>Encoding a request\<close>

definition encode_fields :: "(string \<times> string) list \<Rightarrow> (u8 list \<times> string) option \<Rightarrow> (string \<times> string) list" where
  "encode_fields extra body =
     [(''Host'', ''localhost''), (''Connection'', ''close'')] @ extra @
     (case body of None \<Rightarrow> [] | Some (b, ct) \<Rightarrow> [(''Content-Type'', ct), (''Content-Length'', show_nat (length b))])"

definition encode_docker_api_request_with_headers ::
  "http11 \<Rightarrow> string \<Rightarrow> string \<Rightarrow> (u8 list \<times> string) option \<Rightarrow> (string \<times> string) list \<Rightarrow> u8 list result" where
  "encode_docker_api_request_with_headers h11 method path body extra =
     map_err client_other (
       rbind (h11_method h11 method) (\<lambda>_.
       rbind (h11_target h11 path) (\<lambda>_.
       rbind (foldr_res (\<lambda>u kv. h11_field h11 kv) () (encode_fields extra body)) (\<lambda>_.
       h11_encode h11 method path (encode_fields extra body) (map_option fst body)))))"

definition encode_docker_api_request ::
  "http11 \<Rightarrow> string \<Rightarrow> string \<Rightarrow> (u8 list \<times> string) option \<Rightarrow> u8 list result" where
  "encode_docker_api_request h11 method path body = encode_docker_api_request_with_headers h11 method path body []"

section \<open>The exchanges\<close>

record socket_run =
  sk_connect :: "io_error + unit"
  sk_write :: "u8 list \<Rightarrow> io_error + unit"
  sk_turns :: "read_turn list"
  sk_answers :: "decoder_answer list"

definition limit_of :: "nat option \<Rightarrow> body_limit" where
  "limit_of l = (case l of None \<Rightarrow> Unlimited | Some n \<Rightarrow> LimitError n)"

text \<open>
  What \<open>request_with_extra_headers\<close> and its siblings do on the blocking thread; they differ in the
  fields they pass. \<open>None\<close> is a daemon that never answers.
\<close>

definition docker_exchange :: "http11 \<Rightarrow> (response_head \<Rightarrow> string option) \<Rightarrow> socket_run \<Rightarrow> http_request \<Rightarrow> http_response result option" where
  "docker_exchange h11 rebuild sk rq =
     (case encode_docker_api_request_with_headers h11 (rq_method rq) (rq_path rq) (rq_body rq) (rq_headers rq) of
        Inl e \<Rightarrow> Some (Inl e)
      | Inr bytes \<Rightarrow>
          (case rbind (sk_connect sk) (\<lambda>_. sk_write sk bytes) of
             Inl e \<Rightarrow> Some (Inl (Io e))
           | Inr _ \<Rightarrow> read_http11_response rebuild (rq_method rq) (limit_of (rq_limit rq)) (sk_turns sk) (sk_answers sk)))"

definition MAX_HTTP_RESPONSE_BODY_BYTES :: nat where
  "MAX_HTTP_RESPONSE_BODY_BYTES = 1024 * 1024"

text \<open>\<open>send_request_inner\<close>: errors are boxed and shown by their text.\<close>

definition send_request_inner :: "socket_run \<Rightarrow> string \<Rightarrow> u8 list \<Rightarrow> (string + server_response) option" where
  "send_request_inner sk method bytes =
     (case rbind (sk_connect sk) (\<lambda>_. sk_write sk bytes) of
        Inl e \<Rightarrow> Some (Inl (io_text e))
      | Inr _ \<Rightarrow>
          map_option (\<lambda>(r, _). rbind r (\<lambda>acc. rbind (accumulator_finish acc) (\<lambda>(h, body).
              Inr \<lparr>hr_status = rh_status h, hr_headers = rh_headers h, hr_body = body\<rparr>)))
            (read_response io_text (\<lambda>m. m) (sk_turns sk) (sk_answers sk)
              (accumulator_new method (Truncate MAX_HTTP_RESPONSE_BODY_BYTES))))"

section \<open>What a response consists of\<close>

fun final_head :: "decoder_answer list \<Rightarrow> (response_head \<times> body_kind) option" where
  "final_head [] = None"
| "final_head (a # as) =
     (case a of
        Headers (Inr (Some (h, k))) \<Rightarrow> if 100 \<le> rh_status h \<and> rh_status h < 200 then final_head as else Some (h, k)
      | _ \<Rightarrow> final_head as)"

fun body_bytes :: "decoder_answer list \<Rightarrow> u8 list" where
  "body_bytes [] = []"
| "body_bytes (a # as) = (case a of Piece data _ \<Rightarrow> data @ body_bytes as | _ \<Rightarrow> body_bytes as)"

definition completes :: "decoder_answer \<Rightarrow> bool" where
  "completes a \<longleftrightarrow> a = NoPiece (Inr Complete) \<or> (\<exists>data. a = Piece data (Inr Complete))"

definition limited :: "body_limit \<Rightarrow> u8 list \<Rightarrow> u8 list" where
  "limited limit bs = (case limit of Truncate n \<Rightarrow> take n bs | _ \<Rightarrow> bs)"

definition fits :: "body_limit \<Rightarrow> u8 list \<Rightarrow> bool" where
  "fits limit bs = (case limit of LimitError n \<Rightarrow> length bs \<le> n | _ \<Rightarrow> True)"

text \<open>How a body of a kind can end: it has none, the decoder saw its end, or the peer closed a body that ends so.\<close>

definition response_ended :: "read_turn list \<Rightarrow> body_kind \<Rightarrow> decoder_answer list \<Rightarrow> bool" where
  "response_ended turns k used \<longleftrightarrow>
     k = BodyNone \<or> k = BodyTunnel \<or> list_ex completes used \<or> (k = CloseDelimited \<and> Inr 0 \<in> (snd \<circ> snd) ` set turns)"

definition accumulated :: "body_limit \<Rightarrow> decoder_answer list \<Rightarrow> response_accumulator \<Rightarrow> bool" where
  "accumulated limit used acc \<longleftrightarrow>
     ra_body_limit acc = limit \<and> ra_head acc = map_option fst (final_head used) \<and> ra_body_kind acc = map_option snd (final_head used) \<and>
     ra_body_buf acc = limited limit (body_bytes used) \<and> fits limit (body_bytes used) \<and>
     (final_head used = None \<longrightarrow> body_bytes used = [])"

lemma final_head_append: "final_head (u @ v) = (case final_head u of Some x \<Rightarrow> Some x | None \<Rightarrow> final_head v)"
  by (induction u) (auto split: decoder_answer.splits sum.splits option.splits)

lemma body_bytes_append [simp]: "body_bytes (u @ v) = body_bytes u @ body_bytes v"
  by (induction u) (auto split: decoder_answer.splits)

lemma accumulated_new: "accumulated limit [] (accumulator_new m limit)"
  by (simp add: accumulated_def accumulator_new_def limited_def fits_def split: body_limit.split)

lemma diff_min: "n - min l n = n - (l :: nat)"
  by (simp add: min_def)

lemma limited_append: "limited limit (bs @ data) = (case limit of Truncate n \<Rightarrow> take n bs @ take (n - length (take n bs)) data | _ \<Rightarrow> bs @ data)"
  by (simp add: limited_def diff_min split: body_limit.split)

lemma store_piece_accumulated:
  assumes "accumulated limit used acc" and "final_head used = Some hk" and "store_piece data acc = Inr acc'"
  shows "accumulated limit (used @ [Piece data c]) acc' \<and> ra_body_done acc' = ra_body_done acc"
  using assms
  by (auto simp: accumulated_def store_piece_def final_head_append limited_append limited_def fits_def diff_min split: body_limit.splits if_splits)

lemma accumulated_quiet:
  assumes "accumulated limit used acc" and "final_head used = Some hk" and "body_bytes [a] = []"
  shows "accumulated limit (used @ [a]) acc"
  using assms by (simp add: accumulated_def final_head_append)

lemma drain_body_accumulated:
  assumes "drain_body as acc = Some (Inr x, rest, acc')" and "accumulated limit used acc" and "final_head used = Some hk"
  shows "\<exists>u. as = u @ rest \<and> accumulated limit (used @ u) acc' \<and> final_head (used @ u) = Some hk \<and>
     (ra_body_done acc' \<longrightarrow> ra_body_done acc \<or> list_ex completes u)"
  using assms
proof (induction as acc arbitrary: used rule: drain_body.induct)
  case (1 data consumed as acc)
  obtain acc1 where acc1: "store_piece data acc = Inr acc1" using "1.prems"(1) by (cases "store_piece data acc") auto
  note store = store_piece_accumulated [OF "1.prems"(2,3) this, of consumed]
  have head: "final_head (used @ [Piece data consumed]) = Some hk" using "1.prems"(3) by (simp add: final_head_append)
  obtain p where p: "consumed = Inr p" using "1.prems"(1) acc1 by (cases consumed) auto
  show ?case
  proof (cases "p = Complete")
    case True
    then have "as = rest" "acc' = acc1\<lparr>ra_body_done := True\<rparr>" using "1.prems"(1) acc1 p by auto
    with store head p True show ?thesis
      by (intro exI [of _ "[Piece data consumed]"]) (auto simp: accumulated_def completes_def)
  next
    case False
    then have "drain_body as acc1 = Some (Inr x, rest, acc')" using "1.prems"(1) acc1 p by (cases p) auto
    with "1.IH" acc1 p False store head obtain u where "as = u @ rest" "accumulated limit ((used @ [Piece data consumed]) @ u) acc'"
      "final_head ((used @ [Piece data consumed]) @ u) = Some hk" "ra_body_done acc' \<longrightarrow> ra_body_done acc1 \<or> list_ex completes u"
      by (cases p) blast+
    with store show ?thesis by (intro exI [of _ "Piece data consumed # u"]) auto
  qed
next
  case (3 as acc)
  then show ?case using accumulated_quiet [OF "3.prems"(2,3), of "NoPiece (Inr Complete)"]
    by (intro exI [of _ "[NoPiece (Inr Complete)]"]) (auto simp: accumulated_def completes_def final_head_append)
next
  case (4 as acc)
  have "accumulated limit (used @ [NoPiece (Inr Advanced)]) acc" "final_head (used @ [NoPiece (Inr Advanced)]) = Some hk"
    using "4.prems" accumulated_quiet by (auto simp: final_head_append)
  with "4.IH" "4.prems"(1) obtain u where "as = u @ rest" "accumulated limit ((used @ [NoPiece (Inr Advanced)]) @ u) acc'"
      "final_head ((used @ [NoPiece (Inr Advanced)]) @ u) = Some hk" "ra_body_done acc' \<longrightarrow> ra_body_done acc \<or> list_ex completes u"
    by force
  then show ?case by (intro exI [of _ "NoPiece (Inr Advanced) # u"]) auto
next
  case (5 as acc)
  then show ?case using accumulated_quiet [OF "5.prems"(2,3), of "NoPiece (Inr NeedData)"]
    by (intro exI [of _ "[NoPiece (Inr NeedData)]"]) (auto simp: final_head_append)
qed simp_all

lemma feed_body_accumulated:
  assumes "feed_body n as acc = Some (Inr b, rest, acc')" and "accumulated limit used acc" and "final_head used = Some (h, k)"
    and "\<not> ra_body_done acc"
  shows "\<exists>u. as = u @ rest \<and> accumulated limit (used @ u) acc' \<and> final_head (used @ u) = Some (h, k) \<and>
     (b \<longrightarrow> k = BodyNone \<or> k = BodyTunnel \<or> list_ex completes u \<or> (k = CloseDelimited \<and> n = 0)) \<and> (\<not> b \<longrightarrow> \<not> ra_body_done acc')"
proof -
  have kind: "ra_body_kind acc = Some k" using assms(2,3) by (simp add: accumulated_def)
  show ?thesis
  proof (cases "k = BodyNone \<or> k = BodyTunnel")
    case True
    then show ?thesis using assms kind by (intro exI [of _ "[]"]) (auto simp: feed_body_def)
  next
    case False
    with assms(1) kind obtain x as' acc1 where d: "drain_body as acc = Some (Inr x, as', acc1)" and
      r: "(if ra_body_done acc1 then Some (Inr True, as', acc1) else if n \<noteq> 0 then Some (Inr False, as', acc1)
        else if k = CloseDelimited then Some (Inr True, as', acc1\<lparr>ra_body_done := True\<rparr>)
        else Some (Inl ''connection closed before body complete'', as', acc1)) = Some (Inr b, rest, acc')"
      by (cases k) (auto simp: feed_body_def split: option.splits sum.splits)
    from drain_body_accumulated [OF d assms(2,3)] obtain u where u: "as = u @ as'" "accumulated limit (used @ u) acc1"
      "final_head (used @ u) = Some (h, k)" "ra_body_done acc1 \<longrightarrow> list_ex completes u" using assms(4) by blast
    with r show ?thesis by (intro exI [of _ u]) (auto simp: accumulated_def split: if_splits)
  qed
qed

lemma feed_headers_accumulated:
  assumes "feed_headers n as acc = Some (Inr b, rest, acc')" and "accumulated limit used acc" and "final_head used = None"
    and "\<not> ra_body_done acc"
  shows "\<exists>u. as = u @ rest \<and> accumulated limit (used @ u) acc' \<and> (\<not> b \<longrightarrow> \<not> ra_body_done acc') \<and>
     (b \<longrightarrow> (\<exists>h k. final_head (used @ u) = Some (h, k) \<and>
       (k = BodyNone \<or> k = BodyTunnel \<or> list_ex completes u \<or> (k = CloseDelimited \<and> n = 0))))"
  using assms
proof (induction n as acc arbitrary: used rule: feed_headers.induct)
  case (2 n h k as acc)
  let ?a = "Headers (Inr (Some (h, k)))"
  show ?case
  proof (cases "100 \<le> rh_status h \<and> rh_status h < 200")
    case True
    let ?acc = "acc\<lparr>ra_head := None, ra_body_kind := None, ra_body_buf := [], ra_body_done := False\<rparr>"
    have "accumulated limit (used @ [?a]) ?acc" "final_head (used @ [?a]) = None" "\<not> ra_body_done ?acc"
      using True "2.prems" by (auto simp: accumulated_def final_head_append limited_def split: body_limit.split)
    from "2.IH" [OF True _ this] "2.prems"(1) True obtain u where "as = u @ rest" "accumulated limit ((used @ [?a]) @ u) acc'"
      "\<not> b \<longrightarrow> \<not> ra_body_done acc'" "b \<longrightarrow> (\<exists>h k. final_head ((used @ [?a]) @ u) = Some (h, k) \<and>
       (k = BodyNone \<or> k = BodyTunnel \<or> list_ex completes u \<or> (k = CloseDelimited \<and> n = 0)))" by auto
    then show ?thesis by (intro exI [of _ "?a # u"]) auto
  next
    case False
    let ?acc = "acc\<lparr>ra_head := Some h, ra_body_kind := Some k\<rparr>"
    have "accumulated limit (used @ [?a]) ?acc" "final_head (used @ [?a]) = Some (h, k)" "\<not> ra_body_done ?acc"
      using False "2.prems" by (auto simp: accumulated_def final_head_append)
    moreover have "feed_body n as ?acc = Some (Inr b, rest, acc')" using "2.prems"(1) False by auto
    ultimately obtain u where "as = u @ rest" "accumulated limit ((used @ [?a]) @ u) acc'" "final_head ((used @ [?a]) @ u) = Some (h, k)"
      "b \<longrightarrow> k = BodyNone \<or> k = BodyTunnel \<or> list_ex completes u \<or> (k = CloseDelimited \<and> n = 0)" "\<not> b \<longrightarrow> \<not> ra_body_done acc'"
      using feed_body_accumulated by metis
    then show ?thesis by (intro exI [of _ "?a # u"]) auto
  qed
next
  case (3 n as acc)
  then show ?case by (intro exI [of _ "[Headers (Inr None)]"]) (auto simp: accumulated_def final_head_append split: if_splits)
qed simp_all

lemma feed_response_accumulated:
  assumes "feed_response n as acc = Some (Inr b, rest, acc')" and "accumulated limit used acc" and "\<not> ra_body_done acc"
  shows "\<exists>u. as = u @ rest \<and> accumulated limit (used @ u) acc' \<and> (\<not> b \<longrightarrow> \<not> ra_body_done acc') \<and>
     (b \<longrightarrow> (\<exists>h k. final_head (used @ u) = Some (h, k) \<and>
       (k = BodyNone \<or> k = BodyTunnel \<or> list_ex completes u \<or> (k = CloseDelimited \<and> n = 0))))"
proof (cases "final_head used")
  case None
  then have "feed_headers n as acc = Some (Inr b, rest, acc')" using assms(1,2) by (simp add: feed_response_def accumulated_def)
  from feed_headers_accumulated [OF this assms(2) None assms(3)] show ?thesis .
next
  case (Some hk)
  moreover obtain h k where "hk = (h, k)" by (cases hk)
  ultimately have head: "final_head used = Some (h, k)" by simp
  then have "feed_body n as acc = Some (Inr b, rest, acc')" using assms(1,2) by (simp add: feed_response_def accumulated_def)
  from feed_body_accumulated [OF this assms(2) head assms(3)] show ?thesis by blast
qed

lemma read_response_accumulated:
  assumes "read_response of_io of_text turns as acc = Some (Inr acc', rest)" and "accumulated limit used acc" and "\<not> ra_body_done acc"
  shows "\<exists>u h k. as = u @ rest \<and> accumulated limit (used @ u) acc' \<and> final_head (used @ u) = Some (h, k) \<and> response_ended turns k (used @ u)"
  using assms
proof (induction of_io of_text turns as acc arbitrary: used rule: read_response.induct)
  case (2 of_io of_text available mut_buf rd ts as acc)
  from "2.prems"(1) obtain n b as1 acc1 where guards: "min available 8192 \<noteq> 0" "mut_buf = None" "rd = Inr n"
    and f: "feed_response n as acc = Some (Inr b, as1, acc1)"
    and r: "if b then acc1 = acc' \<and> as1 = rest else read_response of_io of_text ts as1 acc1 = Some (Inr acc', rest)"
    by (auto split: if_splits option.splits sum.splits bool.splits)
  from feed_response_accumulated [OF f "2.prems"(2,3)] obtain u where u: "as = u @ as1" "accumulated limit (used @ u) acc1"
    "\<not> b \<longrightarrow> \<not> ra_body_done acc1" "b \<longrightarrow> (\<exists>h k. final_head (used @ u) = Some (h, k) \<and>
       (k = BodyNone \<or> k = BodyTunnel \<or> list_ex completes u \<or> (k = CloseDelimited \<and> n = 0)))" by blast
  show ?case
  proof (cases b)
    case True
    with u r guards show ?thesis by (intro exI [of _ u]) (force simp: response_ended_def)
  next
    case False
    with f have f': "feed_response n as acc = Some (Inr False, as1, acc1)" by simp
    from "2.IH" [OF guards f' refl refl refl refl _ u(2)] False u(3) r obtain v h k where "as1 = v @ rest" "accumulated limit ((used @ u) @ v) acc'"
      "final_head ((used @ u) @ v) = Some (h, k)" "response_ended ts k ((used @ u) @ v)" by auto
    with u(1) show ?thesis by (intro exI [of _ "u @ v"] exI [of _ h] exI [of _ k]) (auto simp: response_ended_def)
  qed
qed simp

lemma read_response_finish:
  assumes "read_response of_io of_text turns as (accumulator_new m limit) = Some (Inr acc, rest)"
  obtains used h k where "as = used @ rest" "final_head used = Some (h, k)" "response_ended turns k used" "fits limit (body_bytes used)"
    "accumulator_finish acc = Inr (h, limited limit (body_bytes used))"
proof -
  have "\<not> ra_body_done (accumulator_new m limit)" by (simp add: accumulator_new_def)
  from read_response_accumulated [OF assms accumulated_new this] obtain u h k where "as = u @ rest" "accumulated limit u acc"
    "final_head u = Some (h, k)" "response_ended turns k u" by auto
  then show thesis using that by (simp add: accumulated_def accumulator_finish_def)
qed

section \<open>Properties\<close>

text \<open>
  C22. An answer the Docker client sees is a final and complete answer of the daemon: informational answers are
  skipped, the status is that of the final head, the body is every byte the decoder gave for it, in order, and
  its end was reached; a connection that closes early is an error unless closing is how the body
  ends. A request with a limit never gives a body beyond it.
\<close>

theorem docker_answer_complete:
  assumes "docker_exchange h11 rebuild sk rq = Some (Inr rsp)"
  shows "\<exists>used rest h k. sk_answers sk = used @ rest \<and> final_head used = Some (h, k) \<and> response_ended (sk_turns sk) k used \<and>
     rsp_status rsp = rh_status h \<and> rsp_body rsp = Some (body_bytes used) \<and>
     (case rq_limit rq of Some n \<Rightarrow> length (body_bytes used) \<le> n | None \<Rightarrow> True)"
proof -
  from assms obtain bytes where "read_http11_response rebuild (rq_method rq) (limit_of (rq_limit rq)) (sk_turns sk) (sk_answers sk) = Some (Inr rsp)"
    by (auto simp: docker_exchange_def split: sum.splits)
  then obtain acc rest where r: "read_response Io client_other (sk_turns sk) (sk_answers sk) (accumulator_new (rq_method rq) (limit_of (rq_limit rq)))
      = Some (Inr acc, rest)"
    and rsp: "rbind (map_err client_other (accumulator_finish acc)) (\<lambda>(h, body).
         case rebuild h of Some m \<Rightarrow> Inl (client_other m) | None \<Rightarrow> Inr \<lparr>rsp_status = rh_status h, rsp_body = Some body\<rparr>) = Inr rsp"
    by (auto simp: read_http11_response_def rbind_eq_Inr_iff)
  from r obtain used h k where u: "sk_answers sk = used @ rest" "final_head used = Some (h, k)" "response_ended (sk_turns sk) k used"
    "fits (limit_of (rq_limit rq)) (body_bytes used)" "accumulator_finish acc = Inr (h, limited (limit_of (rq_limit rq)) (body_bytes used))"
    by (rule read_response_finish)
  moreover have "limited (limit_of (rq_limit rq)) (body_bytes used) = body_bytes used" by (simp add: limited_def limit_of_def split: option.split)
  ultimately show ?thesis using rsp by (intro exI conjI) (auto simp: limit_of_def fits_def split: option.splits)
qed

text \<open>An informational answer, then one whose body comes in two pieces; the connection stays open.\<close>

definition sample_run :: socket_run where
  "sample_run =
     \<lparr>sk_connect = Inr (), sk_write = (\<lambda>_. Inr ()), sk_turns = [(65536, None, Inr 30), (65536, None, Inr 40)],
      sk_answers = [Headers (Inr (Some (\<lparr>rh_status = 103, rh_headers = []\<rparr>, BodyNone))), Headers (Inr None),
        Headers (Inr (Some (\<lparr>rh_status = 200, rh_headers = [(''Content-Length'', ''2'')]\<rparr>, ContentLength 2))),
        Piece [111] (Inr Advanced), Piece [107] (Inr Complete)]\<rparr>"

definition sample_get :: http_request where
  "sample_get = \<lparr>rq_method = ''GET'', rq_path = ''/'', rq_headers = [], rq_body = None, rq_limit = Some 2\<rparr>"

lemmas run_eval = sample_run_def sample_get_def read_http11_response_def feed_response_def feed_body_def store_piece_def
  accumulator_new_def accumulator_finish_def limit_of_def ok_or_def

theorem docker_answer_complete_witness:
  "\<exists>rsp used rest. docker_exchange plain_http11 (\<lambda>_. None) sample_run sample_get = Some (Inr rsp) \<and>
     rsp_status rsp = 200 \<and> rsp_body rsp = Some [111, 107] \<and> sk_answers sample_run = used @ rest \<and> body_bytes used = [111, 107]"
proof -
  let ?rsp = "\<lparr>rsp_status = 200, rsp_body = Some [111, 107]\<rparr>"
  have rsp: "docker_exchange plain_http11 (\<lambda>_. None) sample_run sample_get = Some (Inr ?rsp)"
    by (simp add: docker_exchange_def encode_docker_api_request_with_headers_def plain_http11_def encode_fields_def run_eval)
  from docker_answer_complete [OF rsp] rsp show ?thesis by auto
qed

text \<open>
  The answer of a probed server that the HTTP wait matches against is final and complete as well, with all
  its header fields, and its body is cut to the first 1 MiB instead of failing.
\<close>

lemma probe_answer_truncated:
  assumes "send_request_inner sk method bytes = Some (Inr rsp)"
  shows "\<exists>used rest h k. sk_answers sk = used @ rest \<and> final_head used = Some (h, k) \<and> response_ended (sk_turns sk) k used \<and>
     hr_status rsp = rh_status h \<and> hr_headers rsp = rh_headers h \<and> hr_body rsp = take MAX_HTTP_RESPONSE_BODY_BYTES (body_bytes used)"
proof -
  from assms obtain acc rest where r: "read_response io_text (\<lambda>m. m) (sk_turns sk) (sk_answers sk)
      (accumulator_new method (Truncate MAX_HTTP_RESPONSE_BODY_BYTES)) = Some (Inr acc, rest)"
    and rsp: "rbind (accumulator_finish acc) (\<lambda>(h, body). Inr \<lparr>hr_status = rh_status h, hr_headers = rh_headers h, hr_body = body\<rparr>) = Inr rsp"
    by (auto simp: send_request_inner_def rbind_eq_Inr_iff split: sum.splits)
  from r obtain used h k where "sk_answers sk = used @ rest" "final_head used = Some (h, k)" "response_ended (sk_turns sk) k used"
    "accumulator_finish acc = Inr (h, limited (Truncate MAX_HTTP_RESPONSE_BODY_BYTES) (body_bytes used))" by (rule read_response_finish)
  with rsp show ?thesis by (intro exI conjI) (auto simp: limited_def)
qed

end
