(* ===== verification/Image_Config.thy ===== *)
theory Image_Config
  imports Docker_Client
begin

text \<open>
  \<open>src/core/client/image_config.rs\<close>: Apple's daemon does not resolve an image's default command, so
  the library follows the image's index, manifest and configuration itself and merges entry point
  and command with those of the request. The operation that reads a digest from the content store of
  the daemon is a parameter, and so are the JSON parser and the architecture the library was
  built for.
\<close>

section \<open>The command of a container\<close>

record image_config =
  ic_entrypoint :: "string list option"
  ic_cmd :: "string list option"

definition is_cleared_entrypoint :: "string list \<Rightarrow> bool" where
  "is_cleared_entrypoint entrypoint \<longleftrightarrow> length entrypoint = 1 \<and> hd entrypoint = []"

definition no_command :: error where
  "no_command = Other (''no command specified: Apple container XPC does not resolve the image'' @ [CHR 0x27] @ ''s default '' @
     ''CMD/ENTRYPOINT and none was provided, use with_cmd() or an Image that provides cmd()'')"

definition effective_command :: "image_config \<Rightarrow> string option \<Rightarrow> string list \<Rightarrow> (string \<times> string list) result" where
  "effective_command cfg entrypoint_override cmd_override =
     (let given = (case entrypoint_override of
            Some ep \<Rightarrow> if ep = [] then None else Some [ep]
          | None \<Rightarrow> ic_entrypoint cfg);
          entrypoint = (case given of Some ep \<Rightarrow> if is_cleared_entrypoint ep then None else Some ep | None \<Rightarrow> None);
          cmd = (if cmd_override \<noteq> [] then Some cmd_override else ic_cmd cfg)
      in case (entrypoint, cmd) of
           (Some ep, Some c) \<Rightarrow>
             if ep \<noteq> [] \<and> c \<noteq> [] then Inr (hd (ep @ c), tl (ep @ c))
             else if ep \<noteq> [] then Inr (hd ep, tl ep)
             else if c \<noteq> [] then Inr (hd c, tl c)
             else Inl no_command
         | (Some ep, None) \<Rightarrow> if ep \<noteq> [] then Inr (hd ep, tl ep) else Inl no_command
         | (None, Some c) \<Rightarrow> if c \<noteq> [] then Inr (hd c, tl c) else Inl no_command
         | (None, None) \<Rightarrow> Inl no_command)"

section \<open>Platforms\<close>

definition host_architecture :: "string \<Rightarrow> string" where
  "host_architecture arch = (if arch = ''aarch64'' then ''arm64'' else if arch = ''x86_64'' then ''amd64'' else ''arm64'')"

definition platform_os_and_raw_arch :: "string option \<Rightarrow> string \<times> string" where
  "platform_os_and_raw_arch platform =
     (case platform of
        None \<Rightarrow> (''linux'', [])
      | Some p \<Rightarrow> (case split_on CHR ''/'' p of first # arch # _ \<Rightarrow> (first, arch) | first # _ \<Rightarrow> (''linux'', first) | [] \<Rightarrow> (''linux'', [])))"

definition target_os_and_architecture :: "string \<Rightarrow> string option \<Rightarrow> string \<times> string" where
  "target_os_and_architecture arch platform =
     (let (os, raw) = platform_os_and_raw_arch platform
      in (os, if raw = [] then host_architecture arch
              else if raw = ''arm64'' \<or> raw = ''aarch64'' then ''arm64''
              else if raw = ''amd64'' \<or> raw = ''x86_64'' then ''amd64''
              else host_architecture arch))"

section \<open>Documents\<close>

definition json_error :: "string \<Rightarrow> string + 'a \<Rightarrow> 'a result" where
  "json_error what r = map_err (\<lambda>e. Client (Json (what @ '': '' @ e))) r"

definition required_string :: "'v nojson \<Rightarrow> 'v \<Rightarrow> string \<Rightarrow> string + string" where
  "required_string nj v key = rbind (required_member nj v key) (nj_string nj)"

definition optional_string :: "'v nojson \<Rightarrow> 'v \<Rightarrow> string \<Rightarrow> string option" where
  "optional_string nj v key = ok (required_string nj v key)"

definition parse_document :: "'v nojson \<Rightarrow> string \<Rightarrow> u8 list \<Rightarrow> 'v result" where
  "parse_document nj what bytes =
     rbind (ok_or (Client (Json (what @ '' is not UTF-8: '' @ utf8_error_text 0 bytes))) (from_utf8 bytes)) (\<lambda>text.
     json_error (''invalid '' @ what @ '' JSON'') (nj_parse nj text))"

record oci_descriptor =
  desc_media_type :: string
  desc_digest :: string

definition parse_descriptor :: "'v nojson \<Rightarrow> string \<Rightarrow> oci_descriptor result" where
  "parse_descriptor nj raw =
     rbind (json_error ''invalid descriptor JSON'' (nj_parse nj raw)) (\<lambda>v.
     rbind (json_error ''descriptor mediaType'' (required_string nj v ''mediaType'')) (\<lambda>m.
     rbind (json_error ''descriptor digest'' (required_string nj v ''digest'')) (\<lambda>d.
     Inr \<lparr>desc_media_type = m, desc_digest = d\<rparr>)))"

definition manifest_digest :: "'v nojson \<Rightarrow> 'v \<Rightarrow> string result" where
  "manifest_digest nj item = json_error ''manifest digest'' (required_string nj item ''digest'')"

definition manifest_platform_os_arch :: "'v nojson \<Rightarrow> 'v \<Rightarrow> (string \<times> string) option" where
  "manifest_platform_os_arch nj item =
     Option.bind (optional_member nj item ''platform'') (\<lambda>p.
     Option.bind (optional_string nj p ''os'') (\<lambda>os.
     Option.bind (optional_string nj p ''architecture'') (\<lambda>arch.
     Some (os, arch))))"

definition manifest_platform_os :: "'v nojson \<Rightarrow> 'v \<Rightarrow> string option" where
  "manifest_platform_os nj item = Option.bind (optional_member nj item ''platform'') (\<lambda>p. optional_string nj p ''os'')"

definition manifest_platform_architecture :: "'v nojson \<Rightarrow> 'v \<Rightarrow> string option" where
  "manifest_platform_architecture nj item = Option.bind (optional_member nj item ''platform'') (\<lambda>p. optional_string nj p ''architecture'')"

definition is_attestation_manifest :: "'v nojson \<Rightarrow> 'v \<Rightarrow> bool" where
  "is_attestation_manifest nj item \<longleftrightarrow> manifest_platform_architecture nj item = Some ''unknown''"

definition index_manifests :: "'v nojson \<Rightarrow> u8 list \<Rightarrow> 'v list result" where
  "index_manifests nj bytes =
     rbind (parse_document nj ''index'' bytes) (\<lambda>v.
     json_error ''index manifests'' (rbind (required_member nj v ''manifests'') (nj_array nj)))"

fun find_preferred :: "'v nojson \<Rightarrow> string \<Rightarrow> string list \<Rightarrow> 'v list \<Rightarrow> 'v option" where
  "find_preferred nj os [] items = None"
| "find_preferred nj os (arch # archs) items =
     (case find (\<lambda>m. manifest_platform_os_arch nj m = Some (os, arch)) items of
        Some m \<Rightarrow> Some m
      | None \<Rightarrow> find_preferred nj os archs items)"

definition select_manifest_digest :: "'v nojson \<Rightarrow> string \<Rightarrow> u8 list \<Rightarrow> string option \<Rightarrow> string result" where
  "select_manifest_digest nj arch bytes platform =
     rbind (index_manifests nj bytes) (\<lambda>items.
     let (os, target) = target_os_and_architecture arch platform
     in case find (\<lambda>m. manifest_platform_os_arch nj m = Some (os, target)) items of
          Some m \<Rightarrow> manifest_digest nj m
        | None \<Rightarrow>
            (case platform of
               Some p \<Rightarrow> Inl (Client (ClientOther (''no matching manifest for '' @ p)))
             | None \<Rightarrow>
                 (case find_preferred nj os [''arm64'', ''amd64''] items of
                    Some m \<Rightarrow> manifest_digest nj m
                  | None \<Rightarrow>
                      (case find (\<lambda>m. manifest_platform_os nj m = Some os \<and> \<not> is_attestation_manifest nj m) items of
                         Some m \<Rightarrow> manifest_digest nj m
                       | None \<Rightarrow>
                           rbind (ok_or (Client (Json ''index has no valid manifests''))
                             (find (\<lambda>m. \<not> is_attestation_manifest nj m) items)) (manifest_digest nj)))))"

definition config_digest_from_manifest :: "'v nojson \<Rightarrow> u8 list \<Rightarrow> string result" where
  "config_digest_from_manifest nj bytes =
     rbind (parse_document nj ''manifest'' bytes) (\<lambda>v.
     json_error ''manifest config.digest'' (rbind (required_member nj v ''config'') (\<lambda>c. required_string nj c ''digest'')))"

fun collect_options :: "'a option list \<Rightarrow> 'a list option" where
  "collect_options [] = Some []"
| "collect_options (v # vs) = Option.bind v (\<lambda>x. map_option ((#) x) (collect_options vs))"

definition string_array :: "'v nojson \<Rightarrow> 'v \<Rightarrow> string \<Rightarrow> string list option" where
  "string_array nj v key =
     Option.bind (optional_member nj v key) (\<lambda>arr.
     Option.bind (ok (nj_array nj arr)) (\<lambda>items. collect_options (map (\<lambda>x. ok (nj_string nj x)) items)))"

definition parse_image_config :: "'v nojson \<Rightarrow> u8 list \<Rightarrow> image_config result" where
  "parse_image_config nj bytes =
     rbind (parse_document nj ''image config'' bytes) (\<lambda>v.
     let config = optional_member nj v ''config''
     in Inr \<lparr>ic_entrypoint = Option.bind config (\<lambda>c. string_array nj c ''Entrypoint''),
             ic_cmd = Option.bind config (\<lambda>c. string_array nj c ''Cmd'')\<rparr>)"

definition is_index_type :: "string \<Rightarrow> bool" where
  "is_index_type m \<longleftrightarrow> m = ''application/vnd.oci.image.index.v1+json'' \<or> m = ''application/vnd.docker.distribution.manifest.list.v2+json''"

definition is_manifest_type :: "string \<Rightarrow> bool" where
  "is_manifest_type m \<longleftrightarrow> m = ''application/vnd.oci.image.manifest.v1+json'' \<or> m = ''application/vnd.docker.distribution.manifest.v2+json''"

definition resolve_image_config ::
  "'v nojson \<Rightarrow> string \<Rightarrow> (string \<Rightarrow> ('e, u8 list) effect) \<Rightarrow> string \<Rightarrow> string option \<Rightarrow> ('e, image_config) effect" where
  "resolve_image_config nj arch content_get desc_raw platform =
     io_bind (io_lift (parse_descriptor nj desc_raw)) (\<lambda>desc.
     io_bind (if is_index_type (desc_media_type desc) then
              io_bind (content_get (desc_digest desc)) (\<lambda>index.
              io_bind (io_lift (select_manifest_digest nj arch index platform)) (\<lambda>m.
              io_bind (content_get m) (\<lambda>manifest. io_lift (config_digest_from_manifest nj manifest))))
            else if is_manifest_type (desc_media_type desc) then
              io_bind (content_get (desc_digest desc)) (\<lambda>manifest. io_lift (config_digest_from_manifest nj manifest))
            else if desc_media_type desc = ''application/vnd.oci.image.config.v1+json'' then io_lift (Inr (desc_digest desc))
            else io_lift (Inl (Client (ClientOther (''unsupported image descriptor mediaType: '' @ desc_media_type desc))))) (\<lambda>digest.
     io_bind (content_get digest) (\<lambda>bytes. io_lift (parse_image_config nj bytes))))"

section \<open>Facts\<close>

text \<open>
  The rule of the library: the arguments are the entry point followed by the command, each merged for
  itself. It is Docker's except that a user's entry point does not drop the command of the image.
\<close>

definition merged_argv :: "image_config \<Rightarrow> string option \<Rightarrow> string list \<Rightarrow> string list" where
  "merged_argv cfg entrypoint_override cmd_override =
     (let entrypoint = (case entrypoint_override of Some ep \<Rightarrow> [ep] | None \<Rightarrow> (case ic_entrypoint cfg of Some ep \<Rightarrow> ep | None \<Rightarrow> []));
          cmd = (if cmd_override \<noteq> [] then cmd_override else case ic_cmd cfg of Some c \<Rightarrow> c | None \<Rightarrow> [])
      in (if entrypoint = [[]] then [] else entrypoint) @ cmd)"

lemma cleared_iff: "is_cleared_entrypoint ep \<longleftrightarrow> ep = [[]]"
  by (cases ep) (auto simp: is_cleared_entrypoint_def)

lemma host_architecture_known: "host_architecture arch = ''arm64'' \<or> host_architecture arch = ''amd64''"
  by (simp add: host_architecture_def)

lemma target_architecture_known:
  "target_os_and_architecture arch platform = (os, target) \<Longrightarrow> target = ''arm64'' \<or> target = ''amd64''"
  using host_architecture_known by (auto simp: target_os_and_architecture_def Let_def split: prod.splits if_splits)

lemma find_SomeD: "find P xs = Some x \<Longrightarrow> x \<in> set xs \<and> P x"
  by (auto simp: find_Some_iff)

lemma find_preferred_Some:
  "find_preferred nj os archs items = Some m \<Longrightarrow> m \<in> set items \<and> (\<exists>arch \<in> set archs. manifest_platform_os_arch nj m = Some (os, arch))"
  by (induction archs) (auto split: option.splits simp: find_Some_iff)

lemma os_arch_attestation:
  "manifest_platform_os_arch nj m = Some (os, arch) \<Longrightarrow> is_attestation_manifest nj m \<longleftrightarrow> arch = ''unknown''"
  by (auto simp: manifest_platform_os_arch_def is_attestation_manifest_def manifest_platform_architecture_def split: bind_splits)

section \<open>Properties\<close>

text \<open>
  C23. The command of the container's first process is the entry point followed by the command, each from
  the request if it gives one and from the image otherwise, where the entry point made of one empty
  string counts as none; it is an error exactly when nothing is left to run. The two are merged separately: an entry point
  of the request keeps the command of the image as its arguments, where Docker would drop that
  command.
\<close>

theorem effective_command_argv:
  "effective_command cfg entrypoint_override cmd_override =
     (case merged_argv cfg entrypoint_override cmd_override of [] \<Rightarrow> Inl no_command | exe # args \<Rightarrow> Inr (exe, args)) \<and>
   effective_command \<lparr>ic_entrypoint = image_entrypoint, ic_cmd = Some image_cmd\<rparr> (Some (c # exe)) [] = Inr (c # exe, image_cmd)"
proof (intro conjI)
  have split: "(case xs of [] \<Rightarrow> Inl no_command | exe # args \<Rightarrow> Inr (exe, args)) = (if xs = [] then Inl no_command else Inr (hd xs, tl xs))"
    for xs :: "string list" by (cases xs) auto
  show "effective_command cfg entrypoint_override cmd_override =
     (case merged_argv cfg entrypoint_override cmd_override of [] \<Rightarrow> Inl no_command | exe # args \<Rightarrow> Inr (exe, args))"
    unfolding split
    by (cases entrypoint_override; cases "ic_entrypoint cfg"; cases "ic_cmd cfg")
      (auto simp: effective_command_def merged_argv_def cleared_iff Let_def)
  show "effective_command \<lparr>ic_entrypoint = image_entrypoint, ic_cmd = Some image_cmd\<rparr> (Some (c # exe)) [] = Inr (c # exe, image_cmd)"
    by (simp add: effective_command_def cleared_iff Let_def)
qed

text \<open>
  C24. The manifest chosen from an index is one of its entries and never the record of an attestation. If
  an entry has exactly the wanted system and architecture, the chosen one has them; if the user named the platform,
  nothing else is ever chosen.
\<close>

theorem manifest_selected:
  assumes "select_manifest_digest nj arch bytes platform = Inr digest"
  shows "\<exists>items m. index_manifests nj bytes = Inr items \<and> m \<in> set items \<and> manifest_digest nj m = Inr digest \<and> \<not> is_attestation_manifest nj m \<and>
     (platform \<noteq> None \<or> (\<exists>m' \<in> set items. manifest_platform_os_arch nj m' = Some (target_os_and_architecture arch platform)) \<longrightarrow>
      manifest_platform_os_arch nj m = Some (target_os_and_architecture arch platform))"
proof -
  obtain os target where t: "target_os_and_architecture arch platform = (os, target)" by fastforce
  note known = target_architecture_known [OF t]
  from assms obtain items where items: "index_manifests nj bytes = Inr items" by (auto simp: select_manifest_digest_def rbind_eq_Inr_iff)
  let ?exact = "\<lambda>m. manifest_platform_os_arch nj m = Some (os, target)"
  note sel = assms [unfolded select_manifest_digest_def items rbind_simps Let_def t prod.case]
  show ?thesis
  proof (cases "find ?exact items")
    case (Some m)
    then have "m \<in> set items" "?exact m" by (auto simp: find_Some_iff)
    moreover from this(2) known have "\<not> is_attestation_manifest nj m" by (auto simp: os_arch_attestation)
    moreover from sel Some have "manifest_digest nj m = Inr digest" by simp
    ultimately show ?thesis using items t by auto
  next
    case None
    then have none: "\<not> (\<exists>m \<in> set items. ?exact m)" by (simp add: find_None_iff)
    from sel None have platform: "platform = None" by (auto split: option.splits)
    obtain m where m: "m \<in> set items" "manifest_digest nj m = Inr digest" "\<not> is_attestation_manifest nj m"
    proof (cases "find_preferred nj os [''arm64'', ''amd64''] items")
      case (Some m)
      from find_preferred_Some [OF this] have "m \<in> set items" "\<not> is_attestation_manifest nj m" by (auto simp: os_arch_attestation)
      then show thesis using that sel None platform Some by simp
    next
      case pref: None
      note sel' = sel [unfolded None platform pref option.case]
      show thesis
      proof (cases "find (\<lambda>m. manifest_platform_os nj m = Some os \<and> \<not> is_attestation_manifest nj m) items")
        case (Some m)
        with find_SomeD [OF this] sel' that [of m] show thesis by simp
      next
        case soft: None
        with sel' obtain m where "find (\<lambda>m. \<not> is_attestation_manifest nj m) items = Some m" "manifest_digest nj m = Inr digest"
          by (auto simp: rbind_eq_Inr_iff ok_or_def split: option.splits)
        with find_SomeD [OF this(1)] that [of m] show thesis by simp
      qed
    qed
    then show ?thesis using items none t platform by auto
  qed
qed

text \<open>An index whose first entry is an attestation.\<close>

definition sample_index :: json where
  "sample_index = JObj [(''manifests'', JArr
     [JObj [(''digest'', JStr ''sha256:att''), (''platform'', JObj [(''os'', JStr ''unknown''), (''architecture'', JStr ''unknown'')])],
      JObj [(''digest'', JStr ''sha256:amd''), (''platform'', JObj [(''os'', JStr ''linux''), (''architecture'', JStr ''amd64'')])]])]"

theorem manifest_selected_witness:
  "select_manifest_digest json_api ''x86_64'' (as_bytes (render sample_index)) (Some ''linux/amd64'') = Inr ''sha256:amd'' \<and>
   (\<exists>m. manifest_digest json_api m = Inr ''sha256:amd'' \<and> manifest_platform_os_arch json_api m = Some (''linux'', ''amd64''))"
proof -
  have "utf8_valid (as_bytes (render sample_index))"
    by (simp add: sample_index_def str_simps escape_json_def escape_json_value_def escape_char_def)
  then have parse: "parse_document json_api ''index'' (as_bytes (render sample_index)) = Inr sample_index"
    by (simp add: parse_document_def from_utf8_def ok_or_def json_error_def)
  have target: "target_os_and_architecture ''x86_64'' (Some ''linux/amd64'') = (''linux'', ''amd64'')"
    by code_simp
  have sel: "select_manifest_digest json_api ''x86_64'' (as_bytes (render sample_index)) (Some ''linux/amd64'') = Inr ''sha256:amd''"
    unfolding select_manifest_digest_def index_manifests_def parse
    by (simp add: target sample_index_def required_member_def ok_or_def json_error_def
        manifest_platform_os_arch_def optional_member_def optional_string_def required_string_def manifest_digest_def)
  from manifest_selected [OF this] sel show ?thesis unfolding target by auto
qed

end
