(* ===== verification/Watchdog.thy ===== *)
theory Watchdog
  imports Env_Util "HOL-Library.Sublist"
begin

text \<open>
  \<open>src/watchdog.rs\<close>: the registration of container ids with a reaper process, a shell script
  that reads ids from its standard input and removes the containers when the input ends, which it
  does when the test process dies. The operating system answers: whether a spawn works, and
  whether a write to the pipe of a reaper arrives.
\<close>

section \<open>The reaper\<close>

text \<open>
  \<open>while IFS= read -r id\<close>: one turn for each line that ends with a newline; \<open>read\<close> fails at the
  end of the input, so a last line without a newline is not seen by the body.
\<close>

definition read_lines :: "string \<Rightarrow> string list" where
  "read_lines input = butlast (split_on CHR 0x0A input)"

text \<open>\<open>REAPER_SCRIPT\<close>: the containers \<open>container rm --force\<close> is called for, in order.\<close>

definition reaper_removes :: "string \<Rightarrow> string list" where
  "reaper_removes input =
     (let ids = concat (map (\<lambda>i. if i = [] then [] else i @ [CHR 0x0A]) (read_lines input))
      in read_lines ids)"

section \<open>The process-wide state\<close>

text \<open>
  \<open>REAPER\<close>, \<open>SPAWN_FAILURES\<close> and \<open>EXHAUSTED_WARNED\<close>; a reaper is named by its position among
  those spawned so far. \<open>wd_pipes\<close> is what each of them received, \<open>wd_attempts\<close> counts the
  spawn attempts and \<open>wd_notices\<close> the warnings that registration is disabled.
\<close>

record watchdog =
  wd_reaper :: "nat option"
  wd_failures :: u32
  wd_warned :: bool
  wd_pipes :: "string list"
  wd_attempts :: nat
  wd_notices :: nat

definition watchdog_init :: watchdog where
  "watchdog_init = \<lparr>wd_reaper = None, wd_failures = 0, wd_warned = False, wd_pipes = [], wd_attempts = 0, wd_notices = 0\<rparr>"

datatype spawn_answer = SpawnFailed | NoStdin | Spawned

text \<open>
  \<open>os_spawn n\<close> answers the n-th spawn attempt. \<open>os_write n received\<close> answers a write to the n-th
  reaper that received these bytes before: \<open>None\<close> if the line arrives, \<open>Some k\<close> if the pipe is
  closed after \<open>k\<close> bytes of the id at most. The newline is a write of its own after the id.
\<close>

record os =
  os_spawn :: "nat \<Rightarrow> spawn_answer"
  os_write :: "nat \<Rightarrow> string \<Rightarrow> nat option"

definition MAX_SPAWN_FAILURES :: u32 where
  "MAX_SPAWN_FAILURES = 3"

definition write_id :: "os \<Rightarrow> nat \<Rightarrow> string \<Rightarrow> watchdog \<Rightarrow> bool \<times> watchdog" where
  "write_id sys r i s =
     (let received = wd_pipes s ! r
      in case os_write sys r received of
           None \<Rightarrow> (True, s\<lparr>wd_pipes := (wd_pipes s)[r := received @ i @ [CHR 0x0A]]\<rparr>)
         | Some k \<Rightarrow> (False, s\<lparr>wd_pipes := (wd_pipes s)[r := received @ take k i]\<rparr>))"

definition warn_exhausted_once :: "watchdog \<Rightarrow> watchdog" where
  "warn_exhausted_once s = (if wd_warned s then s else s\<lparr>wd_warned := True, wd_notices := wd_notices s + 1\<rparr>)"

definition count_failure :: "watchdog \<Rightarrow> watchdog" where
  "count_failure s = s\<lparr>wd_failures := wd_failures s + 1\<rparr>"

definition try_spawn_reaper :: "os \<Rightarrow> watchdog \<Rightarrow> watchdog" where
  "try_spawn_reaper sys s =
     (let s1 = s\<lparr>wd_attempts := wd_attempts s + 1\<rparr>
      in case os_spawn sys (wd_attempts s) of
           Spawned \<Rightarrow> s1\<lparr>wd_reaper := Some (length (wd_pipes s)), wd_pipes := wd_pipes s @ [[]]\<rparr>
         | _ \<Rightarrow> (count_failure s1)\<lparr>wd_reaper := None\<rparr>)"

definition warn_if_exhausted :: "watchdog \<Rightarrow> watchdog" where
  "warn_if_exhausted s = (if MAX_SPAWN_FAILURES \<le> wd_failures s then warn_exhausted_once s else s)"

text \<open>The second half of \<open>register\<close>, after a write to the reaper at hand has failed.\<close>

definition register_again :: "os \<Rightarrow> string \<Rightarrow> watchdog \<Rightarrow> watchdog" where
  "register_again sys i s =
     (if MAX_SPAWN_FAILURES \<le> wd_failures s then warn_exhausted_once s
      else let s1 = try_spawn_reaper sys s
           in case wd_reaper s1 of
                None \<Rightarrow> warn_if_exhausted s1
              | Some r \<Rightarrow> case write_id sys r i s1 of
                  (True, s2) \<Rightarrow> s2
                | (False, s2) \<Rightarrow> warn_if_exhausted ((count_failure s2)\<lparr>wd_reaper := None\<rparr>))"

definition register_with :: "os \<Rightarrow> string \<Rightarrow> nat \<Rightarrow> watchdog \<Rightarrow> watchdog" where
  "register_with sys i r s =
     (case write_id sys r i s of
        (True, s1) \<Rightarrow> s1
      | (False, s1) \<Rightarrow> register_again sys i (s1\<lparr>wd_reaper := None\<rparr>))"

definition register :: "os \<Rightarrow> string \<Rightarrow> watchdog \<Rightarrow> watchdog" where
  "register sys i s =
     (if \<not> is_valid_container_id i then s
      else case wd_reaper s of
             Some r \<Rightarrow> register_with sys i r s
           | None \<Rightarrow>
               if MAX_SPAWN_FAILURES \<le> wd_failures s then warn_exhausted_once s
               else let s1 = try_spawn_reaper sys s
                    in case wd_reaper s1 of
                         None \<Rightarrow> warn_if_exhausted s1
                       | Some r \<Rightarrow> register_with sys i r s1)"

section \<open>What the reapers remove\<close>

definition removed_ids :: "watchdog \<Rightarrow> string list" where
  "removed_ids s = concat (map reaper_removes (wd_pipes s))"

lemma split_on_lines:
  "split_on c (a @ b) = butlast (split_on c a) @ (case split_on c b of p # ps \<Rightarrow> (last (split_on c a) @ p) # ps | [] \<Rightarrow> [])"
proof (induction a)
  case (Cons x a)
  have "split_on c a \<noteq> []" by simp
  then obtain p ps where p: "split_on c a = p # ps" by (cases "split_on c a") auto
  show ?case
  proof (cases "x = c")
    case True
    with Cons p show ?thesis by (cases "split_on c b") simp_all
  next
    case False
    with Cons p show ?thesis by (cases ps; cases "split_on c b") auto
  qed
qed (cases "split_on c b"; simp)

lemma split_on_none: "c \<notin> set s \<Longrightarrow> split_on c s = [s]"
  by (induction s) auto

lemma read_lines_simps [simp]:
  "read_lines [] = []"
  "CHR 0x0A \<notin> set i \<Longrightarrow> read_lines (i @ [CHR 0x0A]) = [i]"
  by (simp_all add: read_lines_def split_on_lines split_on_none)

lemma read_lines_append:
  assumes "last (split_on CHR 0x0A a) = []"
  shows "read_lines (a @ b) = read_lines a @ read_lines b"
proof -
  have "split_on CHR 0x0A b \<noteq> []" by simp
  then obtain p ps where "split_on CHR 0x0A b = p # ps" by (cases "split_on CHR 0x0A b") auto
  then show ?thesis using assms by (cases ps) (simp_all add: read_lines_def split_on_lines butlast_append)
qed

lemma last_line_closed: "last (split_on c (a @ [c])) = []"
  by (simp add: split_on_lines)

lemma read_lines_lines:
  "(\<And>i. i \<in> set ls \<Longrightarrow> CHR 0x0A \<notin> set i) \<Longrightarrow>
   read_lines (concat (map (\<lambda>i. if i = [] then [] else i @ [CHR 0x0A]) ls)) = filter (\<lambda>i. i \<noteq> []) ls"
proof (induction ls)
  case (Cons i ls)
  have step: "read_lines ((i @ [CHR 0x0A]) @ b) = i # read_lines b" for b
    using Cons.prems by (subst read_lines_append) (simp_all only: last_line_closed, simp)
  show ?case using Cons step by (cases "i = []") simp_all
qed simp

lemma reaper_removes_lines: "reaper_removes input = filter (\<lambda>i. i \<noteq> []) (read_lines input)"
proof -
  have "CHR 0x0A \<notin> set i" if "i \<in> set (read_lines input)" for i
    using that split_on_no_sep by (metis in_set_butlastD read_lines_def)
  then show ?thesis unfolding reaper_removes_def Let_def by (rule read_lines_lines)
qed

section \<open>Invariant\<close>

text \<open>
  The reaper at hand is the last one spawned and has received whole lines only; the failures stay
  within their bound and cover every spawn attempt that failed; the notice is given once.
\<close>

definition failed_attempts :: "os \<Rightarrow> nat \<Rightarrow> nat" where
  "failed_attempts sys n = length (filter (\<lambda>k. os_spawn sys k \<noteq> Spawned) [0..<n])"

definition wd_inv :: "os \<Rightarrow> watchdog \<Rightarrow> bool" where
  "wd_inv sys s \<longleftrightarrow>
     (case wd_reaper s of None \<Rightarrow> True
      | Some r \<Rightarrow> length (wd_pipes s) = Suc r \<and> last (split_on CHR 0x0A (wd_pipes s ! r)) = [])
     \<and> wd_failures s \<le> MAX_SPAWN_FAILURES
     \<and> failed_attempts sys (wd_attempts s) \<le> unat (wd_failures s)
     \<and> wd_notices s = (if wd_warned s then 1 else 0)"

lemma wd_inv_init: "wd_inv sys watchdog_init"
  by (simp add: wd_inv_def watchdog_init_def failed_attempts_def MAX_SPAWN_FAILURES_def)

lemma valid_id_line: "is_valid_container_id i \<Longrightarrow> CHR 0x0A \<notin> set i \<and> i \<noteq> []"
proof
  assume v: "is_valid_container_id i"
  then obtain a cs where i: "i = a # cs" by (cases i) (auto simp: is_valid_container_id_def split: if_splits)
  with v have "is_ascii_alphanumeric a" "list_all (\<lambda>b. is_ascii_alphanumeric b \<or> b \<in> {CHR ''_'', CHR ''.'', CHR ''-''}) cs"
    by (auto simp: is_valid_container_id_def split: if_splits)
  moreover have "\<not> is_ascii_alphanumeric CHR 0x0A" by code_simp
  ultimately show "CHR 0x0A \<notin> set i" using i by (auto simp: list_all_iff)
  show "i \<noteq> []" using i by simp
qed

lemma removed_ids_last: "removed_ids (s\<lparr>wd_pipes := ps @ [p]\<rparr>) = concat (map reaper_removes ps) @ reaper_removes p"
  by (simp add: removed_ids_def)

text \<open>The outcome of one attempt to register \<open>i\<close>: it is registered exactly if a reaper is at hand afterwards.\<close>

definition outcome :: "os \<Rightarrow> string \<Rightarrow> watchdog \<Rightarrow> watchdog \<Rightarrow> bool" where
  "outcome sys i s s' \<longleftrightarrow> wd_inv sys s' \<and>
     removed_ids s' = removed_ids s @ (case wd_reaper s' of None \<Rightarrow> [] | Some _ \<Rightarrow> [i])"

lemma write_id_cases:
  assumes inv: "wd_inv sys s" and r: "wd_reaper s = Some r" and i: "is_valid_container_id i"
  obtains (arrived) s' where "write_id sys r i s = (True, s')" "wd_reaper s' = Some r" "outcome sys i s s'"
  | (closed) s' where "write_id sys r i s = (False, s')" "wd_inv sys (s'\<lparr>wd_reaper := None\<rparr>)"
      "removed_ids s' = removed_ids s" "wd_failures s' = wd_failures s"
proof -
  obtain ps p where ps: "wd_pipes s = ps @ [p]" "length ps = r"
    using inv r by (cases "wd_pipes s" rule: rev_cases) (auto simp: wd_inv_def)
  then have p: "last (split_on CHR 0x0A p) = []" using inv r by (simp add: wd_inv_def nth_append)
  have arrives: "read_lines (p @ b) = read_lines p @ read_lines b" for b using p by (rule read_lines_append)
  have "CHR 0x0A \<notin> set (take k i)" for k using valid_id_line [OF i] by (meson in_set_takeD)
  then have nl: "read_lines (i @ [CHR 0x0A]) = [i]" "i \<noteq> []" "read_lines (take k i) = []" for k
    using valid_id_line [OF i] by (simp_all add: read_lines_def split_on_none split_on_lines)
  show thesis
  proof (cases "os_write sys r p")
    case None
    let ?s = "s\<lparr>wd_pipes := ps @ [p @ i @ [CHR 0x0A]]\<rparr>"
    have "write_id sys r i s = (True, ?s)" using ps None by (simp add: write_id_def nth_append list_update_append)
    moreover have "last (split_on CHR 0x0A (p @ i @ [CHR 0x0A])) = []"
      using last_line_closed [of _ "p @ i"] by simp
    then have "wd_inv sys ?s" using inv r ps by (simp add: wd_inv_def nth_append)
    moreover have "removed_ids ?s = removed_ids s @ [i]"
      using ps nl by (simp add: removed_ids_def reaper_removes_lines arrives)
    ultimately show ?thesis using arrived [of ?s] r by (simp add: outcome_def)
  next
    case (Some k)
    let ?s = "s\<lparr>wd_pipes := ps @ [p @ take k i]\<rparr>"
    have "write_id sys r i s = (False, ?s)" using ps Some by (simp add: write_id_def nth_append list_update_append)
    moreover have "wd_inv sys (?s\<lparr>wd_reaper := None\<rparr>)" using inv by (simp add: wd_inv_def)
    moreover have "removed_ids ?s = removed_ids s" using ps nl by (simp add: removed_ids_def reaper_removes_lines arrives)
    ultimately show ?thesis using closed [of ?s] by simp
  qed
qed

lemma failed_attempts_Suc:
  "failed_attempts sys (Suc n) = failed_attempts sys n + (if os_spawn sys n = Spawned then 0 else 1)"
  by (simp add: failed_attempts_def)

lemma below_bound: "\<not> MAX_SPAWN_FAILURES \<le> n \<Longrightarrow> n + 1 \<le> MAX_SPAWN_FAILURES \<and> unat (n + 1) = unat n + 1"
  by (simp add: MAX_SPAWN_FAILURES_def not_le word_le_nat_alt word_less_nat_alt unat_word_ariths)

lemma try_spawn_cases:
  assumes inv: "wd_inv sys s" and few: "\<not> MAX_SPAWN_FAILURES \<le> wd_failures s"
  obtains (spawned) r where "wd_reaper (try_spawn_reaper sys s) = Some r" "wd_inv sys (try_spawn_reaper sys s)"
      "removed_ids (try_spawn_reaper sys s) = removed_ids s" "wd_failures (try_spawn_reaper sys s) = wd_failures s"
  | (refused) "wd_reaper (try_spawn_reaper sys s) = None" "wd_inv sys (try_spawn_reaper sys s)"
      "removed_ids (try_spawn_reaper sys s) = removed_ids s"
proof (cases "os_spawn sys (wd_attempts s) = Spawned")
  case True
  then show thesis using inv
    by (intro spawned) (auto simp: try_spawn_reaper_def wd_inv_def failed_attempts_Suc removed_ids_def reaper_removes_lines Let_def)
next
  case False
  then have t: "try_spawn_reaper sys s = (count_failure (s\<lparr>wd_attempts := wd_attempts s + 1\<rparr>))\<lparr>wd_reaper := None\<rparr>"
    by (cases "os_spawn sys (wd_attempts s)") (simp_all add: try_spawn_reaper_def Let_def)
  show thesis using inv False below_bound [OF few]
    by (intro refused) (auto simp: t wd_inv_def count_failure_def failed_attempts_Suc removed_ids_def)
qed

lemma warn_keeps [simp]:
  "wd_inv sys (warn_exhausted_once s) = wd_inv sys s" "wd_inv sys (warn_if_exhausted s) = wd_inv sys s"
  "removed_ids (warn_exhausted_once s) = removed_ids s" "removed_ids (warn_if_exhausted s) = removed_ids s"
  "wd_reaper (warn_exhausted_once s) = wd_reaper s" "wd_reaper (warn_if_exhausted s) = wd_reaper s"
  by (simp_all add: warn_if_exhausted_def warn_exhausted_once_def wd_inv_def removed_ids_def split: option.split)

lemma removed_ids_fields [simp]:
  "removed_ids (s\<lparr>wd_reaper := v\<rparr>) = removed_ids s" "removed_ids (count_failure s) = removed_ids s"
  by (simp_all add: removed_ids_def count_failure_def)

lemma register_again_outcome:
  assumes inv: "wd_inv sys s" and none: "wd_reaper s = None" and i: "is_valid_container_id i"
  shows "outcome sys i s (register_again sys i s)"
proof (cases "MAX_SPAWN_FAILURES \<le> wd_failures s")
  case True
  then show ?thesis using inv none by (simp add: register_again_def outcome_def)
next
  case False
  let ?s = "try_spawn_reaper sys s"
  from inv False show ?thesis
  proof (cases rule: try_spawn_cases)
    case refused
    with False show ?thesis by (simp add: register_again_def outcome_def)
  next
    case (spawned r)
    show ?thesis using spawned(2,1) i
    proof (cases rule: write_id_cases)
      case (arrived s')
      with spawned False show ?thesis by (simp add: register_again_def outcome_def)
    next
      case (closed s')
      have "wd_inv sys ((count_failure s')\<lparr>wd_reaper := None\<rparr>)"
        using closed spawned below_bound [of "wd_failures s'"] False by (auto simp: wd_inv_def count_failure_def)
      with closed spawned False show ?thesis by (simp add: register_again_def outcome_def)
    qed
  qed
qed

lemma register_with_outcome:
  assumes inv: "wd_inv sys s" and r: "wd_reaper s = Some r" and i: "is_valid_container_id i"
  shows "outcome sys i s (register_with sys i r s)"
  using inv r i
proof (cases rule: write_id_cases)
  case (closed s')
  with register_again_outcome [of sys "s'\<lparr>wd_reaper := None\<rparr>" i] i show ?thesis
    by (simp add: register_with_def outcome_def)
qed (simp add: register_with_def)

lemma register_outcome:
  assumes inv: "wd_inv sys s" and i: "is_valid_container_id i"
  shows "outcome sys i s (register sys i s)"
proof (cases "wd_reaper s")
  case (Some r)
  then show ?thesis using register_with_outcome [OF inv Some i] i by (simp add: register_def)
next
  case None
  show ?thesis
  proof (cases "MAX_SPAWN_FAILURES \<le> wd_failures s")
    case True
    then show ?thesis using inv None i by (simp add: register_def outcome_def)
  next
    case False
    from inv False show ?thesis
    proof (cases rule: try_spawn_cases)
      case refused
      with False None i show ?thesis by (simp add: register_def outcome_def Let_def)
    next
      case (spawned r)
      with register_with_outcome [OF spawned(2,1) i] False None i show ?thesis
        by (simp add: register_def outcome_def Let_def)
    qed
  qed
qed

lemma register_invalid [simp]: "\<not> is_valid_container_id i \<Longrightarrow> register sys i s = s"
  by (simp add: register_def)

lemma wd_inv_register: "wd_inv sys s \<Longrightarrow> wd_inv sys (register sys i s)"
  using register_outcome [of sys s i] by (cases "is_valid_container_id i") (auto simp: outcome_def)

lemma wd_inv_registers: "wd_inv sys s \<Longrightarrow> wd_inv sys (fold (register sys) ids s)"
  by (induction ids arbitrary: s) (simp_all add: wd_inv_register)

lemma registers_subseq:
  "wd_inv sys s \<Longrightarrow> \<exists>rs. removed_ids (fold (register sys) ids s) = removed_ids s @ rs \<and> subseq rs (filter is_valid_container_id ids)"
proof (induction ids arbitrary: s)
  case (Cons i ids)
  obtain rs where rs: "removed_ids (fold (register sys) ids (register sys i s)) = removed_ids (register sys i s) @ rs"
    "subseq rs (filter is_valid_container_id ids)"
    using Cons.IH [OF wd_inv_register [OF Cons.prems]] by blast
  show ?case
  proof (cases "is_valid_container_id i")
    case True
    show ?thesis using register_outcome [OF Cons.prems True] rs True
      by (cases "wd_reaper (register sys i s)") (auto simp: outcome_def)
  next
    case False
    with rs show ?thesis by simp
  qed
qed simp

section \<open>Properties\<close>

text \<open>
  C6. Whatever the reapers and their pipes do, the containers the reapers remove when the process dies
  are registered ones, each registration counting once and in order: no part of an id and no invalid
  id is ever removed. A call registers the id exactly if a reaper is at hand when it returns.
\<close>

theorem watchdog_removes_registered:
  fixes sys ids
  defines "s \<equiv> fold (register sys) ids watchdog_init"
  shows "subseq (removed_ids s) (filter is_valid_container_id ids) \<and>
     (is_valid_container_id i \<longrightarrow>
        removed_ids (register sys i s) = removed_ids s @ (if wd_reaper (register sys i s) = None then [] else [i]))"
proof
  obtain rs where "removed_ids s = removed_ids watchdog_init @ rs" "subseq rs (filter is_valid_container_id ids)"
    unfolding s_def using registers_subseq [OF wd_inv_init] by blast
  then show "subseq (removed_ids s) (filter is_valid_container_id ids)" by (simp add: removed_ids_def watchdog_init_def)
  have "wd_inv sys s" unfolding s_def by (rule wd_inv_registers [OF wd_inv_init])
  from register_outcome [OF this]
  show "is_valid_container_id i \<longrightarrow>
        removed_ids (register sys i s) = removed_ids s @ (if wd_reaper (register sys i s) = None then [] else [i])"
    by (auto simp: outcome_def split: option.split)
qed

definition flaky_os :: os where
  "flaky_os = \<lparr>os_spawn = (\<lambda>_. Spawned), os_write = (\<lambda>r received. if r = 0 \<and> received \<noteq> [] then Some 2 else None)\<rparr>"

theorem watchdog_removes_registered_witness:
  "removed_ids (register flaky_os ''c-2'' (fold (register flaky_os) [''c-1'', ''c/x''] watchdog_init)) = [''c-1'', ''c-2'']"
proof -
  let ?s = "fold (register flaky_os) [''c-1'', ''c/x''] watchdog_init"
  have "is_valid_container_id ''c-2''" "removed_ids ?s = [''c-1'']" "wd_reaper (register flaky_os ''c-2'' ?s) = Some 1"
    by code_simp+
  with watchdog_removes_registered [of flaky_os "[''c-1'', ''c/x'']" "''c-2''"] show ?thesis by simp
qed

text \<open>
  However many containers are registered, at most three attempts to spawn a reaper fail, and the
  notice that registration is disabled is given at most once.
\<close>

lemma watchdog_gives_up:
  "failed_attempts sys (wd_attempts (fold (register sys) ids watchdog_init)) \<le> 3 \<and>
   wd_notices (fold (register sys) ids watchdog_init) \<le> 1"
  using wd_inv_registers [OF wd_inv_init, of sys ids]
  by (auto simp: wd_inv_def MAX_SPAWN_FAILURES_def word_le_nat_alt split: if_splits)

text \<open>
  While the limit is not reached, a reaper that has died costs nothing but the ids it held: if a
  new one can be spawned and its pipe works, the id at hand is registered and the count of failures
  stays as it is.
\<close>

lemma watchdog_recovers:
  fixes sys ids
  defines "s \<equiv> fold (register sys) ids watchdog_init"
  assumes i: "is_valid_container_id i" and few: "wd_failures s < MAX_SPAWN_FAILURES"
    and spawns: "os_spawn sys (wd_attempts s) = Spawned" and arrives: "os_write sys (length (wd_pipes s)) [] = None"
  shows "wd_failures (register sys i s) = wd_failures s \<and> removed_ids (register sys i s) = removed_ids s @ [i]"
proof -
  have inv: "wd_inv sys s" unfolding s_def by (rule wd_inv_registers [OF wd_inv_init])
  have fresh: "wd_failures (register_again sys i t) = wd_failures t \<and> wd_reaper (register_again sys i t) \<noteq> None"
    if "wd_failures t < MAX_SPAWN_FAILURES" "wd_attempts t = wd_attempts s" "length (wd_pipes t) = length (wd_pipes s)" for t
    using that spawns arrives
    by (simp add: register_again_def try_spawn_reaper_def write_id_def Let_def not_le [symmetric] nth_append)
  have "wd_failures (register sys i s) = wd_failures s \<and> wd_reaper (register sys i s) \<noteq> None"
  proof (cases "wd_reaper s")
    case None
    then show ?thesis using i few spawns arrives
      by (simp add: register_def register_with_def try_spawn_reaper_def write_id_def Let_def not_le [symmetric])
  next
    case (Some r)
    then show ?thesis using i few fresh
      by (cases "os_write sys r (wd_pipes s ! r)") (simp_all add: register_def register_with_def write_id_def Let_def)
  qed
  with register_outcome [OF inv i] show ?thesis by (auto simp: outcome_def)
qed

end
