(* ===== verification/Log_Access.thy ===== *)
theory Log_Access
  imports Runner Log_Session
begin

text \<open>
  What a user reads through a handle on Linux: the log readers of \<open>stdout\<close> and \<open>stderr\<close> in
  \<open>src/core/containers/async_container.rs\<close>, the complete logs of \<open>stdout_to_vec\<close> and
  \<open>stderr_to_vec\<close>, and the output of a command, \<open>ExecResult\<close> of
  \<open>src/core/containers/async_container/exec.rs\<close>.
\<close>

section \<open>Log readers\<close>

text \<open>
  No log at all, a stream of the session under way from its start, or a fetch of the logs so far that
  begins with the first read.
\<close>

datatype linux_log_reader = EmptyReader | FollowReader nat log_source | OneshotLogs string log_source

definition container_log_reader :: "'c container \<Rightarrow> log_source \<Rightarrow> bool \<Rightarrow> linux_log_reader" where
  "container_log_reader c src follow =
     (case co_log_source c of
        NoLogs \<Rightarrow> EmptyReader
      | DockerStream k \<Rightarrow> if follow then FollowReader k src else OneshotLogs (co_id c) src)"

text \<open>
  \<open>read_to_end\<close> over the reader of a fetch: at the \<open>n\<close>-th poll the channel of the fetch shows \<open>rx n\<close> and
  the vector has room for \<open>room n\<close> bytes. A fetch that never answers is never over.
\<close>

partial_function (option) oneshot_to_end ::
  "(nat \<Rightarrow> oneshot_rx) \<Rightarrow> (nat \<Rightarrow> nat) \<Rightarrow> bool \<Rightarrow> oneshot_state \<Rightarrow> nat \<Rightarrow> u8 list \<Rightarrow> (io_error + u8 list) option" where
  "oneshot_to_end rx room std_out st n acc =
     (case oneshot_poll_read std_out (rx n) (room n) st of
        (OnePending, st') \<Rightarrow> oneshot_to_end rx room std_out st' (Suc n) acc
      | (OneReady (Inl e), _) \<Rightarrow> Some (Inl e)
      | (OneReady (Inr bytes), st') \<Rightarrow>
          if bytes = [] then Some (Inr acc) else oneshot_to_end rx room std_out st' (Suc n) (acc @ bytes))"

definition container_log_to_vec ::
  "(nat \<Rightarrow> oneshot_rx) \<Rightarrow> (nat \<Rightarrow> nat) \<Rightarrow> 'c container \<Rightarrow> log_source \<Rightarrow> u8 list result option" where
  "container_log_to_vec rx room c src =
     (case container_log_reader c src False of
        EmptyReader \<Rightarrow> Some (Inr [])
      | _ \<Rightarrow> map_option (map_err Io) (oneshot_to_end rx room (src \<noteq> SrcStdErr) NotStarted 0 []))"

text \<open>\<open>sessions\<close> gives the state of a session's handle.\<close>

definition container_logs_terminated :: "(nat \<Rightarrow> docker_logs_handle) \<Rightarrow> 'c container \<Rightarrow> bool" where
  "container_logs_terminated sessions c =
     (case co_log_source c of DockerStream k \<Rightarrow> logs_terminated (sessions k) | NoLogs \<Rightarrow> False)"

section \<open>Output of a command\<close>

record cursor =
  cur_bytes :: "u8 list"
  cur_pos :: nat

definition cursor_read :: "nat \<Rightarrow> cursor \<Rightarrow> u8 list \<times> cursor" where
  "cursor_read len c =
     (let bytes = take len (drop (cur_pos c) (cur_bytes c)) in (bytes, c\<lparr>cur_pos := cur_pos c + length bytes\<rparr>))"

definition cursor_to_end :: "cursor \<Rightarrow> u8 list \<times> cursor" where
  "cursor_to_end c = cursor_read (length (cur_bytes c) - cur_pos c) c"

record exec_result =
  ex_exit_code :: "int option"
  ex_stdout :: cursor
  ex_stderr :: cursor

definition exec_result_of :: "docker_exec_result \<Rightarrow> exec_result" where
  "exec_result_of raw =
     \<lparr>ex_exit_code = er_exit_code raw, ex_stdout = \<lparr>cur_bytes = er_stdout raw, cur_pos = 0\<rparr>,
      ex_stderr = \<lparr>cur_bytes = er_stderr raw, cur_pos = 0\<rparr>\<rparr>"

definition exec_stdout_to_vec :: "exec_result \<Rightarrow> u8 list result \<times> exec_result" where
  "exec_stdout_to_vec r = (case cursor_to_end (ex_stdout r) of (bytes, c) \<Rightarrow> (Inr bytes, r\<lparr>ex_stdout := c\<rparr>))"

definition exec_stderr_to_vec :: "exec_result \<Rightarrow> u8 list result \<times> exec_result" where
  "exec_stderr_to_vec r = (case cursor_to_end (ex_stderr r) of (bytes, c) \<Rightarrow> (Inr bytes, r\<lparr>ex_stderr := c\<rparr>))"

section \<open>Facts\<close>

lemma oneshot_done_to_end:
  assumes "\<And>n. 0 < room n" and "pos \<le> length data"
  shows "oneshot_to_end rx room std_out (Done data pos) n acc = Some (Inr (acc @ drop pos data))"
  using assms(2)
proof (induction "length data - pos" arbitrary: pos n acc rule: less_induct)
  case less
  let ?k = "min (length data - pos) (room n)"
  show ?case
  proof (cases "pos = length data")
    case True
    then show ?thesis by (simp add: oneshot_to_end.simps Let_def)
  next
    case False
    then have k: "0 < ?k" "?k \<le> length data - pos" "length data - (pos + ?k) < length data - pos" "pos + ?k \<le> length data"
      using less.prems assms(1) [of n] by (auto simp: min_def)
    have "drop pos data = take ?k (drop pos data) @ drop (pos + ?k) data" by (metis append_take_drop_id drop_drop add.commute)
    moreover have "oneshot_to_end rx room std_out (Done data (pos + ?k)) (Suc n) (acc @ take ?k (drop pos data)) =
        Some (Inr ((acc @ take ?k (drop pos data)) @ drop (pos + ?k) data))"
      by (rule less.hyps [OF k(3,4)])
    ultimately show ?thesis using k by (subst oneshot_to_end.simps) (simp add: Let_def min.commute)
  qed
qed

text \<open>Every byte of the stream is returned once the fetch answers, however the reads are cut; a failure is passed on.\<close>

lemma oneshot_to_end_all:
  assumes "\<And>n. 0 < room n" and "rx k = RxDone answer" and "\<And>n. n < k \<Longrightarrow> rx n = RxPending" and "m \<le> k" and "st \<in> {NotStarted, Running}"
  shows "oneshot_to_end rx room std_out st m [] =
     Some (case answer of Inl e \<Rightarrow> Inl e | Inr (out, err) \<Rightarrow> Inr (if std_out then out else err))"
  using assms(4,5)
proof (induction "k - m" arbitrary: m st)
  case 0
  then have m: "m = k" "oneshot_poll_read std_out (rx m) (room m) st = oneshot_running std_out (RxDone answer) (room k)" using assms(2) by auto
  show ?case
  proof (cases answer)
    case (Inl e)
    with m show ?thesis by (subst oneshot_to_end.simps) simp
  next
    case (Inr oe)
    obtain out err where oe: "oe = (out, err)" by fastforce
    define data where "data = (if std_out then out else err)"
    have "oneshot_to_end rx room std_out st m [] = oneshot_to_end rx room std_out (Done data 0) m []"
      using m Inr oe by (subst (1 2) oneshot_to_end.simps) (simp add: data_def)
    with oneshot_done_to_end [of room 0 data rx std_out m "[]"] assms(1) Inr oe show ?thesis by (simp add: data_def)
  qed
next
  case (Suc d)
  then have "oneshot_poll_read std_out (rx m) (room m) st = (OnePending, Running)" using assms(3) [of m] by auto
  then have "oneshot_to_end rx room std_out st m [] = oneshot_to_end rx room std_out Running (Suc m) []"
    by (subst oneshot_to_end.simps) simp
  with Suc show ?case by simp
qed

lemma log_to_vec_all:
  assumes "\<And>n. 0 < room n" and "rx k = RxDone answer" and "\<And>n. n < k \<Longrightarrow> rx n = RxPending" and "co_log_source c \<noteq> NoLogs"
  shows "container_log_to_vec rx room c src =
     Some (case answer of Inl e \<Rightarrow> Inl (Io e) | Inr (out, err) \<Rightarrow> Inr (if src \<noteq> SrcStdErr then out else err))"
  using oneshot_to_end_all [of room rx k answer 0 NotStarted "src \<noteq> SrcStdErr"] assms
  by (auto simp: container_log_to_vec_def container_log_reader_def split: container_log_source.splits sum.splits)

text \<open>Reads consume: what is read in parts and then to the end is the output, and the next read is empty.\<close>

lemma cursor_reads_once:
  assumes "cursor_read len c = (part, c1)" and "cursor_to_end c1 = (rest, c2)"
  shows "part @ rest = drop (cur_pos c) (cur_bytes c)" and "fst (cursor_to_end c2) = []"
proof -
  have c1: "part = take len (drop (cur_pos c) (cur_bytes c))" "c1 = c\<lparr>cur_pos := cur_pos c + length part\<rparr>"
    using assms(1) by (auto simp: cursor_read_def Let_def)
  have "rest = drop (length part) (drop (cur_pos c) (cur_bytes c))" and "cur_pos c2 = cur_pos c + length part + length rest"
    and "cur_bytes c2 = cur_bytes c"
    using assms(2) c1(2) by (auto simp: cursor_to_end_def cursor_read_def Let_def add.commute)
  moreover have "part = take (length part) (drop (cur_pos c) (cur_bytes c))" using c1(1) by (simp add: min_def)
  ultimately show "part @ rest = drop (cur_pos c) (cur_bytes c)" and "fst (cursor_to_end c2) = []"
    by (metis append_take_drop_id, simp add: cursor_to_end_def cursor_read_def Let_def)
qed

lemma exec_output_once:
  "fst (exec_stdout_to_vec (exec_result_of raw)) = Inr (er_stdout raw)"
  "fst (exec_stderr_to_vec (exec_result_of raw)) = Inr (er_stderr raw)"
  "fst (exec_stdout_to_vec (snd (exec_stdout_to_vec r))) = Inr []"
  "fst (exec_stderr_to_vec (snd (exec_stdout_to_vec r))) = fst (exec_stderr_to_vec r)"
  by (simp_all add: exec_stdout_to_vec_def exec_stderr_to_vec_def exec_result_of_def cursor_read_def cursor_to_end_def Let_def)

end
