(* ===== verification/Net_Addr.thy ===== *)
theory Net_Addr
  imports Docker_Client
begin

text \<open>
  IP addresses as the standard library reads and prints them, which the sources use to read the
  address of a container from the answers of both daemons; and the address of a container on
  Linux, \<open>bridge_ip_address\<close> of \<open>src/core/client/docker_client.rs\<close>.
\<close>

datatype ip_addr = V4 u8 u8 u8 u8 | V6 "u16 list"

section \<open>Reading\<close>

definition to_digit :: "nat \<Rightarrow> char \<Rightarrow> nat option" where
  "to_digit radix c =
     (let n = (of_char c :: nat);
          d = (if 48 \<le> n \<and> n \<le> 57 then n - 48 else if 97 \<le> n \<and> n \<le> 102 then n - 87
               else if 65 \<le> n \<and> n \<le> 70 then n - 55 else 16)
      in if d < radix then Some d else None)"

definition number_value :: "nat \<Rightarrow> string \<Rightarrow> nat" where
  "number_value radix ds = foldl (\<lambda>acc c. acc * radix + the (to_digit radix c)) 0 ds"

text \<open>
  \<open>Parser::read_number\<close> with a limit of digits: the longest run of digits, refused if there are
  none, if there are too many, or if the first of several is a zero that is not allowed.
\<close>

definition read_number_radix :: "nat \<Rightarrow> nat \<Rightarrow> bool \<Rightarrow> nat \<Rightarrow> string \<Rightarrow> (nat \<times> string) option" where
  "read_number_radix radix max_digits allow_zero_prefix bound s =
     (let ds = takeWhile (\<lambda>c. to_digit radix c \<noteq> None) s; v = number_value radix ds
      in if ds = [] \<or> max_digits < length ds \<or> bound < v then None
         else if \<not> allow_zero_prefix \<and> hd ds = CHR ''0'' \<and> 1 < length ds then None
         else Some (v, drop (length ds) s))"

definition read_separator :: "char \<Rightarrow> nat \<Rightarrow> (string \<Rightarrow> ('a \<times> string) option) \<Rightarrow> string \<Rightarrow> ('a \<times> string) option" where
  "read_separator sep i inner s =
     (if 0 < i then case s of c # cs \<Rightarrow> if c = sep then inner cs else None | [] \<Rightarrow> None else inner s)"

definition read_octet :: "nat \<Rightarrow> string \<Rightarrow> (u8 \<times> string) option" where
  "read_octet i s = map_option (\<lambda>(n, r). (of_nat n, r)) (read_separator CHR ''.'' i (read_number_radix 10 3 False 255) s)"

definition read_ipv4_addr :: "string \<Rightarrow> ((u8 \<times> u8 \<times> u8 \<times> u8) \<times> string) option" where
  "read_ipv4_addr s =
     Option.bind (read_octet 0 s) (\<lambda>(a, s).
     Option.bind (read_octet 1 s) (\<lambda>(b, s).
     Option.bind (read_octet 2 s) (\<lambda>(c, s).
     Option.bind (read_octet 3 s) (\<lambda>(d, s). Some ((a, b, c, d), s)))))"

definition be16 :: "u8 \<Rightarrow> u8 \<Rightarrow> u16" where
  "be16 a b = of_nat (unat a * 256 + unat b)"

text \<open>
  \<open>read_groups\<close>: up to \<open>limit\<close> groups between colons, the last two possibly as an IPv4 address;
  \<open>i\<close> groups are read. The result tells whether it ended with an IPv4 address.
\<close>

function read_groups :: "nat \<Rightarrow> nat \<Rightarrow> string \<Rightarrow> u16 list \<times> bool \<times> string" where
  "read_groups limit i s =
     (if limit \<le> i then ([], False, s)
      else case (if i + 1 < limit then read_separator CHR '':'' i read_ipv4_addr s else None) of
             Some ((a, b, c, d), r) \<Rightarrow> ([be16 a b, be16 c d], True, r)
           | None \<Rightarrow>
               (case read_separator CHR '':'' i (read_number_radix 16 4 True 65535) s of
                  None \<Rightarrow> ([], False, s)
                | Some (g, r) \<Rightarrow> (let (gs, v4, r') = read_groups limit (i + 1) r in (of_nat g # gs, v4, r'))))"
  by pat_completeness auto
termination by (relation "measure (\<lambda>(limit, i, _). limit - i)") auto

declare read_groups.simps [simp del]

definition read_ipv6_addr :: "string \<Rightarrow> (u16 list \<times> string) option" where
  "read_ipv6_addr s =
     (let (front, head_ipv4, r) = read_groups 8 0 s
      in if length front = 8 then Some (front, r)
         else if head_ipv4 then None
         else case r of
                c1 # c2 # r2 \<Rightarrow>
                  if c1 = CHR '':'' \<and> c2 = CHR '':'' then
                    let (back, _, r3) = read_groups (8 - (length front + 1)) 0 r2
                    in Some (front @ replicate (8 - length front - length back) 0 @ back, r3)
                  else None
              | _ \<Rightarrow> None)"

definition read_ip_addr :: "string \<Rightarrow> (ip_addr \<times> string) option" where
  "read_ip_addr s =
     (case read_ipv4_addr s of
        Some ((a, b, c, d), r) \<Rightarrow> Some (V4 a b c d, r)
      | None \<Rightarrow> map_option (\<lambda>(gs, r). (V6 gs, r)) (read_ipv6_addr s))"

definition parse_ip_addr :: "string \<Rightarrow> string + ip_addr" where
  "parse_ip_addr s =
     (case read_ip_addr s of Some (a, []) \<Rightarrow> Inr a | _ \<Rightarrow> Inl ''invalid IP address syntax'')"

definition is_ipv6_text :: "string \<Rightarrow> bool" where
  "is_ipv6_text s = (case read_ipv6_addr s of Some (_, []) \<Rightarrow> True | _ \<Rightarrow> False)"

section \<open>Printing\<close>

fun show_hex :: "nat \<Rightarrow> string" where
  "show_hex n = (if n < 16 then [hex_digit n] else show_hex (n div 16) @ [hex_digit (n mod 16)])"

declare show_hex.simps [simp del]

text \<open>The first longest run of zero groups, as its start and length; \<open>cur\<close> is the run that ends before \<open>i\<close>.\<close>

fun longest_zeros :: "nat \<Rightarrow> nat \<times> nat \<Rightarrow> nat \<times> nat \<Rightarrow> u16 list \<Rightarrow> nat \<times> nat" where
  "longest_zeros i cur best [] = best"
| "longest_zeros i cur best (g # gs) =
     (if g = 0 then
        let cur' = (if snd cur = 0 then (i, 1) else (fst cur, snd cur + 1))
        in longest_zeros (i + 1) cur' (if snd best < snd cur' then cur' else best) gs
      else longest_zeros (i + 1) (0, 0) best gs)"

definition show_groups :: "u16 list \<Rightarrow> string" where
  "show_groups gs = join_with '':'' (map (\<lambda>g. show_hex (unat g)) gs)"

definition show_ipv4 :: "u8 \<Rightarrow> u8 \<Rightarrow> u8 \<Rightarrow> u8 \<Rightarrow> string" where
  "show_ipv4 a b c d = show_nat (unat a) @ ''.'' @ show_nat (unat b) @ ''.'' @ show_nat (unat c) @ ''.'' @ show_nat (unat d)"

fun show_ip_addr :: "ip_addr \<Rightarrow> string" where
  "show_ip_addr (V4 a b c d) = show_ipv4 a b c d"
| "show_ip_addr (V6 gs) =
     (if take 6 gs = [0, 0, 0, 0, 0, 0xFFFF] then
        ''::ffff:'' @ show_nat (unat (gs ! 6) div 256) @ ''.'' @ show_nat (unat (gs ! 6) mod 256) @ ''.''
          @ show_nat (unat (gs ! 7) div 256) @ ''.'' @ show_nat (unat (gs ! 7) mod 256)
      else let (start, len) = longest_zeros 0 (0, 0) (0, 0) gs
           in if 1 < len then show_groups (take start gs) @ ''::'' @ show_groups (drop (start + len) gs)
              else show_groups gs)"

section \<open>The address of a container on Linux\<close>

definition docker_bridge_ip_address :: "'v world \<Rightarrow> string \<Rightarrow> ip_addr io" where
  "docker_bridge_ip_address w i =
     (let nj = w_json w
      in io_bind (inspect_json w i) (\<lambda>v. io_lift (
        case non_empty (
          Option.bind (Option.bind (Option.bind (optional_member nj v ''NetworkSettings'')
            (\<lambda>ns. optional_member nj ns ''Networks'')) (\<lambda>n. ok (nj_object nj n)))
            (\<lambda>obj. case obj of (_, network) # _ \<Rightarrow>
                Option.bind (optional_member nj network ''IPAddress'') (\<lambda>x. ok (nj_string nj x))
              | [] \<Rightarrow> None)) of
          None \<Rightarrow> fail ''no network IP address found for container''
        | Some ip_str \<Rightarrow>
            map_err (\<lambda>e. Client (ClientOther (''invalid IP address '' @ [CHR 0x27] @ ip_str @ [CHR 0x27] @ '': '' @ e)))
              (parse_ip_addr ip_str))))"

section \<open>Facts\<close>

lemma to_digit_10: "to_digit 10 c = (if is_ascii_digit c then Some (digit_value c) else None)"
  by (auto simp: to_digit_def is_ascii_digit_iff digit_value_def Let_def)

lemma number_value_show_nat: "number_value 10 (show_nat n) = n"
proof (induction n rule: show_nat.induct)
  case (1 n)
  then show ?case by (subst show_nat.simps) (auto simp: number_value_def to_digit_10)
qed

lemma hd_show_nat_zero: "hd (show_nat n) = CHR ''0'' \<Longrightarrow> n = 0"
proof (induction n rule: show_nat.induct)
  case (1 n)
  show ?case
  proof (cases "n < 10")
    case True
    with 1(2) have "digit_char n = CHR ''0''" by (subst (asm) show_nat.simps) simp
    then have "digit_value (digit_char n) = digit_value CHR ''0''" by simp
    with True show ?thesis by (simp add: digit_value_def)
  next
    case False
    with 1(2) have "hd (show_nat (n div 10)) = CHR ''0''" by (subst (asm) show_nat.simps) simp
    with 1(1) False show ?thesis by simp
  qed
qed

lemma read_radix_show_nat:
  assumes n: "n \<le> 255" and rest: "rest = [] \<or> \<not> is_ascii_digit (hd rest)"
  shows "read_number_radix 10 3 False 255 (show_nat n @ rest) = Some (n, rest)"
proof -
  have "takeWhile (\<lambda>c. to_digit 10 c \<noteq> None) (show_nat n @ rest) = show_nat n"
    using rest show_nat_digits by (cases rest) (auto simp: takeWhile_append to_digit_10)
  moreover have "length (show_nat n) \<le> 3" using n length_show_nat [of n 3] by simp
  moreover have "1 < length (show_nat n) \<Longrightarrow> hd (show_nat n) \<noteq> CHR ''0''"
    using hd_show_nat_zero [of n] show_nat.simps [of 0] by force
  ultimately show ?thesis using n by (auto simp: read_number_radix_def number_value_show_nat Let_def)
qed

lemma read_octet_show:
  "rest = [] \<or> \<not> is_ascii_digit (hd rest) \<Longrightarrow> read_octet 0 (show_nat (unat a) @ rest) = Some (a, rest)"
  "rest = [] \<or> \<not> is_ascii_digit (hd rest) \<Longrightarrow> 0 < i \<Longrightarrow> read_octet i (CHR ''.'' # show_nat (unat a) @ rest) = Some (a, rest)"
  using unsigned_less [of a, where ?'a = nat]
  by (simp_all add: read_octet_def read_separator_def read_radix_show_nat)

text \<open>An IPv4 address in dotted form is read back.\<close>

lemma parse_show_ipv4: "parse_ip_addr (show_ip_addr (V4 a b c d)) = Inr (V4 a b c d)"
proof -
  have dot: "\<not> is_ascii_digit CHR ''.''" by code_simp
  have "read_octet 3 (CHR ''.'' # show_nat (unat d)) = Some (d, [])" using read_octet_show(2) [of "[]" 3 d] by simp
  then have "read_ipv4_addr (show_ipv4 a b c d) = Some ((a, b, c, d), [])"
    by (simp add: read_ipv4_addr_def show_ipv4_def read_octet_show dot)
  then show ?thesis by (simp add: parse_ip_addr_def read_ip_addr_def)
qed

lemma ipv6_text_examples: "is_ipv6_text ''::''" "\<not> is_ipv6_text ''0.0.0.0''"
  by (simp_all add: is_ipv6_text_def read_ipv6_addr_def read_groups.simps read_separator_def read_ipv4_addr_def
      read_octet_def read_number_radix_def to_digit_def number_value_def)

end
