(* ===== verification/Exec_Readers.thy ===== *)
theory Exec_Readers
  imports Net_Addr
begin

unbundle bit_operations_syntax

text \<open>
  The two threads that read the output of a process run in a macOS container, and how \<open>exec\<close> of
  \<open>src/core/client/xpc_client.rs\<close> collects what they read: \<open>read_file_to_vec_cancellable\<close>,
  \<open>join_exec_readers\<close> and \<open>describe_missing\<close>. What \<open>poll\<close>, \<open>read\<close> and the cancel flag show in each turn
  of a reader's loop is an input, as is the order in which the results of the readers arrive.
\<close>

datatype exec_stream = ExecStdout | ExecStderr

type_synonym reader_result = "io_error + u8 list option"

section \<open>A reader\<close>

definition MAX_OUTPUT_SIZE :: nat where
  "MAX_OUTPUT_SIZE = 64 * 1024 * 1024"

definition POLLIN :: u16 where "POLLIN = 0x01"
definition POLLERR :: u16 where "POLLERR = 0x08"
definition POLLHUP :: u16 where "POLLHUP = 0x10"
definition POLLNVAL :: u16 where "POLLNVAL = 0x20"

text \<open>
  One turn: whether the flag is set, what \<open>poll\<close> answers (an error, nothing within 100 ms, or the
  events of the descriptor) and what a \<open>read\<close> would give, the empty list at the end of the output.
\<close>

datatype poll_answer = PollError io_error | PollTimeout | PollEvents u16

record turn =
  turn_cancelled :: bool
  turn_poll :: poll_answer
  turn_read :: "io_error + u8 list"

text \<open>The body of the loop: the result if it returns, otherwise the buffer for the next turn.\<close>

definition exec_read_turn :: "u8 list \<Rightarrow> turn \<Rightarrow> reader_result + u8 list" where
  "exec_read_turn buf t =
     (if turn_cancelled t then Inl (Inr None)
      else case turn_poll t of
             PollError e \<Rightarrow> if io_kind_of e = Interrupted then Inr buf else Inl (Inl e)
           | PollTimeout \<Rightarrow> Inr buf
           | PollEvents revents \<Rightarrow>
               if revents AND (POLLERR OR POLLNVAL) \<noteq> 0 then
                 Inl (Inl (io_other (''poll on exec output pipe failed with revents 0x'' @ show_hex (unat revents))))
               else if revents AND (POLLIN OR POLLHUP) \<noteq> 0 then
                 (case turn_read t of
                    Inr [] \<Rightarrow> Inl (Inr (Some buf))
                  | Inr chunk \<Rightarrow>
                      let buf' = buf @ chunk
                      in if MAX_OUTPUT_SIZE < length buf' then
                           Inl (Inl (IoError OutOfMemory (''output exceeds '' @ show_nat MAX_OUTPUT_SIZE @ '' bytes limit'')))
                         else Inr buf'
                  | Inl e \<Rightarrow> if io_kind_of e = Interrupted then Inr buf else Inl (Inl e))
               else Inr buf)"

text \<open>The loop; \<open>None\<close> if it is still running after the turns.\<close>

fun read_loop :: "u8 list \<Rightarrow> turn list \<Rightarrow> reader_result option" where
  "read_loop buf [] = None"
| "read_loop buf (t # ts) = (case exec_read_turn buf t of Inl r \<Rightarrow> Some r | Inr buf' \<Rightarrow> read_loop buf' ts)"

definition read_file_to_vec_cancellable :: "turn list \<Rightarrow> reader_result option" where
  "read_file_to_vec_cancellable ts = read_loop [] ts"

section \<open>Joining the readers\<close>

datatype exec_reader_msg = StdoutMsg reader_result | StderrMsg reader_result

text \<open>
  The channel as the receiver sees it: the messages before the deadline, those after it, and
  whether both senders are gone before the deadline once the early messages are received.
\<close>

record channel =
  ch_early :: "exec_reader_msg list"
  ch_late :: "exec_reader_msg list"
  ch_gone :: bool

text \<open>\<open>None\<close> where the source calls \<open>unreachable!\<close>.\<close>

fun describe_missing :: "bool \<Rightarrow> bool \<Rightarrow> string option" where
  "describe_missing False False = Some ''stdout/stderr''"
| "describe_missing False True = Some ''stdout''"
| "describe_missing True False = Some ''stderr''"
| "describe_missing True True = None"

type_synonym received = "reader_result option \<times> reader_result option"

fun take_msg :: "exec_reader_msg \<Rightarrow> received \<Rightarrow> received" where
  "take_msg (StdoutMsg r) (out, err) = (Some r, err)"
| "take_msg (StderrMsg r) (out, err) = (out, Some r)"

definition incomplete :: "received \<Rightarrow> bool" where
  "incomplete got \<longleftrightarrow> fst got = None \<or> snd got = None"

text \<open>The loop over the messages until both results are there or the messages end.\<close>

fun recv_loop :: "exec_reader_msg list \<Rightarrow> received \<Rightarrow> received" where
  "recv_loop [] got = got"
| "recv_loop (m # ms) got = (if incomplete got then recv_loop ms (take_msg m got) else got)"

definition missing_of :: "received \<Rightarrow> string option" where
  "missing_of got = describe_missing (fst got \<noteq> None) (snd got \<noteq> None)"

definition stream_bytes :: "string \<Rightarrow> reader_result \<Rightarrow> u8 list result" where
  "stream_bytes name r =
     (case r of
        Inr (Some b) \<Rightarrow> Inr b
      | Inr None \<Rightarrow> fail (''exec '' @ name @ '' reader was cancelled unexpectedly'')
      | Inl e \<Rightarrow> fail (''read '' @ name @ '' failed: '' @ io_text e))"

text \<open>The result, \<open>None\<close> for a panic, and whether the flag was set for the readers.\<close>

definition join_exec_readers :: "channel \<Rightarrow> duration \<Rightarrow> (u8 list \<times> u8 list) result option \<times> bool" where
  "join_exec_readers ch timeout =
     (let got = recv_loop (ch_early ch) (None, None)
      in if incomplete got then
           if ch_gone ch then
             (map_option (\<lambda>missing. fail (''exec reader thread for '' @ missing @ '' terminated without sending result''))
                (missing_of got), False)
           else
             let missing = missing_of got; late = recv_loop (ch_late ch) got
             in (map_option (\<lambda>missing. fail (''read '' @ missing @ '' timed out after '' @ show_nat (timeout div 1000000) @ ''ms''))
                missing, True)
         else
           (Some (rbind (stream_bytes ''stdout'' (the (fst got))) (\<lambda>out.
                  rbind (stream_bytes ''stderr'' (the (snd got))) (\<lambda>err. Inr (out, err)))), False))"

section \<open>Facts\<close>

text \<open>What a reader has read before it comes to the end of the output, or nothing if it does not.\<close>

definition is_readable :: "turn \<Rightarrow> bool" where
  "is_readable t \<longleftrightarrow> (\<exists>ev. turn_poll t = PollEvents ev \<and> ev AND (POLLIN OR POLLHUP) \<noteq> 0)"

definition chunk_of :: "turn \<Rightarrow> u8 list" where
  "chunk_of t = (if is_readable t then case turn_read t of Inr c \<Rightarrow> c | Inl _ \<Rightarrow> [] else [])"

lemma exec_read_turn_end:
  "exec_read_turn buf t = Inl (Inr (Some b)) \<Longrightarrow> is_readable t \<and> turn_read t = Inr [] \<and> b = buf \<and> \<not> turn_cancelled t"
  "exec_read_turn buf t = Inl (Inr None) \<Longrightarrow> turn_cancelled t"
  by (auto simp: exec_read_turn_def is_readable_def Let_def split: if_splits poll_answer.splits sum.splits list.splits)

lemma exec_read_turn_on:
  assumes "exec_read_turn buf t = Inr buf'"
  shows "\<not> turn_cancelled t \<and> buf' = buf @ chunk_of t \<and> (length buf \<le> MAX_OUTPUT_SIZE \<longrightarrow> length buf' \<le> MAX_OUTPUT_SIZE)"
  using assms
  by (auto simp: exec_read_turn_def is_readable_def chunk_of_def Let_def split: if_splits poll_answer.splits sum.splits list.splits)

lemma read_loop_spec:
  assumes "read_loop buf ts = Some (Inr (Some bytes))" and "length buf \<le> MAX_OUTPUT_SIZE"
  shows "\<exists>us t vs. ts = us @ t # vs \<and> is_readable t \<and> turn_read t = Inr [] \<and> bytes = buf @ concat (map chunk_of us)
     \<and> length bytes \<le> MAX_OUTPUT_SIZE \<and> list_all (\<lambda>u. \<not> turn_cancelled u) us"
  using assms
proof (induction ts arbitrary: buf)
  case (Cons t ts)
  show ?case
  proof (cases "exec_read_turn buf t")
    case (Inl r)
    with Cons.prems exec_read_turn_end(1) [of buf t bytes] show ?thesis by (intro exI [of _ "[]"]) simp
  next
    case (Inr buf')
    note on = exec_read_turn_on [OF Inr]
    with Cons.prems Cons.IH [of buf'] Inr obtain us t' vs where
      "ts = us @ t' # vs" "is_readable t'" "turn_read t' = Inr []" "bytes = buf' @ concat (map chunk_of us)"
      "length bytes \<le> MAX_OUTPUT_SIZE" "list_all (\<lambda>u. \<not> turn_cancelled u) us" by auto
    with on show ?thesis by (intro exI [of _ "t # us"]) simp
  qed
qed simp

lemma read_loop_cancelled: "t \<in> set ts \<Longrightarrow> turn_cancelled t \<Longrightarrow> read_loop buf ts \<noteq> None"
proof (induction ts arbitrary: buf)
  case (Cons u us)
  then show ?case by (cases "exec_read_turn buf u") (auto dest: exec_read_turn_on)
qed simp

lemma recv_loop_done [simp]: "\<not> incomplete got \<Longrightarrow> recv_loop ms got = got"
  by (cases ms) simp_all

lemma missing_never_panics: "incomplete got \<Longrightarrow> missing_of got \<noteq> None"
  by (cases "fst got"; cases "snd got") (simp_all add: incomplete_def missing_of_def)

definition one_each :: "exec_reader_msg list \<Rightarrow> bool" where
  "one_each ms \<longleftrightarrow> length (filter (case_exec_reader_msg (\<lambda>_. True) (\<lambda>_. False)) ms) \<le> 1
     \<and> length (filter (case_exec_reader_msg (\<lambda>_. False) (\<lambda>_. True)) ms) \<le> 1"

lemma one_each_cases:
  assumes "one_each ms"
  obtains "ms = []" | r where "ms = [StdoutMsg r]" | r where "ms = [StderrMsg r]"
  | r r' where "ms = [StdoutMsg r, StderrMsg r']" | r r' where "ms = [StderrMsg r', StdoutMsg r]"
proof -
  consider "ms = []" | m where "ms = [m]" | m m' ms' where "ms = m # m' # ms'" by (cases ms; cases "tl ms") auto
  then show thesis
  proof cases
    case 2
    then show ?thesis using that by (cases m) auto
  next
    case 3
    moreover from 3 assms have "ms' = []"
      by (cases m; cases m'; cases ms'; cases "hd ms'") (auto simp: one_each_def)
    ultimately show ?thesis using that assms by (cases m; cases m') (auto simp: one_each_def)
  qed (use that in simp)
qed

section \<open>Properties\<close>

text \<open>
  C16. A reader that returns output returns all of it, every chunk up to the end of the output in order
  and at most 64 MiB; and it returns within the turn in which the cancel flag shows, whatever the
  pipe does.
\<close>

theorem exec_reader_complete_or_cancelled:
  "(read_file_to_vec_cancellable ts = Some (Inr (Some bytes)) \<longrightarrow>
      (\<exists>us t vs. ts = us @ t # vs \<and> turn_read t = Inr [] \<and> bytes = concat (map chunk_of us) \<and> length bytes \<le> 64 * 1024 * 1024)) \<and>
   (list_ex turn_cancelled ts \<longrightarrow> read_file_to_vec_cancellable ts \<noteq> None)"
  using read_loop_spec [of "[]" ts bytes] read_loop_cancelled [of _ ts "[]"]
  unfolding read_file_to_vec_cancellable_def MAX_OUTPUT_SIZE_def list_ex_iff by fastforce

theorem exec_reader_complete_or_cancelled_witness:
  "read_file_to_vec_cancellable
     [\<lparr>turn_cancelled = False, turn_poll = PollTimeout, turn_read = Inr []\<rparr>,
      \<lparr>turn_cancelled = True, turn_poll = PollTimeout, turn_read = Inr []\<rparr>] \<noteq> None"
  using exec_reader_complete_or_cancelled
    [of "[\<lparr>turn_cancelled = False, turn_poll = PollTimeout, turn_read = Inr []\<rparr>,
          \<lparr>turn_cancelled = True, turn_poll = PollTimeout, turn_read = Inr []\<rparr>]"]
  by simp

text \<open>
  C15. Collecting the output never panics; it gives output exactly if both readers delivered theirs in
  full before the deadline, and it cancels the readers exactly if one of them is late.
\<close>

theorem exec_readers_joined:
  assumes "one_each (ch_early ch)"
  shows "fst (join_exec_readers ch timeout) \<noteq> None \<and>
     (fst (join_exec_readers ch timeout) = Some (Inr (out, err)) \<longleftrightarrow>
        set (ch_early ch) = {StdoutMsg (Inr (Some out)), StderrMsg (Inr (Some err))}) \<and>
     (snd (join_exec_readers ch timeout) \<longleftrightarrow> \<not> ch_gone ch \<and> length (ch_early ch) < 2)"
proof -
  have bytes_iff: "stream_bytes n r = Inr b \<longleftrightarrow> r = Inr (Some b)" for n r b
    by (auto simp: stream_bytes_def fail_def split: sum.splits option.splits)
  show ?thesis using assms
  proof (cases rule: one_each_cases)
    case (4 r r')
    then show ?thesis by (simp add: join_exec_readers_def incomplete_def rbind_iffs bytes_iff doubleton_eq_iff)
  next
    case (5 r r')
    then show ?thesis by (simp add: join_exec_readers_def incomplete_def rbind_iffs bytes_iff doubleton_eq_iff conj_commute)
  qed (auto simp: join_exec_readers_def incomplete_def missing_of_def fail_def Let_def set_eq_iff)
qed

theorem exec_readers_joined_witness:
  "fst (join_exec_readers \<lparr>ch_early = [StderrMsg (Inr (Some [])), StdoutMsg (Inr (Some [104, 105]))], ch_late = [], ch_gone = False\<rparr> 5000)
   = Some (Inr ([104, 105], []))"
proof -
  let ?ch = "\<lparr>ch_early = [StderrMsg (Inr (Some [])), StdoutMsg (Inr (Some [104, 105]))], ch_late = [], ch_gone = False\<rparr>"
  have "one_each (ch_early ?ch)" by (simp add: one_each_def)
  from exec_readers_joined [OF this, of 5000 "[104, 105]" "[]"] show ?thesis by auto
qed

end
