(* ===== verification/Xpc_Conn.thy ===== *)
theory Xpc_Conn
  imports Exec_Readers
begin

text \<open>
  \<open>src/xpc/conn.rs\<close> with the functions of \<open>src/xpc_bridge.c\<close> it calls: connections to the services
  of Apple's container daemon, messages with typed entries, and the replies. The daemon answers: it
  is a parameter that maps the events so far and a message to a reply or to none in time.
\<close>

section \<open>Messages and replies\<close>

datatype key_value =
  KvString string
| KvData "u8 list"
| KvBool bool
| KvInt64 int
| KvUInt64 u64
| KvFd int

text \<open>A message as it is sent: the service, the route, the entries in order and the timeout in nanoseconds.\<close>

record message =
  msg_service :: string
  msg_route :: string
  msg_entries :: "(string \<times> key_value) list"
  msg_timeout :: u64

text \<open>
  A value of a reply: a C string (its bytes), data, an integer, an array of descriptors as the
  numbers their duplicates get (-1 if it cannot be duplicated), or anything else. A reply is a
  dictionary or an error object with the description it may have.
\<close>

datatype xpc_value = XString "u8 list" | XData "u8 list" | XInt64 int | XFds "int list" | XOtherValue

datatype raw_reply = XpcDict "(string \<times> xpc_value) list" | XpcErrorObject "u8 list option"

definition ROUTE_KEY :: string where
  "ROUTE_KEY = ''com.apple.container.xpc.route''"

definition ERROR_KEY :: string where
  "ERROR_KEY = ''com.apple.container.xpc.error''"

definition SERVICE_NAME :: string where
  "SERVICE_NAME = ''com.apple.container.apiserver''"

definition IMAGE_SERVICE :: string where
  "IMAGE_SERVICE = ''com.apple.container.core.container-core-images''"

definition DEFAULT_TIMEOUT :: duration where
  "DEFAULT_TIMEOUT = from_secs 60"

definition LONG_TIMEOUT :: duration where
  "LONG_TIMEOUT = from_secs 86400"

fun reply_value :: "raw_reply \<Rightarrow> string \<Rightarrow> xpc_value option" where
  "reply_value (XpcDict kvs) key = map_of kvs key"
| "reply_value (XpcErrorObject _) key = None"

definition reply_data :: "raw_reply \<Rightarrow> string \<Rightarrow> u8 list option" where
  "reply_data r key = (case reply_value r key of Some (XData (b # bs)) \<Rightarrow> Some (b # bs) | _ \<Rightarrow> None)"

definition reply_string :: "raw_reply \<Rightarrow> string \<Rightarrow> string option" where
  "reply_string r key = (case reply_value r key of Some (XString bs) \<Rightarrow> from_utf8 bs | _ \<Rightarrow> None)"

definition try_int64 :: "raw_reply \<Rightarrow> string \<Rightarrow> int result" where
  "try_int64 r key =
     (case reply_value r key of
        Some (XInt64 v) \<Rightarrow> Inr v
      | _ \<Rightarrow> Inl (Client (Xpc (''missing or non-int64 key: '' @ key))))"

definition log_fds :: "raw_reply \<Rightarrow> int list" where
  "log_fds r = (case reply_value r ''logs'' of Some (XFds fds) \<Rightarrow> take 2 fds | _ \<Rightarrow> [])"

fun is_error :: "raw_reply \<Rightarrow> bool" where
  "is_error (XpcErrorObject _) = True"
| "is_error (XpcDict _) = False"

text \<open>The description is copied into a buffer of 1024 bytes, the last of them the terminator.\<close>

fun error_desc :: "raw_reply \<Rightarrow> string option" where
  "error_desc (XpcErrorObject d) = map_option (\<lambda>bs. from_utf8_lossy (take 1023 bs)) d"
| "error_desc (XpcDict _) = None"

text \<open>\<open>to_member(k).and_then(|m| m.required())\<close> and the conversion to a string, without the reason it fails.\<close>

definition member_opt_string :: "'v nojson \<Rightarrow> 'v \<Rightarrow> string \<Rightarrow> string option" where
  "member_opt_string nj v key = Option.bind (ok (required_member nj v key)) (\<lambda>x. ok (nj_string nj x))"

definition or_empty :: "string option \<Rightarrow> string" where
  "or_empty v = (case v of Some s \<Rightarrow> s | None \<Rightarrow> [])"

definition parse_xpc_error_response :: "'v nojson \<Rightarrow> u8 list \<Rightarrow> client_error" where
  "parse_xpc_error_response nj bytes =
     (case from_utf8 bytes of
        None \<Rightarrow> Xpc ''XPC error unparseable (response is not UTF-8)''
      | Some text \<Rightarrow>
          (case nj_parse nj text of
             Inl _ \<Rightarrow> Xpc ''XPC error unparseable''
           | Inr j \<Rightarrow> Xpc (''XPC error '' @ or_empty (member_opt_string nj j ''code'') @ '': ''
                        @ or_empty (member_opt_string nj j ''message''))))"

definition reply_json_error :: "'v nojson \<Rightarrow> raw_reply \<Rightarrow> client_error option" where
  "reply_json_error nj r = map_option (parse_xpc_error_response nj) (reply_data r ERROR_KEY)"

section \<open>Payloads\<close>

text \<open>
  A value that implements \<open>DisplayJson\<close>: what its \<open>fmt\<close> writes, as a tree. \<open>DRaw\<close> is text written as it
  is, \<open>DFloat\<close> a number of type \<open>f64\<close>. The crate \<open>nojson\<close> turns a tree into text.
\<close>

datatype 'f display =
  DNull
| DBool bool
| DInt int
| DFloat 'f
| DStr string
| DArr "'f display list"
| DObj "(string \<times> 'f display) list"
| DRaw string

definition d_strs :: "string list \<Rightarrow> 'f display" where
  "d_strs ss = DArr (map DStr ss)"

definition d_opt :: "('a \<Rightarrow> 'f display) \<Rightarrow> 'a option \<Rightarrow> 'f display" where
  "d_opt f v = (case v of None \<Rightarrow> DNull | Some x \<Rightarrow> f x)"

definition filters_json :: "string list \<Rightarrow> (string \<times> string) list \<Rightarrow> 'f display" where
  "filters_json ids labels = DObj [(''ids'', d_strs ids), (''labels'', DObj (map (\<lambda>(k, v). (k, DStr v)) labels))]"

section \<open>Events and the world\<close>

text \<open>
  What the macOS client and runner do to the outside: a message to a service, a suffix taken from
  the process-wide counter, a pipe opened, the log descriptors of a reply duplicated, a descriptor
  closed, a thread that reads the output of a process, the flag that cancels such threads, a
  temporary file created or removed, the copy of a file out of a container removed, a registration
  with the watchdog, a new generation of the exit code, a thread that waits for it, an exit code
  recorded, a flag that stops log delivery set, a task that delivers a log to the consumers until
  its flag is set, a sleep.
\<close>

datatype xevent =
  XpcSend message
| TakeSuffix
| OpenPipe int int
| DupLogFds "int list"
| CloseFd int
| SpawnReader exec_stream int
| CancelReaders
| CreateTemp string
| RemoveTemp string
| RemoveCopyOut string
| RegisterWatchdog string
| BumpGeneration
| SpawnExitWaiter string u64
| StoreExitCode u64 int
| SetStop nat
| SpawnFdConsumer nat int log_source
| XSleep duration

type_synonym 'a xio = "(xevent, 'a) effect"

datatype pipe_answer = PipeFailed | CloexecFailed int int | PipeFds int int

record ('v, 'f) xworld =
  xw_connect :: "xevent list \<Rightarrow> string \<Rightarrow> bool"
  xw_dictionary :: "xevent list \<Rightarrow> bool"
  xw_fd :: "int \<Rightarrow> bool"
  xw_reply :: "xevent list \<Rightarrow> message \<Rightarrow> raw_reply option"
  xw_json :: "'v nojson"
  xw_raw_text :: "'v \<Rightarrow> string"
  xw_print :: "'f display \<Rightarrow> string"
  xw_debug :: "string \<Rightarrow> string"
  xw_cwd :: "io_error + string"
  xw_read :: "xevent list \<Rightarrow> string \<Rightarrow> io_error + u8 list"
  xw_pipe :: "xevent list \<Rightarrow> pipe_answer"
  xw_channel :: "xevent list \<Rightarrow> channel"
  xw_join_error :: string
  xw_pid :: u32
  xw_nanos :: "xevent list \<Rightarrow> nat"
  xw_env :: "string \<Rightarrow> string option"

text \<open>\<open>j(v)\<close>: the JSON text of a value as bytes.\<close>

definition json_bytes :: "('v, 'f) xworld \<Rightarrow> 'f display \<Rightarrow> u8 list" where
  "json_bytes w v = as_bytes (xw_print w v)"

definition is_suffix_event :: "xevent \<Rightarrow> bool" where
  "is_suffix_event e = (case e of TakeSuffix \<Rightarrow> True | _ \<Rightarrow> False)"

text \<open>\<open>unique_suffix()\<close> with the process-wide counter.\<close>

definition next_suffix :: "('v, 'f) xworld \<Rightarrow> string xio" where
  "next_suffix w h =
     (Inr (fst (unique_suffix (xw_pid w) (xw_nanos w h) (of_nat (length (filter is_suffix_event h))))), h @ [TakeSuffix])"

section \<open>Connections\<close>

definition connect :: "('v, 'f) xworld \<Rightarrow> string \<Rightarrow> string xio" where
  "connect w service h = (if xw_connect w h service then Inr service else Inl (Client XpcConnect), h)"

definition has_nul :: "string \<Rightarrow> bool" where
  "has_nul s \<longleftrightarrow> CHR 0x00 \<in> set s"

definition entry_has_nul :: "key_value \<Rightarrow> bool" where
  "entry_has_nul v = (case v of KvString s \<Rightarrow> has_nul s | _ \<Rightarrow> False)"

definition entry_refused :: "('v, 'f) xworld \<Rightarrow> key_value \<Rightarrow> bool" where
  "entry_refused w v = (case v of KvFd fd \<Rightarrow> \<not> xw_fd w fd | _ \<Rightarrow> False)"

definition reply_result :: "('v, 'f) xworld \<Rightarrow> raw_reply option \<Rightarrow> raw_reply result" where
  "reply_result w raw =
     (case raw of
        None \<Rightarrow> Inl (Client XpcTimeout)
      | Some reply \<Rightarrow>
          if is_error reply then Inl (Client (Xpc (or_empty (error_desc reply))))
          else case reply_json_error (xw_json w) reply of Some e \<Rightarrow> Inl (Client e) | None \<Rightarrow> Inr reply)"

definition send_with_timeout ::
  "('v, 'f) xworld \<Rightarrow> string \<Rightarrow> string \<Rightarrow> (string \<times> key_value) list \<Rightarrow> duration \<Rightarrow> raw_reply xio" where
  "send_with_timeout w conn route entries timeout h =
     (if has_nul route then (Inl (Client (Xpc ''route contains NUL'')), h)
      else if list_ex (\<lambda>(_, v). entry_has_nul v) entries then (Inl (Client (Xpc ''string value contains NUL'')), h)
      else if \<not> xw_dictionary w h then (Inl (Client (Xpc ''failed to create XPC dictionary'')), h)
      else if list_ex (\<lambda>(_, v). entry_refused w v) entries then
        (Inl (Client (Xpc ''failed to set file descriptor in XPC dictionary'')), h)
      else
        let m = \<lparr>msg_service = conn, msg_route = route, msg_entries = entries, msg_timeout = of_nat (min timeout u64_max)\<rparr>
        in (reply_result w (xw_reply w h m), h @ [XpcSend m]))"

definition send :: "('v, 'f) xworld \<Rightarrow> string \<Rightarrow> string \<Rightarrow> (string \<times> key_value) list \<Rightarrow> raw_reply xio" where
  "send w conn route entries = send_with_timeout w conn route entries DEFAULT_TIMEOUT"

text \<open>\<open>call(service, f)\<close>: connect, then run \<open>f\<close> on the connection.\<close>

definition call :: "('v, 'f) xworld \<Rightarrow> string \<Rightarrow> (string \<Rightarrow> 'a xio) \<Rightarrow> 'a xio" where
  "call w service f = io_bind (connect w service) f"

end
