(* ===== verification/Xpc_Client.thy ===== *)
theory Xpc_Client
  imports Xpc_Conn Io_Events Image_Config "HOL-Library.AList"
begin

text \<open>
  \<open>XpcClient\<close> of \<open>src/core/client/xpc_client.rs\<close>: every operation on Apple's container daemon as the
  messages it sends and what it makes of the replies, with the descriptors it opens and closes.
\<close>

section \<open>Timeouts and paths\<close>

definition EXEC_READER_JOIN_TIMEOUT :: duration where
  "EXEC_READER_JOIN_TIMEOUT = from_secs 5"

definition xpc_timeout_for_grace :: "u64 \<Rightarrow> duration" where
  "xpc_timeout_for_grace grace_seconds =
     max DEFAULT_TIMEOUT (min (from_secs (min (unat grace_seconds + 30) u64_max)) LONG_TIMEOUT)"

definition is_absolute :: "string \<Rightarrow> bool" where
  "is_absolute path \<longleftrightarrow> starts_with path ''/''"

definition absolutize_host_path :: "('v, 'f) xworld \<Rightarrow> string \<Rightarrow> string result" where
  "absolutize_host_path w path =
     (if is_absolute path then Inr path
      else rbind (map_err (\<lambda>e. Client (ClientOther (''failed to resolve current directory: '' @ io_text e))) (xw_cwd w))
             (\<lambda>cwd. Inr (path_join cwd path)))"

definition host_path_for_xpc :: "string \<Rightarrow> string result" where
  "host_path_for_xpc path =
     ok_or (Client (ClientOther (''host path is not valid UTF-8: '' @ path_display path))) (from_utf8 (as_bytes path))"

section \<open>Errors of the daemon\<close>

fun is_not_found_error :: "error \<Rightarrow> bool" where
  "is_not_found_error (Client (ContainerNotFound _)) = True"
| "is_not_found_error (Client (Xpc msg)) = starts_with msg ''XPC error notFound''"
| "is_not_found_error _ = False"

definition contains_text :: "string \<Rightarrow> string \<Rightarrow> bool" where
  "contains_text s pat \<longleftrightarrow> list_ex (\<lambda>i. starts_with (drop i s) pat) [0..<length s + 1]"

fun is_volume_already_exists_error :: "error \<Rightarrow> bool" where
  "is_volume_already_exists_error (Client (Xpc msg)) = contains_text msg ''already exists''"
| "is_volume_already_exists_error _ = False"

text \<open>An operation whose failure because the container is gone counts as success.\<close>

definition ignore_not_found :: "raw_reply xio \<Rightarrow> unit xio" where
  "ignore_not_found m =
     io_bind (io_catch m) (\<lambda>r. io_lift
       (case r of Inr _ \<Rightarrow> Inr () | Inl e \<Rightarrow> if is_not_found_error e then Inr () else Inl e))"

section \<open>Stopping, waiting, removing\<close>

definition xpc_wait_blocking :: "('v, 'f) xworld \<Rightarrow> string \<Rightarrow> string \<Rightarrow> duration \<Rightarrow> int xio" where
  "xpc_wait_blocking w i process_id timeout =
     io_bind (connect w SERVICE_NAME) (\<lambda>conn.
     io_bind (send_with_timeout w conn ''containerWait''
       [(''id'', KvString i), (''processIdentifier'', KvString process_id)] timeout) (\<lambda>reply.
     io_lift (try_int64 reply ''exitCode'')))"

text \<open>The signal and the grace period in seconds; \<open>i32::MAX\<close> stands for waiting without end.\<close>

definition stop_signal :: "int option \<Rightarrow> string \<times> u64" where
  "stop_signal timeout_seconds =
     (case timeout_seconds of
        Some t \<Rightarrow> if t = 0 then (''SIGKILL'', 0) else if t < 0 then (''SIGTERM'', 2147483647) else (''SIGTERM'', of_int t)
      | None \<Rightarrow> (''SIGTERM'', 30))"

definition stop_options_json :: "string \<Rightarrow> u64 \<Rightarrow> 'f display" where
  "stop_options_json signal timeout = DObj [(''signal'', DStr signal), (''timeoutInSeconds'', DInt (int (unat timeout)))]"

definition xpc_stop :: "('v, 'f) xworld \<Rightarrow> string \<Rightarrow> int option \<Rightarrow> unit xio" where
  "xpc_stop w i timeout_seconds =
     (let (signal, timeout) = stop_signal timeout_seconds
      in call w SERVICE_NAME (\<lambda>conn. ignore_not_found (send_with_timeout w conn ''containerStop''
           [(''id'', KvString i), (''stopOptions'', KvData (json_bytes w (stop_options_json signal timeout)))]
           (xpc_timeout_for_grace timeout))))"

definition xpc_remove_blocking :: "('v, 'f) xworld \<Rightarrow> string \<Rightarrow> bool \<Rightarrow> unit xio" where
  "xpc_remove_blocking w i force =
     io_bind (connect w SERVICE_NAME) (\<lambda>conn. ignore_not_found
       (send w conn ''containerDelete'' [(''id'', KvString i), (''forceDelete'', KvBool force)]))"

definition xpc_remove :: "('v, 'f) xworld \<Rightarrow> string \<Rightarrow> bool \<Rightarrow> unit xio" where
  "xpc_remove w i force = xpc_remove_blocking w i force"

section \<open>Copies\<close>

definition done_reply :: "raw_reply xio \<Rightarrow> unit xio" where
  "done_reply m = io_bind m (\<lambda>_. io_lift (Inr ()))"

definition copy_in :: "('v, 'f) xworld \<Rightarrow> string \<Rightarrow> string \<Rightarrow> string \<Rightarrow> u32 \<Rightarrow> unit xio" where
  "copy_in w i source destination mode =
     io_bind (io_lift (rbind (absolutize_host_path w source) host_path_for_xpc)) (\<lambda>src.
     call w SERVICE_NAME (\<lambda>conn. done_reply (send w conn ''containerCopyIn''
       [(''id'', KvString i), (''sourcePath'', KvString src), (''destinationPath'', KvString destination),
        (''fileMode'', KvUInt64 (ucast mode)), (''createParents'', KvBool True)])))"

definition copy_out :: "('v, 'f) xworld \<Rightarrow> string \<Rightarrow> string \<Rightarrow> string \<Rightarrow> unit xio" where
  "copy_out w i source destination =
     io_bind (io_lift (host_path_for_xpc source)) (\<lambda>src.
     io_bind (io_lift (rbind (absolutize_host_path w destination) host_path_for_xpc)) (\<lambda>dst.
     call w SERVICE_NAME (\<lambda>conn. done_reply (send w conn ''containerCopyOut''
       [(''id'', KvString i), (''sourcePath'', KvString src), (''destinationPath'', KvString dst),
        (''createParents'', KvBool True)]))))"

section \<open>Log descriptors\<close>

definition close_valid_fds :: "int list \<Rightarrow> unit xio" where
  "close_valid_fds fds = io_for (\<lambda>fd. if 0 \<le> fd then io_event (CloseFd fd) else io_lift (Inr ())) fds"

definition xpc_logs :: "('v, 'f) xworld \<Rightarrow> string \<Rightarrow> (int \<times> int) xio" where
  "xpc_logs w i =
     call w SERVICE_NAME (\<lambda>conn.
     io_bind (send w conn ''containerLogs'' [(''id'', KvString i)]) (\<lambda>reply.
       let fds = log_fds reply
       in io_bind (io_event (DupLogFds fds)) (\<lambda>_.
          if length fds < 2 then
            io_bind (close_valid_fds fds) (\<lambda>_. io_lift (fail ''containerLogs did not return enough fds''))
          else if fds ! 0 < 0 \<or> fds ! 1 < 0 then
            io_bind (close_valid_fds fds) (\<lambda>_. io_lift (fail ''containerLogs returned an invalid fd''))
          else io_lift (Inr (fds ! 0, fds ! 1)))))"

section \<open>Volumes\<close>

definition is_valid_volume_name :: "string \<Rightarrow> bool" where
  "is_valid_volume_name name =
     (if name = [] \<or> 255 < length name then False
      else if \<not> is_ascii_alphanumeric (hd name) then False
      else list_all (\<lambda>c. is_ascii_alphanumeric c \<or> c \<in> {CHR ''_'', CHR ''.'', CHR ''-''}) (tl name))"

record volume_resolution =
  vr_source :: string
  vr_format :: string

definition parse_volume_configuration :: "'v nojson \<Rightarrow> u8 list \<Rightarrow> volume_resolution result" where
  "parse_volume_configuration nj bytes =
     rbind (ok_or (Client (Json (''volume configuration is not UTF-8: '' @ utf8_error_text 0 bytes))) (from_utf8 bytes)) (\<lambda>text.
     rbind (map_err (\<lambda>e. Client (Json e)) (nj_parse nj text)) (\<lambda>v.
     rbind (map_err (\<lambda>e. Client (Json (''volume configuration missing or invalid source: '' @ e))) (required_string nj v ''source'')) (\<lambda>source.
     rbind (map_err (\<lambda>e. Client (Json (''volume configuration missing or invalid format: '' @ e))) (required_string nj v ''format'')) (\<lambda>format.
     Inr \<lparr>vr_source = source, vr_format = format\<rparr>))))"

definition resolve_volume :: "('v, 'f) xworld \<Rightarrow> string \<Rightarrow> volume_resolution xio" where
  "resolve_volume w name =
     (if \<not> is_valid_volume_name name then
        io_lift (fail (''invalid volume name '' @ xw_debug w name
          @ '': must match ^[A-Za-z0-9][A-Za-z0-9_.-]*$ and be at most 255 characters''))
      else call w SERVICE_NAME (\<lambda>conn.
        io_bind (io_catch (send w conn ''volumeCreate'' [(''volumeName'', KvString name), (''volumeDriver'', KvString ''local'')])) (\<lambda>reply.
        io_bind (case reply of
            Inr r \<Rightarrow> io_lift (Inr (reply_data r ''volume''))
          | Inl e \<Rightarrow>
              if is_volume_already_exists_error e then
                io_bind (send w conn ''volumeInspect'' [(''volumeName'', KvString name)]) (\<lambda>r. io_lift (Inr (reply_data r ''volume'')))
              else io_lift (Inl e)) (\<lambda>bytes.
        io_lift (case bytes of
            None \<Rightarrow> fail (''volume '' @ [CHR 0x27] @ name @ [CHR 0x27] @ '' resolution did not return volume'')
          | Some d \<Rightarrow> parse_volume_configuration (xw_json w) d)))))"

fun dedup :: "'a list \<Rightarrow> 'a list" where
  "dedup [] = []"
| "dedup [x] = [x]"
| "dedup (x # y # zs) = (if x = y then dedup (y # zs) else x # dedup (y # zs))"

definition volume_names :: "'c container_request \<Rightarrow> string list" where
  "volume_names req =
     dedup (sort (List.map_filter (\<lambda>m. mnt_source m) (filter (\<lambda>m. mnt_type m = Volume) (mounts req))))"

fun resolve_names :: "('v, 'f) xworld \<Rightarrow> string list \<Rightarrow> (string \<times> volume_resolution) list \<Rightarrow> (string \<times> volume_resolution) list xio" where
  "resolve_names w [] acc = io_lift (Inr acc)"
| "resolve_names w (name # names) acc =
     io_bind (io_map_err (\<lambda>e. Other (''failed to resolve volume '' @ [CHR 0x27] @ name @ [CHR 0x27] @ '': '' @ error_text e))
       (resolve_volume w name)) (\<lambda>r. resolve_names w names (AList.update name r acc))"

definition resolve_volumes :: "('v, 'f) xworld \<Rightarrow> 'c container_request \<Rightarrow> (string \<times> volume_resolution) list xio" where
  "resolve_volumes w req = resolve_names w (volume_names req) []"

section \<open>Container state\<close>

definition parse_container_list :: "'v nojson \<Rightarrow> u8 list \<Rightarrow> string \<Rightarrow> client_error + 'v" where
  "parse_container_list nj bytes i =
     (if bytes = [] then Inl (ContainerNotFound i)
      else rbind (ok_or (Json (''containerList response is not UTF-8: '' @ utf8_error_text 0 bytes)) (from_utf8 bytes))
             (\<lambda>text. map_err Json (nj_parse nj text)))"

definition data_or_empty :: "u8 list option \<Rightarrow> u8 list" where
  "data_or_empty d = (case d of Some b \<Rightarrow> b | None \<Rightarrow> [])"

definition first_container :: "'v nojson \<Rightarrow> u8 list \<Rightarrow> string \<Rightarrow> 'v result" where
  "first_container nj bytes i =
     client_err (rbind (parse_container_list nj bytes i) (\<lambda>v.
       rbind (map_err Json (nj_array nj v)) (\<lambda>arr.
       case arr of item # _ \<Rightarrow> Inr item | [] \<Rightarrow> Inl (ContainerNotFound i))))"

definition with_first_container :: "('v, 'f) xworld \<Rightarrow> string \<Rightarrow> ('v \<Rightarrow> 'a result) \<Rightarrow> 'a xio" where
  "with_first_container w i f =
     io_bind (connect w SERVICE_NAME) (\<lambda>conn.
     io_bind (send w conn ''containerList'' [(''listFilters'', KvData (json_bytes w (filters_json [i] [])))]) (\<lambda>reply.
     io_lift (rbind (first_container (xw_json w) (data_or_empty (reply_data reply ''containers'')) i) f)))"

text \<open>\<open>to_member(k).ok().and_then(|m| m.optional()).and_then(..)\<close> with the conversion to a number of 16 bits.\<close>

definition opt_u16 :: "'v nojson \<Rightarrow> 'v \<Rightarrow> string \<Rightarrow> u16" where
  "opt_u16 nj v key =
     (case Option.bind (optional_member nj v key) (\<lambda>x. ok (nj_i64 nj x)) of
        Some n \<Rightarrow> if 0 \<le> n \<and> n \<le> 65535 then of_int n else 0
      | None \<Rightarrow> 0)"

definition port_of_proto :: "string \<Rightarrow> u16 \<Rightarrow> container_port" where
  "port_of_proto proto p = (if proto = ''udp'' then Udp p else if proto = ''sctp'' then Sctp p else Tcp p)"

definition add_published_port :: "'v nojson \<Rightarrow> 'v \<Rightarrow> ports \<Rightarrow> ports" where
  "add_published_port nj p ports =
     (let proto = (case optional_string nj p ''proto'' of Some s \<Rightarrow> s | None \<Rightarrow> ''tcp'');
          host_port = opt_u16 nj p ''hostPort'';
          container_port = port_of_proto proto (opt_u16 nj p ''containerPort'')
      in if host_port = 0 \<or> as_u16 container_port = 0 then ports
         else if is_ipv6_text (or_empty (optional_string nj p ''hostAddress'')) then add_ipv6_mapping ports container_port host_port
         else add_mapping ports container_port host_port)"

definition parse_published_ports :: "'v nojson \<Rightarrow> 'v \<Rightarrow> ports" where
  "parse_published_ports nj item =
     (case Option.bind (Option.bind (optional_member nj item ''configuration'')
        (\<lambda>c. optional_member nj c ''publishedPorts'')) (\<lambda>p. ok (nj_array nj p)) of
        None \<Rightarrow> ports_default
      | Some arr \<Rightarrow> fold (add_published_port nj) arr ports_default)"

definition xpc_snapshot :: "'v nojson \<Rightarrow> 'v \<Rightarrow> container_snapshot" where
  "xpc_snapshot nj item =
     (let state = (case member_opt_string nj item ''status'' of Some s \<Rightarrow> s | None \<Rightarrow> ''unknown'')
      in \<lparr>snap_running = (state = ''running''), snap_ports = parse_published_ports nj item\<rparr>)"

definition xpc_container_state :: "('v, 'f) xworld \<Rightarrow> string \<Rightarrow> container_snapshot xio" where
  "xpc_container_state w i = with_first_container w i (\<lambda>item. Inr (xpc_snapshot (xw_json w) item))"

definition xpc_ports :: "('v, 'f) xworld \<Rightarrow> string \<Rightarrow> ports xio" where
  "xpc_ports w i = io_bind (xpc_container_state w i) (\<lambda>snapshot. io_lift (Inr (snap_ports snapshot)))"

definition network_address_of :: "'v nojson \<Rightarrow> string \<Rightarrow> string \<Rightarrow> 'v \<Rightarrow> ip_addr result" where
  "network_address_of nj key label item =
     (case Option.bind (optional_member nj item ''networks'') (\<lambda>v. ok (nj_array nj v)) of
        None \<Rightarrow> fail ''no network attachments''
      | Some [] \<Rightarrow> fail ''no network attachments''
      | Some (first # _) \<Rightarrow>
          rbind (map_err (\<lambda>e. Client (Json e)) (required_string nj first key)) (\<lambda>addr_str.
          let addr_only = (case split_once CHR ''/'' addr_str of Some (addr, _) \<Rightarrow> addr | None \<Rightarrow> addr_str)
          in map_err (\<lambda>e. Client (ClientOther (''invalid '' @ label @ '' address: '' @ e))) (parse_ip_addr addr_only)))"

definition network_address :: "('v, 'f) xworld \<Rightarrow> string \<Rightarrow> string \<Rightarrow> string \<Rightarrow> ip_addr xio" where
  "network_address w i key label = with_first_container w i (network_address_of (xw_json w) key label)"

definition xpc_bridge_ip_address :: "('v, 'f) xworld \<Rightarrow> string \<Rightarrow> ip_addr xio" where
  "xpc_bridge_ip_address w i = network_address w i ''ipv4Address'' ''bridge ip''"

definition gateway_ip_address :: "('v, 'f) xworld \<Rightarrow> string \<Rightarrow> ip_addr xio" where
  "gateway_ip_address w i = network_address w i ''ipv4Gateway'' ''gateway ip''"

section \<open>Running a process\<close>

text \<open>The descriptors a scope owns are closed when it is left with an error.\<close>

definition on_error :: "xevent list \<Rightarrow> 'a xio \<Rightarrow> 'a xio" where
  "on_error es m h = (case m h of (Inl e, h') \<Rightarrow> (Inl e, h' @ es) | (Inr x, h') \<Rightarrow> (Inr x, h'))"

definition create_pipe :: "('v, 'f) xworld \<Rightarrow> (int \<times> int) xio" where
  "create_pipe w h =
     (case xw_pipe w h of
        PipeFailed \<Rightarrow> (fail ''failed to create pipe'', h)
      | CloexecFailed r s \<Rightarrow> (fail ''failed to set FD_CLOEXEC on pipe'', h @ [OpenPipe r s, CloseFd r, CloseFd s])
      | PipeFds r s \<Rightarrow> (Inr (r, s), h @ [OpenPipe r s]))"

definition user_id_json :: "u32 \<Rightarrow> u32 \<Rightarrow> 'f display" where
  "user_id_json uid gid =
     DObj [(''id'', DObj [(''uid'', DInt (int (unat uid))), (''gid'', DInt (int (unat gid)))])]"

definition proc_cfg_json :: "string \<Rightarrow> string list \<Rightarrow> string list \<Rightarrow> string \<Rightarrow> 'f display" where
  "proc_cfg_json executable arguments environment working_directory =
     DObj [(''executable'', DStr executable), (''arguments'', d_strs arguments), (''environment'', d_strs environment),
           (''workingDirectory'', DStr working_directory), (''terminal'', DBool False), (''user'', user_id_json 0 0),
           (''supplementalGroups'', DArr []), (''rlimits'', DArr [])]"

record xpc_exec_result =
  xer_exit_code :: "int option"
  xer_stdout :: "u8 list"
  xer_stderr :: "u8 list"

definition join_readers :: "('v, 'f) xworld \<Rightarrow> (u8 list \<times> u8 list) xio" where
  "join_readers w h =
     (case join_exec_readers (xw_channel w h) EXEC_READER_JOIN_TIMEOUT of
        (r, cancel) \<Rightarrow> (case r of Some x \<Rightarrow> x | None \<Rightarrow> Inl (Other (xw_join_error w)), h @ (if cancel then [CancelReaders] else [])))"

definition exec_process :: "('v, 'f) xworld \<Rightarrow> string \<Rightarrow> string \<Rightarrow> string \<Rightarrow> 'f display \<Rightarrow> xpc_exec_result xio" where
  "exec_process w conn i pid cfg =
     io_bind (create_pipe w) (\<lambda>(out_read, out_write).
     io_bind (on_error [CloseFd out_write, CloseFd out_read] (create_pipe w)) (\<lambda>(err_read, err_write).
     io_bind (on_error [CloseFd err_write, CloseFd err_read, CloseFd out_write, CloseFd out_read]
       (send w conn ''containerCreateProcess''
         [(''id'', KvString i), (''processIdentifier'', KvString pid), (''processConfig'', KvData (json_bytes w cfg)),
          (''stdout'', KvFd out_write), (''stderr'', KvFd err_write)])) (\<lambda>_.
     io_bind (io_event (CloseFd out_write)) (\<lambda>_.
     io_bind (io_event (CloseFd err_write)) (\<lambda>_.
     io_bind (on_error [CloseFd err_read, CloseFd out_read]
       (send w conn ''containerStartProcess'' [(''id'', KvString i), (''processIdentifier'', KvString pid)])) (\<lambda>_.
     io_bind (io_event (SpawnReader ExecStdout out_read)) (\<lambda>_.
     io_bind (io_event (SpawnReader ExecStderr err_read)) (\<lambda>_.
     io_bind (on_error [CancelReaders]
       (send_with_timeout w conn ''containerWait'' [(''id'', KvString i), (''processIdentifier'', KvString pid)] LONG_TIMEOUT)) (\<lambda>reply.
     io_bind (join_readers w) (\<lambda>(stdout, stderr).
     io_lift (rbind (try_int64 reply ''exitCode'') (\<lambda>exit_code.
       Inr \<lparr>xer_exit_code = Some exit_code, xer_stdout = stdout, xer_stderr = stderr\<rparr>))))))))))))"

definition xpc_exec :: "('v, 'f) xworld \<Rightarrow> string \<Rightarrow> string list \<Rightarrow> string list \<Rightarrow> xpc_exec_result xio" where
  "xpc_exec w i cmd environment =
     (case cmd of
        [] \<Rightarrow> io_lift (fail ''exec requires at least one argument'')
      | executable # arguments \<Rightarrow>
          io_bind (next_suffix w) (\<lambda>suffix.
          call w SERVICE_NAME (\<lambda>conn. exec_process w conn i (''exec-'' @ suffix)
            (proc_cfg_json executable arguments environment ''/''))))"

section \<open>Images\<close>

definition oci_platform :: "string \<Rightarrow> 'f display" where
  "oci_platform architecture = DObj [(''os'', DStr ''linux''), (''architecture'', DStr architecture)]"

definition oci_platform_json :: "('v, 'f) xworld \<Rightarrow> string \<Rightarrow> u8 list" where
  "oci_platform_json w architecture = json_bytes w (oci_platform architecture)"

definition normalize_image_reference :: "string \<Rightarrow> string" where
  "normalize_image_reference img =
     (case split_once CHR ''/'' img of
        None \<Rightarrow> ''docker.io/library/'' @ img
      | Some (first, _) \<Rightarrow>
          if CHR ''.'' \<in> set first \<or> CHR '':'' \<in> set first \<or> first = ''localhost'' then img
          else ''docker.io/'' @ img)"

definition xpc_pull_image :: "('v, 'f) xworld \<Rightarrow> string \<Rightarrow> string option \<Rightarrow> unit xio" where
  "xpc_pull_image w img platform_arch =
     call w IMAGE_SERVICE (\<lambda>conn. done_reply (send_with_timeout w conn ''imagePull''
       ([(''imageReference'', KvString (normalize_image_reference img)), (''insecureFlag'', KvBool False),
         (''maxConcurrentDownloads'', KvInt64 3)]
        @ (case platform_arch of None \<Rightarrow> [] | Some a \<Rightarrow> [(''ociPlatform'', KvData (oci_platform_json w a))]))
       LONG_TIMEOUT))"

definition get_default_kernel :: "('v, 'f) xworld \<Rightarrow> u8 list xio" where
  "get_default_kernel w =
     call w SERVICE_NAME (\<lambda>conn.
     io_bind (send w conn ''getDefaultKernel'' [(''systemPlatform'', KvData (oci_platform_json w ''arm64''))]) (\<lambda>reply.
     io_lift (ok_or (Client (ClientOther ''no kernel'')) (reply_data reply ''kernel''))))"

fun match_items :: "('v \<Rightarrow> string option) \<Rightarrow> ('v \<Rightarrow> string option) \<Rightarrow> string \<Rightarrow> 'v list \<Rightarrow> client_error + string" where
  "match_items reference desc img [] = Inl (ImageNotFound img)"
| "match_items reference desc img (item # items) =
     (if reference item = Some img \<or> reference item = Some (normalize_image_reference img) then
        (case desc item of
           Some d \<Rightarrow> Inr d
         | None \<Rightarrow> Inl (ClientOther (''image '' @ img @ '': matched reference but descriptor is missing'')))
      else match_items reference desc img items)"

definition match_image_descriptor :: "('v, 'f) xworld \<Rightarrow> u8 list \<Rightarrow> string \<Rightarrow> client_error + string" where
  "match_image_descriptor w bytes img =
     (if bytes = [] then Inl (ImageNotFound img)
      else rbind (ok_or (Json (''imageDescriptions is not UTF-8: '' @ utf8_error_text 0 bytes)) (from_utf8 bytes)) (\<lambda>text.
           rbind (map_err Json (nj_parse (xw_json w) text)) (\<lambda>v.
           rbind (map_err Json (nj_array (xw_json w) v)) (\<lambda>arr.
             match_items (\<lambda>item. member_opt_string (xw_json w) item ''reference'')
               (\<lambda>item. map_option (xw_raw_text w) (ok (required_member (xw_json w) item ''descriptor''))) img arr))))"

definition xpc_resolve_image_descriptor :: "('v, 'f) xworld \<Rightarrow> string \<Rightarrow> string xio" where
  "xpc_resolve_image_descriptor w img =
     call w IMAGE_SERVICE (\<lambda>conn.
     io_bind (send w conn ''imageList'' []) (\<lambda>reply.
     io_lift (client_err (match_image_descriptor w (data_or_empty (reply_data reply ''imageDescriptions'')) img))))"

definition xpc_content_get :: "('v, 'f) xworld \<Rightarrow> string \<Rightarrow> u8 list xio" where
  "xpc_content_get w digest =
     call w IMAGE_SERVICE (\<lambda>conn.
     io_bind (send w conn ''contentGet'' [(''digest'', KvString digest)]) (\<lambda>reply.
     case reply_string reply ''contentPath'' of
       None \<Rightarrow> io_lift (fail ''contentGet did not return contentPath'')
     | Some path \<Rightarrow> (\<lambda>h. (map_err (\<lambda>e. Client (ClientOther (''failed to read content for '' @ digest @ '' at '' @ path @ '': '' @ io_text e)))
                          (xw_read w h path), h))))"

section \<open>Creating and starting a container\<close>

definition create_opts_json :: "bool \<Rightarrow> 'f display" where
  "create_opts_json auto_remove = DObj [(''autoRemove'', DBool auto_remove), (''rootFsOverride'', DNull)]"

definition xpc_create_container :: "('v, 'f) xworld \<Rightarrow> 'f display \<Rightarrow> u8 list \<Rightarrow> unit xio" where
  "xpc_create_container w container_cfg kernel_bytes =
     call w SERVICE_NAME (\<lambda>conn. done_reply (send w conn ''containerCreate''
       [(''containerConfig'', KvData (json_bytes w container_cfg)), (''kernel'', KvData kernel_bytes),
        (''containerOptions'', KvData (json_bytes w (create_opts_json False)))]))"

definition bootstrap_container :: "('v, 'f) xworld \<Rightarrow> string \<Rightarrow> unit xio" where
  "bootstrap_container w i =
     call w SERVICE_NAME (\<lambda>conn. done_reply (send w conn ''containerBootstrap''
       [(''id'', KvString i), (''dynamicEnv'', KvData (as_bytes ''{}''))]))"

definition start_process :: "('v, 'f) xworld \<Rightarrow> string \<Rightarrow> unit xio" where
  "start_process w i =
     call w SERVICE_NAME (\<lambda>conn. done_reply (send w conn ''containerStartProcess''
       [(''id'', KvString i), (''processIdentifier'', KvString i)]))"

section \<open>Kernels\<close>

definition is_file_url_path_byte :: "char \<Rightarrow> bool" where
  "is_file_url_path_byte b \<longleftrightarrow> is_ascii_alphanumeric b \<or> b \<in> set ''!$&()*+,-./:;=@_~'' \<or> b = CHR 0x27"

definition file_url_string :: "string \<Rightarrow> string" where
  "file_url_string path =
     ''file://'' @ concat (map (\<lambda>b. if is_file_url_path_byte b then [b]
       else [CHR ''%'', HEX (of_char b div 16), HEX (of_char b mod 16)]) path)"

definition DEFAULT_KERNEL_ARGS :: "string list" where
  "DEFAULT_KERNEL_ARGS = [''console=hvc0'', ''tsc=reliable'', ''panic=0'']"

definition kernel_cfg_json :: "string \<Rightarrow> 'f display" where
  "kernel_cfg_json kernel_path =
     DObj [(''path'', DStr (file_url_string kernel_path)), (''platform'', oci_platform ''arm64''),
           (''commandLine'', DObj [(''kernelArgs'', d_strs DEFAULT_KERNEL_ARGS), (''initArgs'', d_strs [])])]"

definition kernel_json :: "('v, 'f) xworld \<Rightarrow> string \<Rightarrow> u8 list" where
  "kernel_json w kernel_path = json_bytes w (kernel_cfg_json kernel_path)"

end
