(* ===== verification/Xpc_Facts.thy ===== *)
theory Xpc_Facts
  imports Xpc_Client "HOL-Library.Multiset"
begin

text \<open>
  What the operations of the macOS client keep: the ownership of descriptors and temporary files, tracked through every
  path of an operation; the messages an operation may send; timeouts, image references and file
  URLs.
\<close>

section \<open>Ownership\<close>

text \<open>
  What is to be given back: open descriptors and temporary files. An event acquires some, or gives
  them back: it closes a descriptor, hands it to a thread that closes it, or removes a file.
\<close>

datatype resource = Fd int | Temp string

fun opens :: "xevent \<Rightarrow> resource multiset" where
  "opens (OpenPipe r s) = {#Fd r, Fd s#}"
| "opens (DupLogFds fds) = mset (map Fd (filter (\<lambda>fd. 0 \<le> fd) fds))"
| "opens (CreateTemp p) = {#Temp p#}"
| "opens _ = {#}"

fun releases :: "xevent \<Rightarrow> resource multiset" where
  "releases (CloseFd fd) = {#Fd fd#}"
| "releases (SpawnReader _ fd) = {#Fd fd#}"
| "releases (RemoveTemp p) = {#Temp p#}"
| "releases _ = {#}"

definition opened :: "xevent list \<Rightarrow> resource multiset" where
  "opened es = (\<Sum>e\<leftarrow>es. opens e)"

definition released :: "xevent list \<Rightarrow> resource multiset" where
  "released es = (\<Sum>e\<leftarrow>es. releases e)"

lemma opened_simps [simp]:
  "opened [] = {#}" "opened (e # es) = opens e + opened es" "opened (es @ fs) = opened es + opened fs"
  "released [] = {#}" "released (e # es) = releases e + released es" "released (es @ fs) = released es + released fs"
  by (simp_all add: opened_def released_def)

text \<open>
  An operation entered with \<open>A\<close> owned: if it fails all of them and all it opened
  are released, if it succeeds with \<open>x\<close> those of \<open>B x\<close> are left to the caller.
\<close>

definition owning :: "resource multiset \<Rightarrow> 'a xio \<Rightarrow> ('a \<Rightarrow> resource multiset) \<Rightarrow> bool" where
  "owning A m B \<longleftrightarrow> (\<forall>h. \<exists>es. snd (m h) = h @ es \<and>
     A + opened es = released es + (case fst (m h) of Inl _ \<Rightarrow> {#} | Inr x \<Rightarrow> B x))"

lemma owning_bind:
  assumes "owning A m B" and "\<And>x. owning (B x) (k x) C"
  shows "owning A (io_bind m k) C"
  unfolding owning_def
proof
  fix h
  obtain r h1 where m: "m h = (r, h1)" by fastforce
  obtain es where es: "h1 = h @ es" "A + opened es = released es + (case r of Inl _ \<Rightarrow> {#} | Inr x \<Rightarrow> B x)"
    using assms(1) m unfolding owning_def by (metis fst_conv snd_conv)
  show "\<exists>es. snd (io_bind m k h) = h @ es \<and>
     A + opened es = released es + (case fst (io_bind m k h) of Inl _ \<Rightarrow> {#} | Inr x \<Rightarrow> C x)"
  proof (cases r)
    case (Inl e)
    with m es show ?thesis by (simp add: io_bind_def)
  next
    case (Inr x)
    obtain fs where fs: "snd (k x h1) = h1 @ fs" "B x + opened fs = released fs + (case fst (k x h1) of Inl _ \<Rightarrow> {#} | Inr y \<Rightarrow> C y)"
      using assms(2) unfolding owning_def by blast
    have "A + opened (es @ fs) = released es + (B x + opened fs)" using es(2) Inr by (simp add: ac_simps)
    also have "\<dots> = released (es @ fs) + (case fst (k x h1) of Inl _ \<Rightarrow> {#} | Inr y \<Rightarrow> C y)" using fs(2) by (simp add: ac_simps)
    finally show ?thesis using m es fs Inr by (intro exI [of _ "es @ fs"]) (simp add: io_bind_def)
  qed
qed

lemma owning_event: "A + opens e = releases e + B () \<Longrightarrow> owning A (io_event e) B"
  by (simp add: owning_def io_event_def)

lemma owning_lift: "(\<And>x. r = Inr x \<Longrightarrow> A = B x) \<Longrightarrow> (r = Inr (the (ok r)) \<or> A = {#}) \<Longrightarrow> owning A (io_lift r) B"
  by (cases r) (auto simp: owning_def io_lift_def)

text \<open>Operations that acquire and give back nothing.\<close>

definition holds_nothing :: "xevent \<Rightarrow> bool" where
  "holds_nothing e \<longleftrightarrow> opens e = {#} \<and> releases e = {#}"

lemma quiet_list: "list_all holds_nothing es \<Longrightarrow> opened es = {#} \<and> released es = {#}"
  by (induction es) (auto simp: holds_nothing_def)

lemma owning_quiet: "emits holds_nothing m \<Longrightarrow> owning {#} m (\<lambda>_. {#})"
  unfolding emits_def owning_def using quiet_list by (auto split: sum.split) (metis quiet_list)

lemma owning_on_error:
  assumes m: "owning {#} m B" and "A = released cleanup" "opened cleanup = {#}"
  shows "owning A (on_error cleanup m) (\<lambda>x. A + B x)"
  unfolding owning_def
proof
  fix h
  obtain es where es: "snd (m h) = h @ es" "opened es = released es + (case fst (m h) of Inl _ \<Rightarrow> {#} | Inr x \<Rightarrow> B x)"
    using m unfolding owning_def by (metis add_0)
  then show "\<exists>es. snd (on_error cleanup m h) = h @ es \<and>
     A + opened es = released es + (case fst (on_error cleanup m h) of Inl _ \<Rightarrow> {#} | Inr x \<Rightarrow> A + B x)"
    using assms(2,3) by (cases "m h"; cases "fst (m h)") (auto simp: on_error_def ac_simps)
qed

lemma owning_create_pipe: "owning {#} (create_pipe w) (\<lambda>p. {#Fd (fst p), Fd (snd p)#})"
  by (auto simp: owning_def create_pipe_def fail_def split: pipe_answer.split)

lemma emits_send_with_timeout: "(\<And>m. P (XpcSend m)) \<Longrightarrow> emits P (send_with_timeout w conn route entries timeout)"
  by (auto simp: emits_def send_with_timeout_def Let_def)

lemma emits_send: "(\<And>m. P (XpcSend m)) \<Longrightarrow> emits P (send w conn route entries)"
  unfolding send_def by (rule emits_send_with_timeout)

lemma emits_connect [simp]: "emits P (connect w service)"
  by (simp add: emits_def connect_def)

lemma owning_send:
  "owning {#} (send w conn route entries) (\<lambda>_. {#})"
  "owning {#} (send_with_timeout w conn route entries t) (\<lambda>_. {#})"
  by (simp_all add: owning_quiet emits_send emits_send_with_timeout holds_nothing_def)

lemma owning_send_on_error:
  assumes "A = released cleanup" "opened cleanup = {#}"
  shows "owning A (on_error cleanup (send w conn route entries)) (\<lambda>_. A)"
    and "owning A (on_error cleanup (send_with_timeout w conn route entries t)) (\<lambda>_. A)"
  using owning_on_error [OF owning_send(1) assms] owning_on_error [OF owning_send(2) assms] by simp_all

lemma owning_close: "owning (add_mset (Fd fd) A) (io_event (CloseFd fd)) (\<lambda>_. A)"
  and owning_reader: "owning (add_mset (Fd fd) A) (io_event (SpawnReader s fd)) (\<lambda>_. A)"
  by (simp_all add: owning_event)

lemma owning_join: "owning {#} (join_readers w) (\<lambda>_. {#})"
  by (auto simp: owning_def join_readers_def split: prod.split sum.split)

lemma owning_exec_process: "owning {#} (exec_process w conn i pid cfg) (\<lambda>_. {#})"
proof -
  have pipe2: "owning {#Fd r, Fd s#} (on_error [CloseFd s, CloseFd r] (create_pipe w)) (\<lambda>q. {#Fd r, Fd s#} + {#Fd (fst q), Fd (snd q)#})" for r s
    by (rule owning_on_error [OF owning_create_pipe]) simp_all
  have create: "owning ({#Fd r, Fd s#} + {#Fd r', Fd s'#}) (on_error [CloseFd s', CloseFd r', CloseFd s, CloseFd r] (send w conn route es))
     (\<lambda>_. add_mset (Fd s) (add_mset (Fd s') {#Fd r, Fd r'#}))" for r s r' s' route es
    using owning_send_on_error(1) [of "{#Fd r, Fd s#} + {#Fd r', Fd s'#}" "[CloseFd s', CloseFd r', CloseFd s, CloseFd r]"]
    by (simp add: add_mset_commute)
  have start: "owning {#Fd r, Fd r'#} (on_error [CloseFd r', CloseFd r] (send w conn route es)) (\<lambda>_. {#Fd r, Fd r'#})" for r r' route es
    by (rule owning_send_on_error) simp_all
  have wait: "owning {#} (on_error [CancelReaders] (send_with_timeout w conn route es t)) (\<lambda>_. {#})" for route es t
    by (rule owning_send_on_error) simp_all
  have answer: "owning {#} (io_lift r) (\<lambda>_. {#})" for r :: "xpc_exec_result result" by (rule owning_lift) simp_all
  show ?thesis unfolding exec_process_def case_prod_beta
    by (rule owning_bind [OF owning_create_pipe], rule owning_bind [OF pipe2], rule owning_bind [OF create],
        rule owning_bind [OF owning_close], rule owning_bind [OF owning_close], rule owning_bind [OF start],
        rule owning_bind [OF owning_reader], rule owning_bind [OF owning_reader], rule owning_bind [OF wait],
        rule owning_bind [OF owning_join], rule answer)
qed

lemma owning_exec: "owning {#} (xpc_exec w i cmd env) (\<lambda>_. {#})"
proof (cases cmd)
  case Nil
  then show ?thesis by (simp add: xpc_exec_def) (rule owning_lift, simp_all)
next
  case (Cons exe args)
  have "owning {#} (next_suffix w) (\<lambda>_. {#})" "owning {#} (connect w s) (\<lambda>_. {#})" for s
    by (simp_all add: owning_def next_suffix_def connect_def)
  then show ?thesis unfolding Cons xpc_exec_def call_def list.case
    by (intro owning_bind [where B = "\<lambda>_. {#}"] owning_exec_process)
qed

section \<open>Properties\<close>

text \<open>
  C14. Running a process in a container leaks no descriptor: on every path, whatever the operating
  system and the daemon answer, each end of the pipes it opens is closed or handed to its reader
  thread exactly once.
\<close>

theorem exec_no_fd_leak:
  "\<exists>es. snd (xpc_exec w i cmd env h) = h @ es \<and> opened es = released es"
  using owning_exec [of w i cmd env] unfolding owning_def by (force split: sum.splits)

lemma close_valid_fds_events: "close_valid_fds fds h = (Inr (), h @ map CloseFd (filter (\<lambda>fd. 0 \<le> fd) fds))"
  by (induction fds arbitrary: h) (simp_all add: close_valid_fds_def io_bind_def io_event_def io_lift_def)

text \<open>
  Asking for the log descriptors either gives two valid ones or closes every valid one the daemon
  sent.
\<close>

lemma logs_fds_owned:
  assumes "xw_connect w h SERVICE_NAME" and "send w SERVICE_NAME ''containerLogs'' [(''id'', KvString i)] h = (Inr reply, h1)"
  shows "case xpc_logs w i h of
       (Inr (a, b), h') \<Rightarrow> 0 \<le> a \<and> 0 \<le> b \<and> log_fds reply = [a, b] \<and> h' = h1 @ [DupLogFds [a, b]]
     | (Inl _, h') \<Rightarrow> h' = h1 @ [DupLogFds (log_fds reply)] @ map CloseFd (filter (\<lambda>fd. 0 \<le> fd) (log_fds reply))"
proof -
  let ?fds = "log_fds reply"
  have "length ?fds \<le> 2" by (auto simp: log_fds_def split: option.splits xpc_value.splits)
  then consider "length ?fds < 2" | a b where "?fds = [a, b]" by (cases ?fds; cases "tl ?fds") auto
  then show ?thesis
    by cases (use assms in \<open>simp_all add: xpc_logs_def call_def connect_def io_bind_def io_event_def close_valid_fds_events io_lift_def fail_def Let_def\<close>)
qed

section \<open>Stopping and removing\<close>

lemma timeout_bounds:
  "from_secs 60 \<le> xpc_timeout_for_grace g" "xpc_timeout_for_grace g \<le> from_secs 86400"
  "from_secs (min (unat g + 30) 86400) \<le> xpc_timeout_for_grace g"
proof -
  have "unat g + 30 \<le> u64_max \<or> 86400 \<le> u64_max" by simp
  then show "from_secs 60 \<le> xpc_timeout_for_grace g" "xpc_timeout_for_grace g \<le> from_secs 86400"
    "from_secs (min (unat g + 30) 86400) \<le> xpc_timeout_for_grace g"
    by (auto simp: xpc_timeout_for_grace_def DEFAULT_TIMEOUT_def LONG_TIMEOUT_def from_secs_def min_def max_def)
qed

lemma send_with_timeout_cases:
  obtains (refused) e where "send_with_timeout w conn route entries t h = (Inl (Client (Xpc e)), h)" "\<not> starts_with e ''XPC error notFound''"
  | (sent) m where "send_with_timeout w conn route entries t h = (reply_result w (xw_reply w h m), h @ [XpcSend m])"
      "m = \<lparr>msg_service = conn, msg_route = route, msg_entries = entries, msg_timeout = of_nat (min t u64_max)\<rparr>"
proof -
  consider "has_nul route" | "\<not> has_nul route" "list_ex (\<lambda>(_, v). entry_has_nul v) entries"
    | "\<not> has_nul route" "\<not> list_ex (\<lambda>(_, v). entry_has_nul v) entries" "\<not> xw_dictionary w h"
    | "\<not> has_nul route" "\<not> list_ex (\<lambda>(_, v). entry_has_nul v) entries" "xw_dictionary w h" "list_ex (\<lambda>(_, v). entry_refused w v) entries"
    | "\<not> has_nul route" "\<not> list_ex (\<lambda>(_, v). entry_has_nul v) entries" "xw_dictionary w h" "\<not> list_ex (\<lambda>(_, v). entry_refused w v) entries"
    by blast
  then show thesis
    by cases (rule refused, simp add: send_with_timeout_def, simp add: starts_with_def,
        rule refused, simp add: send_with_timeout_def, simp add: starts_with_def,
        rule refused, simp add: send_with_timeout_def, simp add: starts_with_def,
        rule refused, simp add: send_with_timeout_def, simp add: starts_with_def,
        rule sent, simp add: send_with_timeout_def Let_def, simp)
qed

lemma unat_timeout: "t \<le> u64_max \<Longrightarrow> unat (of_nat (min t u64_max) :: u64) = t"
  by (simp add: unat_of_nat min_absorb1)

lemma ignore_not_found_result:
  "m h = (r, h') \<Longrightarrow> ignore_not_found m h = (case r of Inr _ \<Rightarrow> Inr () | Inl e \<Rightarrow> if is_not_found_error e then Inr () else Inl e, h')"
  by (simp add: ignore_not_found_def io_bind_def io_catch_def io_lift_def)

text \<open>The daemon's way of saying that a container does not exist.\<close>

lemma reply_not_found:
  assumes "reply_data reply ERROR_KEY = Some bytes" and "from_utf8 bytes = Some text" and "nj_parse (xw_json w) text = Inr v"
    and "member_opt_string (xw_json w) v ''code'' = Some ''notFound''"
  shows "\<exists>e. reply_result w (Some reply) = Inl e \<and> is_not_found_error e"
  using assms by (cases reply)
    (auto simp: reply_result_def reply_json_error_def parse_xpc_error_response_def starts_with_def or_empty_def reply_data_def)

text \<open>
  C7. Stopping a container sends at most one message. It waits for the answer at least a minute, at most
  a day, and at least thirty seconds longer than the grace period of the stop, or a day if that is
  less: a stop whose grace period is shorter than a day does not time out before the grace period is over, for
  a longer one the wait is a day. It succeeds exactly if the daemon accepted the message or does not know the container.
\<close>

theorem stop_waits_out_grace:
  assumes "xpc_stop w i t h = (r, h')"
  shows "(h' = h \<and> r \<noteq> Inr ()) \<or>
     (\<exists>m. h' = h @ [XpcSend m] \<and> from_secs 60 \<le> unat (msg_timeout m) \<and> unat (msg_timeout m) \<le> from_secs 86400 \<and>
        from_secs (min (unat (snd (stop_signal t)) + 30) 86400) \<le> unat (msg_timeout m) \<and>
        (r = Inr () \<longleftrightarrow> (case reply_result w (xw_reply w h m) of Inr _ \<Rightarrow> True | Inl e \<Rightarrow> is_not_found_error e)))"
proof (cases "xw_connect w h SERVICE_NAME")
  case True
  obtain signal grace where sg: "stop_signal t = (signal, grace)" by fastforce
  let ?es = "[(''id'', KvString i), (''stopOptions'', KvData (json_bytes w (stop_options_json signal grace)))]"
  have run: "xpc_stop w i t h = ignore_not_found (send_with_timeout w SERVICE_NAME ''containerStop'' ?es (xpc_timeout_for_grace grace)) h"
    using True sg by (simp add: xpc_stop_def call_def connect_def io_bind_def)
  show ?thesis
  proof (cases rule: send_with_timeout_cases [of w SERVICE_NAME "''containerStop''" ?es "xpc_timeout_for_grace grace" h])
    case (refused e)
    with assms run show ?thesis by (auto simp: ignore_not_found_result)
  next
    case (sent m)
    have "xpc_timeout_for_grace grace \<le> u64_max"
      using timeout_bounds(2) [of grace] by (simp add: from_secs_def)
    then have "unat (msg_timeout m) = xpc_timeout_for_grace grace" using sent(2) by (simp only: message.simps unat_timeout)
    with assms run sent(1) timeout_bounds [of grace] sg show ?thesis
      by (intro disjI2 exI [of _ m]; cases "reply_result w (xw_reply w h m)")
        (auto simp: ignore_not_found_result split: if_splits)
  qed
next
  case False
  with assms show ?thesis by (auto simp: xpc_stop_def call_def connect_def io_bind_def split: prod.splits)
qed

text \<open>A daemon that accepts every message.\<close>

definition sample_xworld :: "(json, unit) xworld" where
  "sample_xworld =
     \<lparr>xw_connect = (\<lambda>_ _. True), xw_dictionary = (\<lambda>_. True), xw_fd = (\<lambda>_. True), xw_reply = (\<lambda>_ _. Some (XpcDict [])),
      xw_json = json_api, xw_raw_text = render, xw_print = (\<lambda>_. ''{}''), xw_debug = (\<lambda>s. s), xw_cwd = Inr ''/work'',
      xw_read = (\<lambda>_ _. Inr []), xw_pipe = (\<lambda>_. PipeFds 3 4),
      xw_channel = (\<lambda>_. \<lparr>ch_early = [], ch_late = [], ch_gone = True\<rparr>), xw_join_error = ''panicked'', xw_pid = 7,
      xw_nanos = (\<lambda>_. 0), xw_env = (\<lambda>_. None)\<rparr>"

lemma sample_reply: "reply_result sample_xworld (Some (XpcDict [])) = Inr (XpcDict [])"
  by (simp add: reply_result_def reply_json_error_def reply_data_def)

theorem stop_waits_out_grace_witness:
  "\<exists>m. xpc_stop sample_xworld ''c-1'' (Some 3600) [] = (Inr (), [XpcSend m]) \<and> from_secs 3630 \<le> unat (msg_timeout m)"
proof -
  obtain r h' where run: "xpc_stop sample_xworld ''c-1'' (Some 3600) [] = (r, h')" by fastforce
  have grace: "unat (snd (stop_signal (Some 3600))) = 3600" by (simp add: stop_signal_def)
  have "r = Inr ()" using run sample_reply
    by (auto simp: xpc_stop_def call_def connect_def io_bind_def io_catch_def io_lift_def ignore_not_found_def stop_signal_def
        send_with_timeout_def has_nul_def entry_has_nul_def entry_refused_def sample_xworld_def Let_def)
  with stop_waits_out_grace [OF run] run grace show ?thesis by auto
qed

section \<open>References and URLs\<close>

text \<open>
  Normalising an image reference gives one with a registry host, and normalising again changes
  nothing, so that pulling, resolving and creating with either form name the same image.
\<close>

lemma normalize_image_reference_idempotent:
  "normalize_image_reference (normalize_image_reference img) = normalize_image_reference img \<and>
   (\<exists>host rest. normalize_image_reference img = host @ ''/'' @ rest \<and> CHR ''/'' \<notin> set host \<and>
      (host = ''localhost'' \<or> CHR ''.'' \<in> set host \<or> CHR '':'' \<in> set host))"
proof -
  have fixed: "normalize_image_reference (host @ ''/'' @ rest) = host @ ''/'' @ rest"
    if "CHR ''/'' \<notin> set host" "host = ''localhost'' \<or> CHR ''.'' \<in> set host \<or> CHR '':'' \<in> set host" for host rest
    using that split_once_append [of "CHR ''/''" host rest] by (auto simp: normalize_image_reference_def)
  have "\<exists>host rest. normalize_image_reference img = host @ ''/'' @ rest \<and> CHR ''/'' \<notin> set host \<and>
      (host = ''localhost'' \<or> CHR ''.'' \<in> set host \<or> CHR '':'' \<in> set host)"
  proof (cases "split_once CHR ''/'' img")
    case None
    then show ?thesis by (intro exI [of _ "''docker.io''"] exI [of _ "''library/'' @ img"]) (simp add: normalize_image_reference_def)
  next
    case (Some p)
    then obtain host rest where p: "split_once CHR ''/'' img = Some (host, rest)" by (cases p) auto
    then have img: "img = host @ ''/'' @ rest" "CHR ''/'' \<notin> set host" by (auto dest: split_once_Some)
    show ?thesis
    proof (cases "host = ''localhost'' \<or> CHR ''.'' \<in> set host \<or> CHR '':'' \<in> set host")
      case True
      with img p show ?thesis by (intro exI [of _ host] exI [of _ rest]) (auto simp: normalize_image_reference_def)
    next
      case False
      with p show ?thesis by (intro exI [of _ "''docker.io''"] exI [of _ img]) (auto simp: normalize_image_reference_def)
    qed
  qed
  with fixed show ?thesis by metis
qed

text \<open>The URL of a kernel decodes to its path.\<close>

lemma percent_file_url: "\<not> is_file_url_path_byte CHR ''%''"
  by code_simp

lemma file_url_decodes: "percent_decode (drop 7 (file_url_string path)) = path"
proof -
  have "percent_decode (concat (map (\<lambda>b. if is_file_url_path_byte b then [b]
       else [CHR ''%'', HEX (of_char b div 16), HEX (of_char b mod 16)]) path)) = path"
  proof (induction path)
    case (Cons c s)
    have "char_of (16 * (of_char c div 16) + of_char c mod 16 :: nat) = c" by simp
    with Cons percent_file_url show ?case by (cases "is_file_url_path_byte c") auto
  qed simp
  then show ?thesis by (simp add: file_url_string_def)
qed

section \<open>Published ports\<close>

definition usable_ports :: "ports \<Rightarrow> bool" where
  "usable_ports ps \<longleftrightarrow> ports_wf ps \<and> (\<forall>p hp. map_to_host_port_ipv4 ps p = Some hp \<or> map_to_host_port_ipv6 ps p = Some hp \<longrightarrow>
     as_u16 p \<noteq> 0 \<and> hp \<noteq> 0)"

lemma usable_add:
  "usable_ports ps \<Longrightarrow> as_u16 p \<noteq> 0 \<Longrightarrow> hp \<noteq> 0 \<Longrightarrow> usable_ports (add_mapping ps p hp)"
  "usable_ports ps \<Longrightarrow> as_u16 p \<noteq> 0 \<Longrightarrow> hp \<noteq> 0 \<Longrightarrow> usable_ports (add_ipv6_mapping ps p hp)"
  by (auto simp: usable_ports_def wf_intros split: if_splits)

lemma usable_add_published: "usable_ports ps \<Longrightarrow> usable_ports (add_published_port nj v ps)"
  by (simp add: add_published_port_def usable_add Let_def)

text \<open>The ports of a container never show port 0 on either side, whatever the daemon answers.\<close>

lemma published_ports_usable: "usable_ports (parse_published_ports nj item)"
proof -
  have none: "usable_ports ports_default"
    using ports_wf_default by (auto simp: usable_ports_def ports_default_def map_to_host_port_ipv4_def map_to_host_port_ipv6_def)
  have "usable_ports ps \<Longrightarrow> usable_ports (fold (add_published_port nj) arr ps)" for arr ps
    by (induction arr arbitrary: ps) (simp_all add: usable_add_published)
  with none show ?thesis by (auto simp: parse_published_ports_def split: option.split)
qed

end
