(* ===== verification/Container_Cfg.thy ===== *)
theory Container_Cfg
  imports Xpc_Client
begin

text \<open>
  \<open>src/core/client/container_cfg.rs\<close>: the configuration of a container for Apple's daemon, built from
  a request, and the JSON payload it is sent as. The ports the operating system hands out are an
  input, as are the clock and the operations of \<open>f64\<close> on it.
\<close>

section \<open>Platform and user\<close>

definition normalize_platform :: "string option \<Rightarrow> string \<times> bool \<times> string option" where
  "normalize_platform platform =
     (case platform of
        Some p \<Rightarrow>
          if p = ''linux/amd64'' \<or> p = ''amd64'' then (''amd64'', True, Some ''linux/amd64'')
          else if p = ''linux/arm64'' \<or> p = ''arm64'' then (''arm64'', False, Some ''linux/arm64'')
          else (''arm64'', False, None)
      | None \<Rightarrow> (''arm64'', False, None))"

datatype process_user = UserIds u32 u32 | RawUser string

definition parse_user :: "string option \<Rightarrow> process_user result" where
  "parse_user user =
     (case user of
        None \<Rightarrow> Inr (UserIds 0 0)
      | Some u \<Rightarrow>
          if u = [] then Inr (UserIds 0 0)
          else let (uid_str, gid_str) = (case split_once CHR '':'' u of Some (a, b) \<Rightarrow> (a, Some b) | None \<Rightarrow> (u, None))
               in case parse_u32 uid_str of
                    Inr uid \<Rightarrow>
                      rbind (if gid_str = None \<or> gid_str = Some [] then Inr 0
                             else map_err (\<lambda>_. Other (''invalid gid in user string: '' @ u)) (parse_u32 (the gid_str)))
                        (\<lambda>gid. Inr (UserIds uid gid))
                  | Inl _ \<Rightarrow> Inr (RawUser u))"

section \<open>Ports\<close>

text \<open>\<open>free_port n p\<close> is the operating system's answer to the n-th bind to port 0, for the protocol of \<open>p\<close>.\<close>

type_synonym free_ports = "nat \<Rightarrow> container_port \<Rightarrow> io_error + u16"

definition allocate_free_host_port :: "free_ports \<Rightarrow> nat \<Rightarrow> container_port \<Rightarrow> u16 result" where
  "allocate_free_host_port free_port n port =
     map_err (\<lambda>e. Other (''failed to allocate free host port: '' @ io_text e)) (free_port n port)"

text \<open>The binds done so far and the set of host ports in use.\<close>

type_synonym allocation = "nat \<times> u16 set"

fun allocate_retry :: "nat \<Rightarrow> free_ports \<Rightarrow> container_port \<Rightarrow> allocation \<Rightarrow> (u16 \<times> allocation) result" where
  "allocate_retry 0 free_port port (n, allocated) = Inl (Other ''failed to allocate a unique free host port after retries'')"
| "allocate_retry (Suc k) free_port port (n, allocated) =
     rbind (allocate_free_host_port free_port n port) (\<lambda>candidate.
       if candidate \<in> allocated then allocate_retry k free_port port (n + 1, allocated)
       else Inr (candidate, n + 1, insert candidate allocated))"

definition allocate_unique_free_host_port :: "free_ports \<Rightarrow> container_port \<Rightarrow> allocation \<Rightarrow> (u16 \<times> allocation) result" where
  "allocate_unique_free_host_port free_port port a = allocate_retry 64 free_port port a"

fun is_sctp :: "container_port \<Rightarrow> bool" where
  "is_sctp (Sctp _) = True"
| "is_sctp _ = False"

definition reject_sctp_ports :: "'c container_request \<Rightarrow> unit result" where
  "reject_sctp_ports req =
     (let mapped_has_sctp = (case cr_ports req of Some ps \<Rightarrow> list_ex (\<lambda>p. is_sctp (pm_container_port p)) ps | None \<Rightarrow> False);
          exposed_has_sctp = list_ex is_sctp (img_expose_ports (cr_image req))
      in if mapped_has_sctp \<or> exposed_has_sctp then Inl (Other ''SCTP port publishing is not supported on Apple container'')
         else Inr ())"

record port_cfg =
  pc_host_address :: string
  pc_host_port :: u16
  pc_container_port :: u16
  pc_proto :: string

definition port_cfg_of :: "u16 \<Rightarrow> container_port \<Rightarrow> port_cfg" where
  "port_cfg_of host_port p =
     \<lparr>pc_host_address = ''0.0.0.0'', pc_host_port = host_port, pc_container_port = as_u16 p, pc_proto = port_as_str p\<rparr>"

definition choose_host_port :: "free_ports \<Rightarrow> port_mapping \<Rightarrow> allocation \<Rightarrow> (u16 \<times> allocation) result" where
  "choose_host_port free_port p a =
     (if pm_host_port p = 0 then allocate_unique_free_host_port free_port (pm_container_port p) a
      else if pm_host_port p \<in> snd a then
        Inl (Other (''duplicate host port mapping for container port '' @ port_to_string (pm_container_port p)
          @ '': host port '' @ show_nat (unat (pm_host_port p)) @ '' is already mapped''))
      else Inr (pm_host_port p, fst a, insert (pm_host_port p) (snd a)))"

fun mapped_ports :: "free_ports \<Rightarrow> port_mapping list \<Rightarrow> allocation \<Rightarrow> (port_cfg list \<times> allocation) result" where
  "mapped_ports free_port [] a = Inr ([], a)"
| "mapped_ports free_port (p # ps) a =
     rbind (choose_host_port free_port p a) (\<lambda>(host_port, a1).
     rbind (mapped_ports free_port ps a1) (\<lambda>(cfgs, a2). Inr (port_cfg_of host_port (pm_container_port p) # cfgs, a2)))"

fun exposed_ports :: "free_ports \<Rightarrow> container_port list \<Rightarrow> port_cfg list \<Rightarrow> allocation \<Rightarrow> port_cfg list result" where
  "exposed_ports free_port [] ports a = Inr ports"
| "exposed_ports free_port (e # es) ports a =
     (if list_ex (\<lambda>p. pc_container_port p = as_u16 e \<and> pc_proto p = port_as_str e) ports then exposed_ports free_port es ports a
      else rbind (allocate_unique_free_host_port free_port e a) (\<lambda>(host_port, a1).
           exposed_ports free_port es (ports @ [port_cfg_of host_port e]) a1))"

definition published_ports :: "free_ports \<Rightarrow> 'c container_request \<Rightarrow> port_cfg list result" where
  "published_ports free_port req =
     rbind (mapped_ports free_port (unwrap_or (cr_ports req) []) (0, {})) (\<lambda>(ports, a).
     exposed_ports free_port (img_expose_ports (cr_image req)) ports a)"

section \<open>Mounts\<close>

record mount_cfg =
  mc_source :: string
  mc_destination :: string
  mc_fs_type :: string
  mc_volume_name :: "string option"
  mc_volume_format :: "string option"
  mc_options :: "string list"

fun show_oct :: "nat \<Rightarrow> string" where
  "show_oct n = (if n < 8 then [digit_char n] else show_oct (n div 8) @ [digit_char (n mod 8)])"

declare show_oct.simps [simp del]

text \<open>The octal text of an \<open>i64\<close> is that of its two's complement.\<close>

definition mount_options :: "mount \<Rightarrow> string list" where
  "mount_options m =
     [if mnt_access_mode m = ReadOnly then ''ro'' else ''rw'']
     @ (case (mnt_type m, mnt_tmpfs_options m) of
          (Tmpfs, Some t) \<Rightarrow>
            (case size_bytes t of Some s \<Rightarrow> [''size='' @ show_int s] | None \<Rightarrow> [])
            @ (case tmpfs_mode t of Some v \<Rightarrow> [''mode='' @ show_oct (nat (v mod 2 ^ 64))] | None \<Rightarrow> [])
        | _ \<Rightarrow> [])"

definition mount_cfg_of :: "(string \<times> volume_resolution) list \<Rightarrow> mount \<Rightarrow> mount_cfg" where
  "mount_cfg_of resolutions m =
     (let (source, fs_type, volume_name, volume_format) =
        (case mnt_type m of
           Bind \<Rightarrow> (or_empty (mnt_source m), ''virtiofs'', None, None)
         | Volume \<Rightarrow>
             let name = or_empty (mnt_source m); resolution = map_of resolutions name
             in (or_empty (map_option vr_source resolution), ''volume'', Some name, map_option vr_format resolution)
         | Tmpfs \<Rightarrow> (''tmpfs'', ''tmpfs'', None, None))
      in \<lparr>mc_source = source, mc_destination = or_empty (mnt_target m), mc_fs_type = fs_type,
          mc_volume_name = volume_name, mc_volume_format = volume_format, mc_options = mount_options m\<rparr>)"

section \<open>The configuration\<close>

record 'f container_cfg =
  cf_id :: string
  cf_hostname :: string
  cf_image_ref :: string
  cf_image_descriptor :: string
  cf_mounts :: "mount_cfg list"
  cf_ports :: "port_cfg list"
  cf_init_exe :: string
  cf_init_args :: "string list"
  cf_init_env :: "string list"
  cf_working_directory :: string
  cf_use_init :: bool
  cf_cap_add :: "string list"
  cf_cap_drop :: "string list"
  cf_shm_size :: "u64 option"
  cf_user :: process_user
  cf_network :: string
  cf_architecture :: string
  cf_rosetta :: bool
  cf_ssh :: bool
  cf_read_only :: bool
  cf_labels :: "(string, string) btree_map"
  cf_cpus :: int
  cf_creation_date :: 'f
  cf_terminal :: bool
  cf_masked_paths :: "string list option"
  cf_readonly_paths :: "string list option"

text \<open>The operations of \<open>f64\<close> the sources use: a literal, subtraction, and \<open>Duration::as_secs_f64\<close>.\<close>

record 'f f64_ops =
  f64_literal :: "int \<Rightarrow> 'f"
  f64_minus :: "'f \<Rightarrow> 'f \<Rightarrow> 'f"
  f64_as_secs :: "duration \<Rightarrow> 'f"

definition unix_secs_to_swift_reference_date :: "'f f64_ops \<Rightarrow> 'f \<Rightarrow> 'f" where
  "unix_secs_to_swift_reference_date ops unix_secs = f64_minus ops unix_secs (f64_literal ops 978307200)"

text \<open>\<open>now\<close> is the time since the Unix epoch, \<open>None\<close> if the clock is before it.\<close>

definition creation_date_of :: "'f f64_ops \<Rightarrow> duration option \<Rightarrow> 'f" where
  "creation_date_of ops now =
     (case now of Some d \<Rightarrow> unix_secs_to_swift_reference_date ops (f64_as_secs ops d) | None \<Rightarrow> f64_literal ops 0)"

definition build_config ::
  "free_ports \<Rightarrow> 'f f64_ops \<Rightarrow> duration option \<Rightarrow> 'c container_request \<Rightarrow> string \<Rightarrow> string \<Rightarrow> image_config
   \<Rightarrow> (string \<times> volume_resolution) list \<Rightarrow> 'f container_cfg result" where
  "build_config free_port ops now req i desc_raw ic resolutions =
     rbind (effective_command ic (img_entrypoint (cr_image req)) (request_cmd req)) (\<lambda>(init_exe, arguments).
     rbind (reject_sctp_ports req) (\<lambda>_.
     rbind (case cr_ports req of Some ps \<Rightarrow> reject_duplicate_mapped_ports ps | None \<Rightarrow> Inr ()) (\<lambda>_.
     rbind (published_ports free_port req) (\<lambda>ports.
     let (architecture, rosetta, _) = normalize_platform (cr_platform req)
     in rbind (parse_user (cr_user req)) (\<lambda>user.
     Inr \<lparr>cf_id = i,
          cf_hostname = (case cr_hostname req of Some n \<Rightarrow> n | None \<Rightarrow> unwrap_or (cr_container_name req) i),
          cf_image_ref = normalize_image_reference (descriptor req),
          cf_image_descriptor = desc_raw,
          cf_mounts = map (mount_cfg_of resolutions) (mounts req),
          cf_ports = ports,
          cf_init_exe = init_exe, cf_init_args = arguments, cf_init_env = fold_env (env_vars req) [],
          cf_working_directory = unwrap_or (cr_working_dir req) ''/'',
          cf_use_init = cr_init req,
          cf_cap_add = (if cr_privileged req then [''ALL''] else unwrap_or (cr_cap_add req) []),
          cf_cap_drop = unwrap_or (cr_cap_drop req) [],
          cf_shm_size = cr_shm_size req,
          cf_user = user,
          cf_network = unwrap_or (cr_network req) ''default'',
          cf_architecture = architecture, cf_rosetta = rosetta, cf_ssh = cr_ssh req,
          cf_read_only = cr_readonly_rootfs req, cf_labels = cr_labels req, cf_cpus = 4,
          cf_creation_date = creation_date_of ops now,
          cf_terminal = unwrap_or (cr_open_stdin req) False,
          cf_masked_paths = cr_masked_paths req, cf_readonly_paths = cr_readonly_paths req\<rparr>)))))"

section \<open>The payload\<close>

definition image_cfg_json :: "string \<Rightarrow> string \<Rightarrow> 'f display" where
  "image_cfg_json reference descriptor_raw = DObj [(''reference'', DStr reference), (''descriptor'', DRaw descriptor_raw)]"

definition empty_obj_json :: "'f display" where
  "empty_obj_json = DObj []"

definition keyed_empty_obj_json :: "string \<Rightarrow> 'f display" where
  "keyed_empty_obj_json key = DObj [(key, empty_obj_json)]"

definition vol_type_json :: "string \<Rightarrow> string \<Rightarrow> 'f display" where
  "vol_type_json name format =
     DObj [(''name'', DStr name), (''format'', DStr format), (''cache'', keyed_empty_obj_json ''auto''), (''sync'', keyed_empty_obj_json ''fsync'')]"

datatype fs_type_obj = Virtiofs | VolumeFs string string | TmpfsObj

fun fs_type_json :: "fs_type_obj \<Rightarrow> 'f display" where
  "fs_type_json Virtiofs = DObj [(''virtiofs'', empty_obj_json)]"
| "fs_type_json (VolumeFs name format) = DObj [(''volume'', vol_type_json name format)]"
| "fs_type_json TmpfsObj = DObj [(''tmpfs'', empty_obj_json)]"

definition mount_cfg_json :: "mount_cfg \<Rightarrow> 'f display" where
  "mount_cfg_json m =
     DObj [(''type'', fs_type_json
              (if mc_fs_type m = ''virtiofs'' then Virtiofs
               else if mc_fs_type m = ''volume'' then VolumeFs (or_empty (mc_volume_name m)) (or_empty (mc_volume_format m))
               else TmpfsObj)),
           (''source'', DStr (mc_source m)), (''destination'', DStr (mc_destination m)), (''options'', d_strs (mc_options m))]"

definition port_cfg_json :: "port_cfg \<Rightarrow> 'f display" where
  "port_cfg_json p =
     DObj [(''hostAddress'', DStr (pc_host_address p)), (''hostPort'', DInt (int (unat (pc_host_port p)))),
           (''containerPort'', DInt (int (unat (pc_container_port p)))), (''proto'', DStr (pc_proto p)), (''count'', DInt 1)]"

fun process_user_json :: "process_user \<Rightarrow> 'f display" where
  "process_user_json (UserIds uid gid) =
     DObj [(''id'', DObj [(''uid'', DInt (int (unat uid))), (''gid'', DInt (int (unat gid)))])]"
| "process_user_json (RawUser user_string) = DObj [(''raw'', DObj [(''userString'', DStr user_string)])]"

definition init_process_json :: "'f container_cfg \<Rightarrow> 'f display" where
  "init_process_json c =
     DObj [(''executable'', DStr (cf_init_exe c)), (''arguments'', d_strs (cf_init_args c)), (''environment'', d_strs (cf_init_env c)),
           (''workingDirectory'', DStr (cf_working_directory c)), (''terminal'', DBool (cf_terminal c)),
           (''user'', process_user_json (cf_user c)), (''supplementalGroups'', DArr []), (''rlimits'', DArr [])]"

definition container_platform_json :: "string \<Rightarrow> 'f display" where
  "container_platform_json architecture =
     DObj [(''os'', DStr ''linux''), (''architecture'', DStr architecture), (''variant'', DNull)]"

definition resources_json :: "int \<Rightarrow> 'f display" where
  "resources_json cpus =
     DObj [(''cpus'', DInt cpus), (''memoryInBytes'', DInt (1024 * 1024 * 1024)), (''storage'', DNull), (''cpuOverhead'', DInt 1)]"

definition network_cfg_json :: "string \<Rightarrow> string \<Rightarrow> 'f display" where
  "network_cfg_json network hostname =
     DObj [(''network'', DStr network), (''options'', DObj [(''hostname'', DStr hostname), (''mtu'', DInt 1280)])]"

definition dns_cfg_json :: "string list \<Rightarrow> string list \<Rightarrow> string list \<Rightarrow> 'f display" where
  "dns_cfg_json nameservers options search_domains =
     DObj [(''nameservers'', d_strs nameservers), (''options'', d_strs options), (''searchDomains'', d_strs search_domains)]"

definition container_cfg_json :: "'f container_cfg \<Rightarrow> 'f display" where
  "container_cfg_json c =
     DObj [(''id'', DStr (cf_id c)),
           (''image'', image_cfg_json (cf_image_ref c) (cf_image_descriptor c)),
           (''mounts'', DArr (map mount_cfg_json (cf_mounts c))),
           (''publishedPorts'', DArr (map port_cfg_json (cf_ports c))),
           (''publishedSockets'', DArr []),
           (''labels'', DObj (map (\<lambda>(k, v). (k, DStr v)) (cf_labels c))),
           (''sysctls'', DObj []),
           (''networks'', DArr [network_cfg_json (cf_network c) (cf_hostname c)]),
           (''dns'', dns_cfg_json [] [] []),
           (''rosetta'', DBool (cf_rosetta c)),
           (''initProcess'', init_process_json c),
           (''platform'', container_platform_json (cf_architecture c)),
           (''resources'', resources_json (cf_cpus c)),
           (''runtimeHandler'', DStr ''container-runtime-linux''),
           (''virtualization'', DBool False),
           (''ssh'', DBool (cf_ssh c)),
           (''readOnly'', DBool (cf_read_only c)),
           (''useInit'', DBool (cf_use_init c)),
           (''capAdd'', d_strs (cf_cap_add c)),
           (''capDrop'', d_strs (cf_cap_drop c)),
           (''shmSize'', d_opt (\<lambda>n. DInt (int (unat n))) (cf_shm_size c)),
           (''maskedPaths'', d_opt d_strs (cf_masked_paths c)),
           (''readonlyPaths'', d_opt d_strs (cf_readonly_paths c)),
           (''stopSignal'', DNull),
           (''creationDate'', DFloat (cf_creation_date c))]"

section \<open>Facts\<close>

lemma allocate_retry_fresh:
  assumes "allocate_retry k f p a = Inr (hp, a')"
  shows "hp \<notin> snd a \<and> snd a' = insert hp (snd a)"
  using assms
proof (induction k f p a rule: allocate_retry.induct)
  case (2 k f p n allocated)
  then show ?case by (auto simp: rbind_eq_Inr_iff split: if_splits)
qed simp

lemma allocate_first:
  "free_port n p = Inr c \<Longrightarrow> c \<notin> allocated \<Longrightarrow>
   allocate_unique_free_host_port free_port p (n, allocated) = Inr (c, n + 1, insert c allocated)"
  using allocate_retry.simps(2) [of 63 free_port p n allocated]
  by (simp add: allocate_unique_free_host_port_def allocate_free_host_port_def)

lemma allocate_fresh:
  "allocate_unique_free_host_port f p a = Inr (hp, a') \<Longrightarrow> hp \<notin> snd a \<and> snd a' = insert hp (snd a)"
  unfolding allocate_unique_free_host_port_def by (rule allocate_retry_fresh)

text \<open>The container port a published port is for.\<close>

definition cfg_key :: "port_cfg \<Rightarrow> u16 \<times> string" where
  "cfg_key c = (pc_container_port c, pc_proto c)"

definition key_of_port :: "container_port \<Rightarrow> u16 \<times> string" where
  "key_of_port p = (as_u16 p, port_as_str p)"

lemma key_of_port_inject [simp]: "key_of_port p = key_of_port q \<longleftrightarrow> p = q"
  by (cases p; cases q) (auto simp: key_of_port_def)

lemma cfg_key_of [simp]: "cfg_key (port_cfg_of hp p) = key_of_port p" "pc_host_port (port_cfg_of hp p) = hp"
  by (simp_all add: cfg_key_def key_of_port_def port_cfg_of_def)

text \<open>The published ports, host ports distinct and in the set of those in use.\<close>

lemma choose_fresh:
  "choose_host_port f p a = Inr (hp, a') \<Longrightarrow>
   hp \<notin> snd a \<and> snd a' = insert hp (snd a) \<and> (pm_host_port p = 0 \<or> hp = pm_host_port p)"
  by (auto simp: choose_host_port_def split: if_splits dest: allocate_fresh)

lemma mapped_ports_spec:
  assumes "mapped_ports f ps a = Inr (cfgs, a')"
  shows "map cfg_key cfgs = map (key_of_port \<circ> pm_container_port) ps \<and> distinct (map pc_host_port cfgs) \<and>
     set (map pc_host_port cfgs) \<inter> snd a = {} \<and> snd a' = snd a \<union> set (map pc_host_port cfgs) \<and>
     (\<forall>p \<in> set ps. pm_host_port p \<noteq> 0 \<longrightarrow> port_cfg_of (pm_host_port p) (pm_container_port p) \<in> set cfgs)"
  using assms
proof (induction ps arbitrary: a cfgs)
  case (Cons p ps)
  from Cons.prems obtain hp a1 rest where choice: "choose_host_port f p a = Inr (hp, a1)"
    and rest: "mapped_ports f ps a1 = Inr (rest, a')" and cfgs: "cfgs = port_cfg_of hp (pm_container_port p) # rest"
    by (auto simp: rbind_eq_Inr_iff)
  from Cons.IH [OF rest] choose_fresh [OF choice] show ?case unfolding cfgs by auto
qed simp

lemma exposed_ports_spec:
  assumes "exposed_ports f es cfgs a = Inr cfgs'" and "distinct (map pc_host_port cfgs)" and "snd a = set (map pc_host_port cfgs)"
  shows "\<exists>new. cfgs' = cfgs @ new \<and> distinct (map pc_host_port cfgs') \<and>
     set (map cfg_key cfgs') = set (map cfg_key cfgs) \<union> key_of_port ` set es \<and>
     (distinct (map cfg_key cfgs) \<longrightarrow> distinct (map cfg_key cfgs'))"
  using assms
proof (induction es arbitrary: cfgs a)
  case (Cons e es)
  have key: "list_ex (\<lambda>p. pc_container_port p = as_u16 e \<and> pc_proto p = port_as_str e) cfgs \<longleftrightarrow> key_of_port e \<in> set (map cfg_key cfgs)"
    unfolding list_ex_iff cfg_key_def key_of_port_def by (auto simp: image_iff) metis
  show ?case
  proof (cases "key_of_port e \<in> set (map cfg_key cfgs)")
    case True
    with Cons.prems(1) have "exposed_ports f es cfgs a = Inr cfgs'" unfolding exposed_ports.simps key by simp
    from Cons.IH [OF this Cons.prems(2,3)] True show ?thesis by auto
  next
    case False
    with Cons.prems(1) obtain hp a1 where alloc: "allocate_unique_free_host_port f e a = Inr (hp, a1)"
      and rest: "exposed_ports f es (cfgs @ [port_cfg_of hp e]) a1 = Inr cfgs'"
      unfolding exposed_ports.simps key by (auto simp: rbind_eq_Inr_iff)
    from allocate_fresh [OF alloc] Cons.prems(2,3)
    have "distinct (map pc_host_port (cfgs @ [port_cfg_of hp e]))" "snd a1 = set (map pc_host_port (cfgs @ [port_cfg_of hp e]))" by auto
    from Cons.IH [OF rest this] False show ?thesis by auto
  qed
qed auto

lemma build_config_steps:
  assumes "build_config f ops now req i d ic rs = Inr c"
  obtains cfgs a where "reject_sctp_ports req = Inr ()" "distinct (map pm_container_port (unwrap_or (cr_ports req) []))"
    "mapped_ports f (unwrap_or (cr_ports req) []) (0, {}) = Inr (cfgs, a)"
    "exposed_ports f (img_expose_ports (cr_image req)) cfgs a = Inr (cf_ports c)" "parse_user (cr_user req) = Inr (cf_user c)"
proof -
  obtain arch rosetta res where np: "normalize_platform (cr_platform req) = (arch, rosetta, res)" by (metis prod_cases3)
  from assms show thesis using that
    by (cases "cr_ports req")
      (auto simp: build_config_def published_ports_def rbind_eq_Inr_iff unwrap_or_def reject_duplicate_iff Let_def np)
qed

section \<open>Properties\<close>

text \<open>
  C21. The ports a macOS container publishes are exactly those the request maps and the image exposes,
  each once, none of them SCTP; host ports are pairwise distinct, and a host port the request asks for
  is the one published.
\<close>

theorem build_config_ports:
  assumes "build_config f ops now req i d ic rs = Inr c"
  shows "distinct (map pc_host_port (cf_ports c)) \<and> distinct (map cfg_key (cf_ports c)) \<and>
     set (map cfg_key (cf_ports c)) =
       key_of_port ` (pm_container_port ` set (unwrap_or (cr_ports req) []) \<union> set (img_expose_ports (cr_image req))) \<and>
     (\<forall>m \<in> set (unwrap_or (cr_ports req) []). pm_host_port m \<noteq> 0 \<longrightarrow> port_cfg_of (pm_host_port m) (pm_container_port m) \<in> set (cf_ports c)) \<and>
     (\<forall>p \<in> pm_container_port ` set (unwrap_or (cr_ports req) []) \<union> set (img_expose_ports (cr_image req)). \<not> is_sctp p)"
proof -
  let ?ps = "unwrap_or (cr_ports req) []"
  obtain cfgs a where sctp: "reject_sctp_ports req = Inr ()" and dist: "distinct (map pm_container_port ?ps)"
    and mapped: "mapped_ports f ?ps (0, {}) = Inr (cfgs, a)"
    and exposed: "exposed_ports f (img_expose_ports (cr_image req)) cfgs a = Inr (cf_ports c)"
    using build_config_steps [OF assms] by metis
  note m = mapped_ports_spec [OF mapped]
  have keys: "map cfg_key cfgs = map key_of_port (map pm_container_port ?ps)" using m by simp
  have "distinct (map cfg_key cfgs)" unfolding keys using dist by (simp add: distinct_map inj_on_def)
  moreover have "\<forall>p \<in> pm_container_port ` set ?ps \<union> set (img_expose_ports (cr_image req)). \<not> is_sctp p"
    using sctp by (auto simp: reject_sctp_ports_def list_ex_iff unwrap_or_def Let_def split: if_splits option.splits)
  moreover obtain new where "cf_ports c = cfgs @ new" "distinct (map pc_host_port (cf_ports c))"
    "set (map cfg_key (cf_ports c)) = set (map cfg_key cfgs) \<union> key_of_port ` set (img_expose_ports (cr_image req))"
    "distinct (map cfg_key cfgs) \<longrightarrow> distinct (map cfg_key (cf_ports c))"
  proof -
    have "distinct (map pc_host_port cfgs)" "snd a = set (map pc_host_port cfgs)" using m by simp_all
    from exposed_ports_spec [OF exposed this] that show thesis by blast
  qed
  moreover have "set (map cfg_key cfgs) = key_of_port ` pm_container_port ` set ?ps" unfolding keys by (simp add: image_image)
  ultimately show ?thesis using m by (simp only: image_Un set_append) blast
qed

definition sample_free_ports :: free_ports where
  "sample_free_ports n p = Inr (of_nat (50000 + n div 2))"

definition unit_f64 :: "unit f64_ops" where
  "unit_f64 = \<lparr>f64_literal = (\<lambda>_. ()), f64_minus = (\<lambda>_ _. ()), f64_as_secs = (\<lambda>_. ())\<rparr>"

theorem build_config_ports_witness:
  "\<exists>c. build_config sample_free_ports unit_f64 None sample_request ''c-1'' ''{}'' \<lparr>ic_entrypoint = None, ic_cmd = None\<rparr> [] = Inr c \<and>
     port_cfg_of 8080 (Tcp 80) \<in> set (cf_ports c) \<and> set (map cfg_key (cf_ports c)) = {(80, ''tcp''), (53, ''udp'')}"
proof -
  note r = sample_request_def request_of_image_def request_builders with_mount_def unwrap_or_def port_mapping_new_def
    generic_as_image_def image_default_def with_exposed_port_def generic_image_new_def
  have ports: "cr_ports sample_request = Some [\<lparr>pm_host_port = 8080, pm_container_port = Tcp 80\<rparr>]"
    "img_expose_ports (cr_image sample_request) = [Tcp 80, Udp 53]"
    "cr_user sample_request = None" "request_cmd sample_request = [[CHR 0x22, CHR 0x5C, CHR 0x0A]]"
    "img_entrypoint (cr_image sample_request) = None"
    by (simp_all add: r request_cmd_def)
  obtain arch rosetta res where np: "normalize_platform (cr_platform sample_request) = (arch, rosetta, res)" by (metis prod_cases3)
  have "\<exists>c. build_config sample_free_ports unit_f64 None sample_request ''c-1'' ''{}'' \<lparr>ic_entrypoint = None, ic_cmd = None\<rparr> [] = Inr c"
    by (simp add: build_config_def effective_command_def ports reject_sctp_ports_def reject_duplicate_mapped_ports_def published_ports_def
        choose_host_port_def allocate_first sample_free_ports_def port_cfg_of_def unwrap_or_def parse_user_def np)
  then obtain c where c: "build_config sample_free_ports unit_f64 None sample_request ''c-1'' ''{}'' \<lparr>ic_entrypoint = None, ic_cmd = None\<rparr> [] = Inr c"
    by blast
  from build_config_ports [OF c] c show ?thesis by (auto simp: ports unwrap_or_def key_of_port_def)
qed

text \<open>Numeric users are read as numbers, with group 0 where none is given; a name is passed on as it is.\<close>

lemma parse_user_numeric:
  "parse_user (Some (show_nat (unat uid) @ '':'' @ show_nat (unat gid))) = Inr (UserIds uid gid)"
  "parse_user (Some (show_nat (unat uid) @ '':'')) = Inr (UserIds uid 0)"
  "parse_user (Some (show_nat (unat uid))) = Inr (UserIds uid 0)"
proof -
  have colon: "CHR '':'' \<notin> set (show_nat n)" for n using show_nat_digits [of "CHR '':''" n] by auto
  have u32: "parse_u32 (show_nat (unat v)) = Inr v" for v
    using unsigned_less [of v, where ?'a = nat] by (simp add: parse_u32_def parse_unsigned_show_nat)
  have none: "split_once CHR '':'' (show_nat (unat uid)) = None" using colon by (simp add: split_once_None)
  note some = split_once_append [OF colon]
  show "parse_user (Some (show_nat (unat uid) @ '':'' @ show_nat (unat gid))) = Inr (UserIds uid gid)"
    "parse_user (Some (show_nat (unat uid) @ '':'')) = Inr (UserIds uid 0)"
    "parse_user (Some (show_nat (unat uid))) = Inr (UserIds uid 0)"
    by (simp_all add: parse_user_def some none u32)
qed

lemma parse_user_name:
  assumes "u \<noteq> []" and "parse_u32 (case split_once CHR '':'' u of Some (a, _) \<Rightarrow> a | None \<Rightarrow> u) = Inl e"
  shows "parse_user (Some u) = Inr (RawUser u)"
  using assms by (auto simp: parse_user_def Let_def split: option.splits sum.splits)

end
