(* ===== verification/Mac_Container.thy ===== *)
theory Mac_Container
  imports Xpc_Facts Container_Cfg
begin

text \<open>
  \<open>src/core/containers/async_container.rs\<close> on macOS, with the waits of \<open>src/core/wait/\<close> as they run
  there: the handle of a container of Apple's daemon. Its log descriptors are plain files it owns; a
  flag stops the tasks that deliver them.
\<close>

section \<open>What surrounds a handle\<close>

text \<open>
  What a log wait reads, the exit code as the waiting threads leave it, the answers of an HTTP server
  in the container, the polls that fit before a timeout, duplicates of descriptors, and the host's
  files. \<open>mr_copied\<close> is a file copied out: whether it is a directory, and its contents.
\<close>

record mac_runtime =
  mr_log_turns :: "xevent list \<Rightarrow> log_turn list"
  mr_wait_state :: "xevent list \<Rightarrow> wait_state"
  mr_send :: "xevent list \<Rightarrow> string \<Rightarrow> u16 \<Rightarrow> u8 list \<Rightarrow> string + server_response"
  mr_http11 :: http11
  mr_base64 :: "u8 list \<Rightarrow> string"
  mr_polls :: "duration \<Rightarrow> nat"
  mr_dup :: "xevent list \<Rightarrow> int \<Rightarrow> int option"
  mr_copied_is_dir :: "xevent list \<Rightarrow> string \<Rightarrow> io_error + bool"
  mr_copied_open :: "xevent list \<Rightarrow> string \<Rightarrow> io_error + u8 list"
  mr_temp_dir :: string
  mr_create_temp :: "xevent list \<Rightarrow> string \<Rightarrow> io_error option"
  mr_write_temp :: "xevent list \<Rightarrow> string \<Rightarrow> u8 list \<Rightarrow> io_error option"
  mr_is_file :: "string \<Rightarrow> bool"
  mr_is_dir :: "string \<Rightarrow> bool"

datatype mac_log_source = NoLogFds | LogFds int int

text \<open>A stop flag is named by the length of the history when it was made.\<close>

record 'c mac_container =
  mac_id :: string
  mac_request :: "'c container_request"
  mac_dropped :: bool
  mac_log_source :: mac_log_source
  mac_log_stop :: nat
  mac_log_consumers :: "'c list option"

definition mac_exit_code_hint :: "mac_runtime \<Rightarrow> xevent list \<Rightarrow> int option" where
  "mac_exit_code_hint rt h = ws_exit_code (mr_wait_state rt h)"

section \<open>Log delivery\<close>

definition mac_spawn_log_consumer_task :: "mac_runtime \<Rightarrow> int option \<Rightarrow> nat \<Rightarrow> log_source \<Rightarrow> unit xio" where
  "mac_spawn_log_consumer_task rt fd stop src = (\<lambda>h.
     case Option.bind fd (mr_dup rt h) of
       None \<Rightarrow> (Inr (), h)
     | Some duped \<Rightarrow> (Inr (), h @ [SpawnFdConsumer stop duped src]))"

fun log_fds_of :: "mac_log_source \<Rightarrow> int option \<times> int option" where
  "log_fds_of (LogFds out err) = (Some out, Some err)"
| "log_fds_of NoLogFds = (None, None)"

definition mac_container_new :: "mac_runtime \<Rightarrow> string \<Rightarrow> 'c container_request \<Rightarrow> mac_log_source \<Rightarrow> 'c mac_container xio" where
  "mac_container_new rt i req source = (\<lambda>h.
     (let taken = cr_log_consumers req; stop = length h; (out_fd, err_fd) = log_fds_of source;
          c = \<lparr>mac_id = i, mac_request = req\<lparr>cr_log_consumers := []\<rparr>, mac_dropped = False, mac_log_source = source,
               mac_log_stop = stop, mac_log_consumers = (if taken = [] then None else Some taken)\<rparr>
      in if taken = [] then io_lift (Inr c)
         else io_bind (mac_spawn_log_consumer_task rt out_fd stop SrcStdOut) (\<lambda>_.
              io_bind (mac_spawn_log_consumer_task rt err_fd stop SrcStdErr) (\<lambda>_.
              io_lift (Inr c)))) h)"

definition mac_stop_log_delivery :: "'c mac_container \<Rightarrow> unit xio" where
  "mac_stop_log_delivery c = io_event (SetStop (mac_log_stop c))"

definition mac_log_source_is_none :: "'c mac_container \<Rightarrow> bool" where
  "mac_log_source_is_none c \<longleftrightarrow> mac_log_source c = NoLogFds"

section \<open>State\<close>

definition mac_ports :: "('v, 'f) xworld \<Rightarrow> 'c mac_container \<Rightarrow> ports xio" where
  "mac_ports w c = xpc_ports w (mac_id c)"

definition mac_port_of :: "('v, 'f) xworld \<Rightarrow> string \<Rightarrow> (ports \<Rightarrow> container_port \<Rightarrow> u16 option) \<Rightarrow> container_port \<Rightarrow> u16 xio" where
  "mac_port_of w i lookup p = io_bind (xpc_ports w i) (\<lambda>ps. io_lift (ok_or (PortNotExposed i p) (lookup ps p)))"

definition mac_get_host_port_ipv4 :: "('v, 'f) xworld \<Rightarrow> 'c mac_container \<Rightarrow> container_port \<Rightarrow> u16 xio" where
  "mac_get_host_port_ipv4 w c p = mac_port_of w (mac_id c) map_to_host_port_ipv4 p"

definition mac_get_host_port_ipv6 :: "('v, 'f) xworld \<Rightarrow> 'c mac_container \<Rightarrow> container_port \<Rightarrow> u16 xio" where
  "mac_get_host_port_ipv6 w c p = mac_port_of w (mac_id c) map_to_host_port_ipv6 p"

definition mac_get_bridge_ip_address :: "('v, 'f) xworld \<Rightarrow> 'c mac_container \<Rightarrow> ip_addr xio" where
  "mac_get_bridge_ip_address w c = xpc_bridge_ip_address w (mac_id c)"

definition mac_gateway_ip_address :: "('v, 'f) xworld \<Rightarrow> 'c mac_container \<Rightarrow> ip_addr xio" where
  "mac_gateway_ip_address w c = gateway_ip_address w (mac_id c)"

definition mac_is_running :: "('v, 'f) xworld \<Rightarrow> 'c mac_container \<Rightarrow> bool xio" where
  "mac_is_running w c = io_bind (xpc_container_state w (mac_id c)) (\<lambda>snap. io_lift (Inr (snap_running snap)))"

definition mac_container_state :: "('v, 'f) xworld \<Rightarrow> 'c mac_container \<Rightarrow> container_state xio" where
  "mac_container_state w c =
     io_bind (xpc_container_state w (mac_id c)) (\<lambda>snap.
     io_lift (Inr \<lparr>cs_id = mac_id c, cs_host = get_host, cs_ports = snap_ports snap\<rparr>))"

text \<open>
  \<open>exit_code\<close>: what the threads recorded, or a short wait of its own once the container has stopped,
  whose answer counts only if no restart came between.
\<close>

definition mac_fetch_exit_code :: "('v, 'f) xworld \<Rightarrow> mac_runtime \<Rightarrow> string \<Rightarrow> int option xio" where
  "mac_fetch_exit_code w rt i = (\<lambda>h.
     (let generation = ws_generation (mr_wait_state rt h)
      in io_bind (io_catch (xpc_wait_blocking w i i (from_secs 5))) (\<lambda>r.
         case r of
           Inl _ \<Rightarrow> io_lift (Inr None)
         | Inr code \<Rightarrow> (\<lambda>h1.
             if fst (store_if_current generation code (mr_wait_state rt h1)) then
               (Inr (Some code), h1 @ [StoreExitCode generation code])
             else (Inr None, h1)))) h)"

definition mac_exit_code :: "('v, 'f) xworld \<Rightarrow> mac_runtime \<Rightarrow> string \<Rightarrow> int option xio" where
  "mac_exit_code w rt i = (\<lambda>h.
     case mac_exit_code_hint rt h of
       Some code \<Rightarrow> (Inr (Some code), h)
     | None \<Rightarrow>
         io_bind (xpc_container_state w i) (\<lambda>state.
         if snap_running state then io_lift (Inr None) else mac_fetch_exit_code w rt i) h)"

section \<open>Waits\<close>

fun mac_exit_wait :: "nat \<Rightarrow> ('v, 'f) xworld \<Rightarrow> mac_runtime \<Rightarrow> string \<Rightarrow> exit_wait_strategy \<Rightarrow> unit option xio" where
  "mac_exit_wait 0 w rt i s = io_lift (Inr None)"
| "mac_exit_wait (Suc n) w rt i s = (\<lambda>h.
     case mac_exit_code_hint rt h of
       Some actual \<Rightarrow>
         (case ew_expected_code s of
            Some expected \<Rightarrow>
              if actual \<noteq> expected then (Inl (WaitContainer (UnexpectedExitCode expected (Some actual))), h)
              else (Inr (Some ()), h)
          | None \<Rightarrow> (Inr (Some ()), h))
     | None \<Rightarrow>
         io_bind (xpc_container_state w i) (\<lambda>state.
           if snap_running state then io_bind (io_event (XSleep (ew_poll_interval s))) (\<lambda>_. mac_exit_wait n w rt i s)
           else case ew_expected_code s of
                  None \<Rightarrow> io_lift (Inr (Some ()))
                | Some expected \<Rightarrow>
                    io_bind (mac_exit_code w rt i) (\<lambda>code. io_lift (
                      if code = Some expected then Inr (Some ())
                      else Inl (WaitContainer (UnexpectedExitCode expected code))))) h)"

definition mac_http_send :: "mac_runtime \<Rightarrow> http_wait_strategy \<Rightarrow> string \<Rightarrow> u16 \<Rightarrow> u8 list \<Rightarrow> xevent list \<Rightarrow> string + server_response" where
  "mac_http_send rt s host port bytes h =
     (if hs_request_timeout s = 0 then Inl ''HTTP request timed out'' else mr_send rt h host port bytes)"

fun mac_http_loop ::
  "nat \<Rightarrow> mac_runtime \<Rightarrow> http_wait_strategy \<Rightarrow> (server_response \<Rightarrow> bool) \<Rightarrow> string \<Rightarrow> u16 \<Rightarrow> u8 list \<Rightarrow> unit option xio" where
  "mac_http_loop 0 rt s matcher host port bytes = io_lift (Inr None)"
| "mac_http_loop (Suc n) rt s matcher host port bytes = (\<lambda>h.
     if (case mac_http_send rt s host port bytes h of Inr response \<Rightarrow> matcher response | Inl _ \<Rightarrow> False) then (Inr (Some ()), h)
     else io_bind (io_event (XSleep (hs_poll_interval s))) (\<lambda>_. mac_http_loop n rt s matcher host port bytes) h)"

definition mac_http_wait :: "nat \<Rightarrow> ('v, 'f) xworld \<Rightarrow> mac_runtime \<Rightarrow> string \<Rightarrow> http_wait_strategy \<Rightarrow> unit option xio" where
  "mac_http_wait n w rt i s =
     io_bind (io_lift (ok_or (WaitContainer (HttpWait NoResponseMatcher)) (hs_matcher s))) (\<lambda>matcher.
     io_bind (case hs_port s of
         Some p \<Rightarrow> io_lift (Inr p)
       | None \<Rightarrow> io_bind (xpc_ports w i) (\<lambda>ps.
           io_lift (ok_or (WaitContainer (HttpWait NoExposedPortsForHttpWait)) (first_container_port ps)))) (\<lambda>p.
     io_bind (io_bind (io_catch (mac_port_of w i map_to_host_port_ipv4 p)) (\<lambda>r.
         case r of Inr port \<Rightarrow> io_lift (Inr port) | Inl _ \<Rightarrow> mac_port_of w i map_to_host_port_ipv6 p)) (\<lambda>host_port.
     io_bind (io_lift (map_err (\<lambda>e. WaitContainer (HttpWait e))
         (build_request_bytes (mr_http11 rt) (mr_base64 rt) s ''localhost'' host_port))) (\<lambda>bytes.
     mac_http_loop n rt s matcher ''localhost'' host_port bytes))))"

definition mac_wait_until_ready :: "nat \<Rightarrow> ('v, 'f) xworld \<Rightarrow> mac_runtime \<Rightarrow> string \<Rightarrow> wait_for \<Rightarrow> unit option xio" where
  "mac_wait_until_ready n w rt i cond =
     (case cond of
        WaitNothing \<Rightarrow> io_lift (Inr (Some ()))
      | WaitLogs s \<Rightarrow> (\<lambda>h. case log_wait_until_ready s (mr_log_turns rt h) of
            None \<Rightarrow> (Inr None, h) | Some (Inr _, _) \<Rightarrow> (Inr (Some ()), h) | Some (Inl e, _) \<Rightarrow> (Inl e, h))
      | WaitDuration d \<Rightarrow> io_bind (io_event (XSleep d)) (\<lambda>_. io_lift (Inr (Some ())))
      | WaitHealthcheck s \<Rightarrow> io_lift (Inl (WaitContainer (HealthCheckNotConfigured i)))
      | WaitHttp s \<Rightarrow> mac_http_wait n w rt i s
      | WaitExit s \<Rightarrow> mac_exit_wait n w rt i s)"

fun mac_block_until_ready :: "nat \<Rightarrow> ('v, 'f) xworld \<Rightarrow> mac_runtime \<Rightarrow> string \<Rightarrow> wait_for list \<Rightarrow> unit option xio" where
  "mac_block_until_ready n w rt i [] = io_lift (Inr (Some ()))"
| "mac_block_until_ready n w rt i (c # cs) =
     io_bind (mac_wait_until_ready n w rt i c) (\<lambda>r. case r of None \<Rightarrow> io_lift (Inr None) | Some _ \<Rightarrow> mac_block_until_ready n w rt i cs)"

definition mac_block_with_timeout :: "('v, 'f) xworld \<Rightarrow> mac_runtime \<Rightarrow> string \<Rightarrow> duration \<Rightarrow> wait_for list \<Rightarrow> unit xio" where
  "mac_block_with_timeout w rt i timeout conds =
     io_bind (mac_block_until_ready (mr_polls rt timeout) w rt i conds) (\<lambda>r.
     io_lift (ok_or (WaitContainer (StartupTimeout i timeout)) r))"

section \<open>Commands\<close>

text \<open>The result of a command has the same fields on both systems.\<close>

definition as_exec_result :: "xpc_exec_result \<Rightarrow> docker_exec_result" where
  "as_exec_result raw = \<lparr>er_exit_code = xer_exit_code raw, er_stdout = xer_stdout raw, er_stderr = xer_stderr raw\<rparr>"

definition mac_check_cmd_condition :: "docker_exec_result \<Rightarrow> cmd_wait_for \<Rightarrow> unit xio" where
  "mac_check_cmd_condition raw cond =
     (case cond of
        CmdStdOutMessage message \<Rightarrow>
          if \<not> contains_bytes (er_stdout raw) message
          then io_lift (Inl (Other (''expected message not found in stdout: '' @ from_utf8_lossy message))) else io_lift (Inr ())
      | CmdStdErrMessage message \<Rightarrow>
          if \<not> contains_bytes (er_stderr raw) message
          then io_lift (Inl (Other (''expected message not found in stderr: '' @ from_utf8_lossy message))) else io_lift (Inr ())
      | CmdExit None \<Rightarrow> io_lift (Inr ())
      | CmdExit (Some code) \<Rightarrow>
          (case er_exit_code raw of
             Some actual \<Rightarrow>
               if actual \<noteq> code then io_lift (Inl (Exec (ExitCodeMismatch code actual))) else io_lift (Inr ())
           | None \<Rightarrow> io_lift (Inl (Other ''exec exit code is unavailable, cannot verify expected exit code'')))
      | CmdDuration d \<Rightarrow> io_event (XSleep d)
      | CmdNothing \<Rightarrow> io_lift (Inr ()))"

definition mac_exec :: "('v, 'f) xworld \<Rightarrow> mac_runtime \<Rightarrow> 'c mac_container \<Rightarrow> exec_command \<Rightarrow> docker_exec_result xio" where
  "mac_exec w rt c e =
     (if mac_log_source_is_none c \<and> ready_conditions_require_log (ec_container_ready_conditions e)
      then io_lift (Inl (Other ''log wait requires a log source, but none is available''))
      else
        io_bind (xpc_exec w (mac_id c) (ec_cmd e) (fold_env (env_vars (mac_request c)) (ec_env_vars e))) (\<lambda>raw.
        io_bind (mac_block_with_timeout w rt (mac_id c) (startup_timeout (mac_request c)) (ec_container_ready_conditions e)) (\<lambda>_.
        io_bind (mac_check_cmd_condition (as_exec_result raw) (ec_cmd_ready_condition e)) (\<lambda>_.
        io_lift (Inr (as_exec_result raw))))))"

definition mac_exec_all :: "('v, 'f) xworld \<Rightarrow> mac_runtime \<Rightarrow> 'c mac_container \<Rightarrow> exec_command list \<Rightarrow> unit xio" where
  "mac_exec_all w rt c cmds = io_for (\<lambda>e. io_bind (mac_exec w rt c e) (\<lambda>_. io_lift (Inr ()))) cmds"

section \<open>Copies out of the container\<close>

definition mac_read_copied :: "mac_runtime \<Rightarrow> string \<Rightarrow> (u8 list \<Rightarrow> copy_from_container_error + 'a) \<Rightarrow> 'a xio" where
  "mac_read_copied rt path target = (\<lambda>h.
     (rbind (map_err Io (mr_copied_is_dir rt h path)) (\<lambda>is_dir.
      if is_dir then Inl (Other (copy_from_error_text IsDirectory))
      else rbind (map_err Io (mr_copied_open rt h path)) (\<lambda>bytes.
           map_err (\<lambda>e. Other (copy_from_error_text e)) (target bytes))), h))"

definition mac_copy_file_from ::
  "('v, 'f) xworld \<Rightarrow> mac_runtime \<Rightarrow> 'c mac_container \<Rightarrow> string \<Rightarrow> (u8 list \<Rightarrow> copy_from_container_error + 'a) \<Rightarrow> 'a xio" where
  "mac_copy_file_from w rt c source target =
     io_bind (next_suffix w) (\<lambda>suffix.
     let temp_path = path_join (mr_temp_dir rt) (''container-rs-copy-out-'' @ mac_id c @ ''-'' @ suffix)
     in io_bind (copy_out w (mac_id c) source temp_path) (\<lambda>_.
        io_bind (io_catch (mac_read_copied rt temp_path target)) (\<lambda>result.
        io_bind (io_event (RemoveCopyOut temp_path)) (\<lambda>_. io_lift result))))"

section \<open>Stopping, restarting, removing\<close>

definition mac_stop_with_timeout :: "('v, 'f) xworld \<Rightarrow> 'c mac_container \<Rightarrow> int option \<Rightarrow> unit xio" where
  "mac_stop_with_timeout w c t = io_bind (mac_stop_log_delivery c) (\<lambda>_. xpc_stop w (mac_id c) t)"

definition mac_stop :: "('v, 'f) xworld \<Rightarrow> 'c mac_container \<Rightarrow> unit xio" where
  "mac_stop w c = mac_stop_with_timeout w c None"

definition close_log_fds :: "mac_log_source \<Rightarrow> unit xio" where
  "close_log_fds source =
     (case source of
        LogFds out err \<Rightarrow> io_bind (io_event (CloseFd out)) (\<lambda>_. io_event (CloseFd err))
      | NoLogFds \<Rightarrow> io_lift (Inr ()))"

definition mac_refresh_log_streams :: "('v, 'f) xworld \<Rightarrow> mac_runtime \<Rightarrow> 'c mac_container \<Rightarrow> 'c mac_container xio" where
  "mac_refresh_log_streams w rt c =
     io_bind (io_map_err (\<lambda>e. Other (''failed to refresh log fds after restart: '' @ error_text e)) (xpc_logs w (mac_id c))) (\<lambda>(new_out, new_err).
     io_bind (mac_stop_log_delivery c) (\<lambda>_ h.
     (let new_stop = length h
      in io_bind (close_log_fds (mac_log_source c)) (\<lambda>_.
         io_bind (if mac_log_consumers c = None then io_lift (Inr ())
                  else io_bind (mac_spawn_log_consumer_task rt (Some new_out) new_stop SrcStdOut) (\<lambda>_.
                       mac_spawn_log_consumer_task rt (Some new_err) new_stop SrcStdErr)) (\<lambda>_.
         io_lift (Inr (c\<lparr>mac_log_source := LogFds new_out new_err, mac_log_stop := new_stop\<rparr>))))) h))"

definition mac_reset_wait_state_and_respawn :: "mac_runtime \<Rightarrow> 'c mac_container \<Rightarrow> unit xio" where
  "mac_reset_wait_state_and_respawn rt c = (\<lambda>h.
     (Inr (), h @ [BumpGeneration, SpawnExitWaiter (mac_id c) (fst (bump (mr_wait_state rt h)))]))"

definition mac_restart :: "('v, 'f) xworld \<Rightarrow> mac_runtime \<Rightarrow> 'c mac_container \<Rightarrow> 'c mac_container xio" where
  "mac_restart w rt c =
     io_bind (bootstrap_container w (mac_id c)) (\<lambda>_.
     io_bind (start_process w (mac_id c)) (\<lambda>_.
     io_bind (mac_reset_wait_state_and_respawn rt c) (\<lambda>_.
     io_bind (io_catch (mac_refresh_log_streams w rt c)) (\<lambda>r.
     case r of
       Inr c' \<Rightarrow> io_lift (Inr c')
     | Inl e \<Rightarrow> io_bind (io_catch (mac_stop_with_timeout w c (Some 0))) (\<lambda>_. io_lift (Inl e))))))"

text \<open>The handle is shared: what a start that fails has changed of it stays changed.\<close>

definition mac_container_start ::
  "('v, 'f) xworld \<Rightarrow> mac_runtime \<Rightarrow> 'c mac_container \<Rightarrow> xevent list \<Rightarrow> (unit result \<times> 'c mac_container) \<times> xevent list" where
  "mac_container_start w rt c h =
     (case io_bind (mac_is_running w c) (\<lambda>running. if running then io_lift (Inr c) else mac_restart w rt c) h of
        (Inl e, h1) \<Rightarrow> ((Inl e, c), h1)
      | (Inr c', h1) \<Rightarrow>
          (case io_bind (mac_container_state w c') (\<lambda>state.
                  io_bind (io_lift (img_exec_after_start (cr_image (mac_request c')) state)) (mac_exec_all w rt c')) h1 of
             (r, h2) \<Rightarrow> ((r, c'), h2)))"

definition mac_removal_wanted :: "('v, 'f) xworld \<Rightarrow> bool" where
  "mac_removal_wanted w = (env_command (xw_env w ''TESTCONTAINERS_COMMAND'') = Remove)"

text \<open>\<open>Drop\<close>: the outcome of the removal is only logged.\<close>

definition mac_drop :: "('v, 'f) xworld \<Rightarrow> 'c mac_container \<Rightarrow> unit xio" where
  "mac_drop w c =
     io_bind (mac_stop_log_delivery c) (\<lambda>_.
     io_bind (close_log_fds (mac_log_source c)) (\<lambda>_.
     if mac_dropped c \<or> \<not> mac_removal_wanted w then io_lift (Inr ())
     else io_bind (io_catch (xpc_remove_blocking w (mac_id c) True)) (\<lambda>_. io_lift (Inr ()))))"

text \<open>The handle is consumed: \<open>Drop\<close> runs when the method returns, with an error as well.\<close>

definition mac_remove_then_drop :: "unit xio \<Rightarrow> ('v, 'f) xworld \<Rightarrow> 'c mac_container \<Rightarrow> unit xio" where
  "mac_remove_then_drop remove w c =
     io_bind (mac_stop_log_delivery c) (\<lambda>_.
     io_bind (io_catch remove) (\<lambda>r.
     io_bind (mac_drop w (case r of Inr _ \<Rightarrow> c\<lparr>mac_dropped := True\<rparr> | Inl _ \<Rightarrow> c)) (\<lambda>_.
     io_lift r)))"

definition mac_rm :: "('v, 'f) xworld \<Rightarrow> 'c mac_container \<Rightarrow> unit xio" where
  "mac_rm w c = mac_remove_then_drop (xpc_remove w (mac_id c) True) w c"

definition mac_rm_blocking :: "('v, 'f) xworld \<Rightarrow> 'c mac_container \<Rightarrow> unit xio" where
  "mac_rm_blocking w c = mac_remove_then_drop (xpc_remove_blocking w (mac_id c) True) w c"

section \<open>The thread that waits for the exit code\<close>

text \<open>
  The wait state is the one the thread finds when the daemon has answered; a failing wait records
  nothing.
\<close>

definition mac_exit_code_waiter :: "('v, 'f) xworld \<Rightarrow> string \<Rightarrow> u64 \<Rightarrow> (xevent list \<Rightarrow> wait_state) \<Rightarrow> xevent list \<Rightarrow> wait_state \<times> xevent list" where
  "mac_exit_code_waiter w i generation found h =
     (case xpc_wait_blocking w i i LONG_TIMEOUT h of
        (Inr code, h') \<Rightarrow> (snd (store_if_current generation code (found h')), h')
      | (Inl _, h') \<Rightarrow> (found h', h'))"

lemma mac_waiter_of_its_run:
  assumes "mac_exit_code_waiter w i generation found h = (ws, h')"
  shows "ws = found h' \<or> (ws_generation (found h') = generation \<and> (\<exists>code. xpc_wait_blocking w i i LONG_TIMEOUT h = (Inr code, h') \<and>
     ws = (found h')\<lparr>ws_exit_code := Some code\<rparr>))"
  using assms by (auto simp: mac_exit_code_waiter_def store_if_current_def split: prod.splits sum.splits if_splits)

end
