(* ===== verification/Fd_Readers.thy ===== *)
theory Fd_Readers
  imports Mac_Container
begin

text \<open>
  How a macOS handle reads the log files behind its descriptors: \<open>FdReader\<close>, \<open>FollowFdReader\<close>,
  \<open>fd_reader_or_empty\<close> and the task of \<open>spawn_log_consumer_task\<close>, all of
  \<open>src/core/containers/async_container.rs\<close>. The file grows while it is read: what a reader finds is
  given for each of its reads.
\<close>

section \<open>Reading at a position\<close>

text \<open>
  What the \<open>n\<close>-th read of a reader finds: the errors \<open>pread\<close> gives before it answers, the file and
  the most bytes it transfers at once; and, after the read, the stop flag, the exit code
  recorded by then, the time, and whether a sleep that is polled is over.
\<close>

record fd_turn =
  fdt_errors :: "io_error list"
  fdt_file :: "u8 list"
  fdt_most :: nat
  fdt_stop :: bool
  fdt_exit_code :: "int option"
  fdt_clock :: duration
  fdt_awake :: bool

fun pread_loop :: "io_error list \<Rightarrow> u8 list \<Rightarrow> io_error + u8 list" where
  "pread_loop [] bytes = Inr bytes"
| "pread_loop (e # es) bytes = (if io_kind_of e = Interrupted then pread_loop es bytes else Inl e)"

text \<open>\<open>read_at\<close>: a result of \<open>n\<close> bytes advances the position of this reader only.\<close>

definition fd_read_at :: "nat \<Rightarrow> fd_turn \<Rightarrow> nat \<Rightarrow> (io_error + u8 list) \<times> nat" where
  "fd_read_at len t pos =
     (case pread_loop (fdt_errors t) (take (min len (fdt_most t)) (drop pos (fdt_file t))) of
        Inl e \<Rightarrow> (Inl e, pos)
      | Inr bytes \<Rightarrow> (Inr bytes, pos + length bytes))"

section \<open>Following\<close>

definition should_stop_follow :: "fd_turn \<Rightarrow> bool" where
  "should_stop_follow t \<longleftrightarrow> fdt_stop t \<or> fdt_exit_code t \<noteq> None"

text \<open>
  The blocking read, from its \<open>n\<close>-th \<open>pread\<close> on: the result, the position and the number of the next
  \<open>pread\<close>. It does not return while the file does not grow and nothing stops it.
\<close>

partial_function (option) follow_read_loop ::
  "(nat \<Rightarrow> fd_turn) \<Rightarrow> bool \<Rightarrow> nat \<Rightarrow> nat \<Rightarrow> nat \<Rightarrow> ((io_error + u8 list) \<times> nat \<times> nat) option" where
  "follow_read_loop turns follow len pos n =
     (case fd_read_at len (turns n) pos of
        (Inl e, pos') \<Rightarrow> Some (Inl e, pos', Suc n)
      | (Inr bytes, pos') \<Rightarrow>
          if bytes = [] \<and> follow \<and> \<not> should_stop_follow (turns n) then follow_read_loop turns follow len pos' (Suc n)
          else Some (Inr bytes, pos', Suc n))"

definition follow_read ::
  "(nat \<Rightarrow> fd_turn) \<Rightarrow> bool \<Rightarrow> nat \<Rightarrow> nat \<Rightarrow> nat \<Rightarrow> ((io_error + u8 list) \<times> nat \<times> nat) option" where
  "follow_read turns follow len pos n = (if len = 0 then Some (Inr [], pos, n) else follow_read_loop turns follow len pos n)"

text \<open>
  One poll of the asynchronous read: \<open>None\<close> if it is pending. The flag says whether a sleep is
  under way; a sleep that is over leads to the next turn at once.
\<close>

partial_function (option) follow_poll_loop ::
  "(nat \<Rightarrow> fd_turn) \<Rightarrow> bool \<Rightarrow> nat \<Rightarrow> nat \<Rightarrow> bool \<Rightarrow> nat \<Rightarrow> ((io_error + u8 list) option \<times> nat \<times> bool \<times> nat) option" where
  "follow_poll_loop turns follow len pos delay n =
     (case fd_read_at len (turns n) pos of
        (Inl e, pos') \<Rightarrow> Some (Some (Inl e), pos', False, Suc n)
      | (Inr bytes, pos') \<Rightarrow>
          if bytes = [] \<and> follow \<and> \<not> should_stop_follow (turns n) then
            (if fdt_awake (turns n) then follow_poll_loop turns follow len pos' False (Suc n)
             else Some (None, pos', True, Suc n))
          else Some (Some (Inr bytes), pos', False, Suc n))"

definition follow_poll_read ::
  "(nat \<Rightarrow> fd_turn) \<Rightarrow> bool \<Rightarrow> nat \<Rightarrow> nat \<Rightarrow> bool \<Rightarrow> nat \<Rightarrow> ((io_error + u8 list) option \<times> nat \<times> bool \<times> nat) option" where
  "follow_poll_read turns follow len pos delay n =
     (if len = 0 then Some (Some (Inr []), pos, delay, n) else follow_poll_loop turns follow len pos delay n)"

text \<open>The reader for a stream of a handle: a duplicate of the descriptor read from the start, or none.\<close>

definition fd_reader_or_empty :: "mac_runtime \<Rightarrow> xevent list \<Rightarrow> int option \<Rightarrow> int option" where
  "fd_reader_or_empty rt h fd = Option.bind fd (mr_dup rt h)"

definition mac_log_reader :: "mac_runtime \<Rightarrow> xevent list \<Rightarrow> 'c mac_container \<Rightarrow> log_source \<Rightarrow> int option" where
  "mac_log_reader rt h c src =
     (case mac_log_source c of
        NoLogFds \<Rightarrow> None
      | LogFds out err \<Rightarrow> fd_reader_or_empty rt h (Some (if src = SrcStdErr then err else out)))"

text \<open>\<open>stdout_to_vec\<close> and \<open>stderr_to_vec\<close>: read to the end of the file, without following.\<close>

partial_function (option) read_to_end :: "(nat \<Rightarrow> fd_turn) \<Rightarrow> nat \<Rightarrow> nat \<Rightarrow> nat \<Rightarrow> u8 list \<Rightarrow> (io_error + u8 list) option" where
  "read_to_end turns len pos n acc =
     (case follow_read turns False len pos n of
        None \<Rightarrow> None
      | Some (Inl e, _) \<Rightarrow> Some (Inl e)
      | Some (Inr bytes, pos', n') \<Rightarrow> if bytes = [] then Some (Inr acc) else read_to_end turns len pos' n' (acc @ bytes))"

definition mac_log_to_vec :: "(nat \<Rightarrow> fd_turn) \<Rightarrow> int option \<Rightarrow> u8 list result option" where
  "mac_log_to_vec turns reader =
     (case reader of
        None \<Rightarrow> Some (Inr [])
      | Some _ \<Rightarrow> map_option (map_err Io) (read_to_end turns 8192 0 0 []))"

section \<open>Delivery to consumers\<close>

text \<open>\<open>tokio::io::BufReader\<close> over the reader: what it holds unread, the position and the number of the next read.\<close>

record fd_buf_reader =
  fb_buf :: "u8 list"
  fb_pos :: nat
  fb_turn :: nat

definition fd_buf_new :: fd_buf_reader where
  "fd_buf_new = \<lparr>fb_buf = [], fb_pos = 0, fb_turn = 0\<rparr>"

definition fd_fill_buf :: "(nat \<Rightarrow> fd_turn) \<Rightarrow> (io_error, fd_buf_reader) fill_buf" where
  "fd_fill_buf turns r =
     (if fb_buf r \<noteq> [] then (Inr (fb_buf r), r)
      else case fd_read_at 8192 (turns (fb_turn r)) (fb_pos r) of
             (Inl e, pos) \<Rightarrow> (Inl e, r\<lparr>fb_turn := Suc (fb_turn r)\<rparr>)
           | (Inr bytes, pos) \<Rightarrow> (Inr bytes, \<lparr>fb_buf = bytes, fb_pos = pos, fb_turn = Suc (fb_turn r)\<rparr>))"

definition fd_consume :: "nat \<Rightarrow> fd_buf_reader \<Rightarrow> fd_buf_reader" where
  "fd_consume n r = r\<lparr>fb_buf := drop n (fb_buf r)\<rparr>"

text \<open>
  The end of the file is only its present end: the task looks at the flag, at the exit code and at
  the time since it first saw one, sleeps and reads on. \<open>observed\<close> is that time.
\<close>

definition task_done :: "fd_turn \<Rightarrow> duration option \<Rightarrow> bool \<times> duration option" where
  "task_done t observed =
     (if fdt_stop t then (True, observed)
      else if fdt_exit_code t = None then (False, observed)
      else let anchor = unwrap_or observed (fdt_clock t)
           in (DRAIN_GRACE \<le> fdt_clock t - anchor, Some anchor))"

partial_function (option) fd_consumer_task ::
  "(nat \<Rightarrow> fd_turn) \<Rightarrow> 'c list \<Rightarrow> (u8 list \<Rightarrow> log_frame) \<Rightarrow> fd_buf_reader \<Rightarrow> duration option \<Rightarrow> ('c \<times> log_frame) list option" where
  "fd_consumer_task turns consumers to_frame r observed =
     (case deliver_line_to_consumers (fd_fill_buf turns) fd_consume consumers to_frame r of
        None \<Rightarrow> None
      | Some (Inl _, ds, r') \<Rightarrow> Some ds
      | Some (Inr go_on, ds, r') \<Rightarrow>
          if go_on then
            Option.bind (fd_consumer_task turns consumers to_frame r' observed) (\<lambda>ds'. Some (ds @ ds'))
          else
            (let (stop, observed') = task_done (turns (fb_turn r' - 1)) observed
             in if stop then Some ds
                else Option.bind (fd_consumer_task turns consumers to_frame r' observed') (\<lambda>ds'. Some (ds @ ds'))))"

section \<open>Logs that grow by whole lines\<close>

definition whole_lines :: "(nat \<Rightarrow> fd_turn) \<Rightarrow> u8 list list \<Rightarrow> (nat \<Rightarrow> nat) \<Rightarrow> bool" where
  "whole_lines turns ls vis \<longleftrightarrow> list_all (plain_line MAX_LINE_LENGTH) ls \<and> mono vis \<and>
     (\<forall>i. vis i \<le> length ls \<and> fdt_errors (turns i) = [] \<and> 0 < fdt_most (turns i) \<and> fdt_file (turns i) = unlines (take (vis i) ls))"

lemma unlines_append: "unlines (xs @ ys) = unlines xs @ unlines ys"
  by (simp add: unlines_def)

lemma unlines_Cons [simp]: "unlines (l # ls) = l @ 10 # unlines ls" "unlines [] = []"
  by (simp_all add: unlines_def)

lemma unlines_split: "unlines (take k ls) @ unlines (drop k ls) = unlines ls"
  by (simp flip: unlines_append)

lemma unlines_take_mono: "j \<le> k \<Longrightarrow> \<exists>rest. unlines (take k ls) = unlines (take j ls) @ rest"
proof -
  assume "j \<le> k"
  then have "take k ls = take j ls @ drop j (take k ls)" by (metis append_take_drop_id min_def take_take)
  then show ?thesis by (metis unlines_append)
qed

lemma unlines_take_Suc: "k < length ls \<Longrightarrow> unlines (take (Suc k) ls) = unlines (take k ls) @ ls ! k @ [10]"
  by (simp add: take_Suc_conv_app_nth unlines_append)

text \<open>
  The state of the task's reader after \<open>k\<close> lines and the part \<open>line\<close> of the next: \<open>p\<close> is what is
  left of the log, and no more was read than is visible at the next read.
\<close>

definition at_line :: "(nat \<Rightarrow> fd_turn) \<Rightarrow> u8 list list \<Rightarrow> nat \<Rightarrow> u8 list \<Rightarrow> fd_buf_reader \<Rightarrow> bool" where
  "at_line turns ls k line r \<longleftrightarrow>
     line @ fb_buf r @ drop (fb_pos r) (unlines ls) = unlines (drop k ls) \<and> k \<le> length ls \<and>
     length (unlines (take k ls)) + length line + length (fb_buf r) = fb_pos r \<and>
     fb_pos r \<le> length (fdt_file (turns (fb_turn r)))"

lemma unlines_take_less: "j < k \<Longrightarrow> k \<le> length ls \<Longrightarrow> length (unlines (take j ls)) < length (unlines (take k ls))"
  using unlines_take_mono [of "Suc j" k ls] unlines_take_Suc [of j ls] by auto

lemma take_then_drop:
  assumes "pos \<le> length xs"
  shows "take m (drop pos xs) @ drop (pos + length (take m (drop pos xs))) (xs @ ys) = drop pos (xs @ ys)"
proof -
  let ?b = "take m (drop pos xs)"
  have "pos + length ?b \<le> length xs" using assms by simp
  then have "drop (pos + length ?b) (xs @ ys) = drop (length ?b) (drop pos xs) @ ys" by (simp add: add.commute)
  moreover have "?b @ drop (length ?b) (drop pos xs) = drop pos xs" by (metis append_eq_conv_conj append_take_drop_id)
  ultimately show ?thesis using assms by (metis append_assoc drop_append diff_is_0_eq drop0)
qed

lemma fill_at_line:
  assumes "whole_lines turns ls vis" and "at_line turns ls k line r"
  shows "\<exists>bytes r'. fd_fill_buf turns r = (Inr bytes, r') \<and> fb_buf r' = bytes \<and> at_line turns ls k line r' \<and>
     (bytes = [] \<longleftrightarrow> fb_buf r = [] \<and> fb_pos r = length (unlines (take (vis (fb_turn r)) ls))) \<and>
     fb_turn r' = (if fb_buf r = [] then Suc (fb_turn r) else fb_turn r)"
proof (cases "fb_buf r = []")
  case False
  with assms(2) show ?thesis by (auto simp: fd_fill_buf_def)
next
  case True
  let ?n = "fb_turn r"
  let ?file = "unlines (take (vis ?n) ls)"
  let ?bytes = "take (min 8192 (fdt_most (turns ?n))) (drop (fb_pos r) ?file)"
  have seen: "fdt_file (turns ?n) = ?file" "fdt_errors (turns ?n) = []" "0 < fdt_most (turns ?n)"
    "fdt_file (turns (Suc ?n)) = unlines (take (vis (Suc ?n)) ls)" "vis ?n \<le> vis (Suc ?n)"
    using assms(1) by (auto simp: whole_lines_def mono_def)
  obtain more where more: "unlines ls = ?file @ more" using unlines_split by metis
  have le: "fb_pos r \<le> length ?file" using assms(2) seen(1) by (simp add: at_line_def)
  have visible: "length ?file \<le> length (unlines (take (vis (Suc ?n)) ls))"
    using unlines_take_mono [OF seen(5), of ls] by auto
  have rest: "?bytes @ drop (fb_pos r + length ?bytes) (unlines ls) = drop (fb_pos r) (unlines ls)"
    unfolding more using le by (rule take_then_drop)
  have len: "fb_pos r + length ?bytes \<le> length ?file" using le by simp
  let ?r = "\<lparr>fb_buf = ?bytes, fb_pos = fb_pos r + length ?bytes, fb_turn = Suc ?n\<rparr>"
  have "fd_fill_buf turns r = (Inr ?bytes, ?r)" using True seen by (simp add: fd_fill_buf_def fd_read_at_def)
  moreover have "at_line turns ls k line ?r"
    using assms(2) True rest len visible seen(4) by (simp add: at_line_def)
  moreover have "?bytes = [] \<longleftrightarrow> fb_pos r = length ?file" using le seen(3) by auto
  ultimately show ?thesis using True by auto
qed

text \<open>One line, however many reads it takes: the end of the file is never found inside it.\<close>

lemma read_line_at_line:
  assumes "whole_lines turns ls vis" and "k < length ls"
  shows "at_line turns ls k line r \<Longrightarrow> ls ! k = line @ p \<Longrightarrow> fb_buf r \<noteq> [] \<or> k < vis (fb_turn r) \<Longrightarrow>
     \<exists>r'. read_line_loop (fd_fill_buf turns) fd_consume MAX_LINE_LENGTH r line None = Some (Inr (Line (ls ! k)), r') \<and>
       at_line turns ls (Suc k) [] r' \<and> fb_turn r \<le> fb_turn r'"
proof (induction "length p" arbitrary: p line r rule: less_induct)
  case less
  have plain: "plain_line MAX_LINE_LENGTH (ls ! k)" using assms by (simp add: whole_lines_def list_all_length)
  obtain bytes r1 where fill: "fd_fill_buf turns r = (Inr bytes, r1)" "fb_buf r1 = bytes" "at_line turns ls k line r1"
    "bytes = [] \<longleftrightarrow> fb_buf r = [] \<and> fb_pos r = length (unlines (take (vis (fb_turn r)) ls))" "fb_turn r \<le> fb_turn r1"
    using fill_at_line [OF assms(1) less.prems(1)] by (auto split: if_splits)
  have tail: "unlines (drop k ls) = ls ! k @ 10 # unlines (drop (Suc k) ls)"
    using assms(2) by (metis Cons_nth_drop_Suc unlines_Cons(1))
  have left: "bytes @ drop (fb_pos r1) (unlines ls) = p @ 10 # unlines (drop (Suc k) ls)"
    using fill(2,3) tail less.prems(2) by (simp add: at_line_def)
  have "bytes \<noteq> []"
  proof
    assume e: "bytes = []"
    with fill(4) less.prems(3) have k: "k < vis (fb_turn r)" and at: "fb_pos r = length (unlines (take (vis (fb_turn r)) ls))" "fb_buf r = []" by auto
    have "fb_pos r \<le> length (unlines (take k ls)) + length (ls ! k)"
      using less.prems(1,2) at(2) by (simp add: at_line_def)
    moreover have "length (unlines (take (Suc k) ls)) \<le> length (unlines (take (vis (fb_turn r)) ls))"
      using unlines_take_mono [of "Suc k" "vis (fb_turn r)" ls] k by auto
    ultimately show False using at unlines_take_Suc [OF assms(2)] by simp
  qed
  note step = read_line_loop.simps [of "fd_fill_buf turns" fd_consume MAX_LINE_LENGTH r line None]
  have p: "10 \<notin> set p" "length line + length p \<le> MAX_LINE_LENGTH" using plain less.prems(2) by (auto simp: plain_line_def)
  show ?case
  proof (cases "length bytes \<le> length p")
    case True
    then obtain q where q: "p = bytes @ q" using left by (metis append_eq_append_conv_if append_take_drop_id)
    have nl: "position is_nl bytes = None" using p q by (auto simp: position_None)
    let ?r2 = "fd_consume (length bytes) r1"
    have r2: "at_line turns ls k (line @ bytes) ?r2" "fb_buf ?r2 = []" "fb_turn ?r2 = fb_turn r1"
      using fill(2,3) by (simp_all add: at_line_def fd_consume_def)
    have vis: "k < vis (fb_turn r1)"
    proof (rule ccontr)
      assume "\<not> k < vis (fb_turn r1)"
      then have "length (unlines (take (vis (fb_turn r1)) ls)) \<le> length (unlines (take k ls))"
        using unlines_take_mono [of "vis (fb_turn r1)" k ls] by auto
      then have "length (fdt_file (turns (fb_turn r1))) \<le> length (unlines (take k ls))" using assms(1) by (simp add: whole_lines_def)
      moreover have "0 < length bytes" using \<open>bytes \<noteq> []\<close> by simp
      ultimately show False using fill(3) unfolding at_line_def fill(2) by linarith
    qed
    have "length q < length p" using q \<open>bytes \<noteq> []\<close> by simp
    from less.hyps [OF this r2(1)] vis q less.prems(2) r2(3) fill(5) step fill(1) nl \<open>bytes \<noteq> []\<close> p show ?thesis by auto
  next
    case False
    then obtain b rest where b: "bytes = p @ b # rest" using left
      by (metis append_eq_append_conv_if append_take_drop_id drop_eq_Nil list.exhaust nat_le_linear)
    then have rest: "bytes = p @ 10 # rest" "rest @ drop (fb_pos r1) (unlines ls) = unlines (drop (Suc k) ls)" using left by auto
    have "position is_nl p = None" using p(1) by (auto simp: position_None)
    then have nl: "position is_nl bytes = Some (length p)" using rest(1) by (simp add: position_append)
    have head: "line @ p = ls ! k" "strip_trailing_cr (ls ! k) = ls ! k"
      using plain less.prems(2) by (auto simp: plain_line_def strip_trailing_cr_def)
    let ?r2 = "fd_consume (length p + 1) r1"
    have "length (ls ! k) = length line + length p" using head(1) by (metis length_append)
    then have "at_line turns ls (Suc k) [] ?r2"
      using fill(2,3) rest assms(2) head(1) unlines_take_Suc [OF assms(2)] by (auto simp: at_line_def fd_consume_def)
    moreover have "fb_turn ?r2 = fb_turn r1" by (simp add: fd_consume_def)
    ultimately show ?thesis using step fill(1,5) nl \<open>bytes \<noteq> []\<close> p(2) head rest(1) by auto
  qed
qed

lemma deliver_at_line:
  assumes "whole_lines turns ls vis" and "at_line turns ls k [] r"
  obtains (line) r' where "k < length ls" "deliver_line_to_consumers (fd_fill_buf turns) fd_consume consumers to_frame r =
       Some (Inr True, map (\<lambda>c. (c, to_frame (ls ! k))) consumers, r')" "at_line turns ls (Suc k) [] r'" "fb_turn r \<le> fb_turn r'"
  | (closed) r' where "k = vis (fb_turn r)" "deliver_line_to_consumers (fd_fill_buf turns) fd_consume consumers to_frame r = Some (Inr False, [], r')"
      "at_line turns ls k [] r'" "fb_turn r' = Suc (fb_turn r)"
proof (cases "fb_buf r = [] \<and> vis (fb_turn r) \<le> k")
  case True
  have pos: "fb_pos r = length (unlines (take k ls))" "k \<le> length ls" "fb_pos r \<le> length (unlines (take (vis (fb_turn r)) ls))"
    using assms True by (simp_all add: at_line_def whole_lines_def)
  have k: "k = vis (fb_turn r)"
    using unlines_take_less [of "vis (fb_turn r)" k ls] pos True by (metis le_neq_implies_less linorder_not_less)
  obtain r1 where "fd_fill_buf turns r = (Inr [], r1)" "at_line turns ls k [] r1" "fb_turn r1 = Suc (fb_turn r)"
    using fill_at_line [OF assms] True pos k by (metis (no_types, lifting))
  then show thesis using k
    by (intro closed [of r1]) (simp_all add: deliver_line_to_consumers_def read_line_limited_def read_line_loop.simps)
next
  case False
  have "k < length ls"
  proof (rule ccontr)
    assume k: "\<not> k < length ls"
    then have "fb_buf r = []" using assms(2) by (simp add: at_line_def)
    moreover have "vis (fb_turn r) \<le> length ls" using assms(1) by (simp add: whole_lines_def)
    ultimately show False using False k by linarith
  qed
  moreover obtain r' where "read_line_loop (fd_fill_buf turns) fd_consume MAX_LINE_LENGTH r [] None = Some (Inr (Line (ls ! k)), r')"
    "at_line turns ls (Suc k) [] r'" "fb_turn r \<le> fb_turn r'"
    using read_line_at_line [OF assms(1) \<open>k < length ls\<close> assms(2), of "ls ! k"] False by auto
  ultimately show thesis by (intro line [of r']) (simp_all add: deliver_line_to_consumers_def read_line_limited_def)
qed

lemma fd_consumer_task_lines:
  assumes "whole_lines turns ls vis" and "\<And>i. T \<le> i \<Longrightarrow> fdt_stop (turns i)"
  shows "at_line turns ls k [] r \<Longrightarrow> \<exists>n. k \<le> vis n \<and> (fdt_stop (turns n) \<or> fdt_exit_code (turns n) \<noteq> None) \<and>
     fd_consumer_task turns consumers to_frame r observed = Some (deliveries consumers to_frame (drop k (take (vis n) ls)))"
proof (induction "(length ls - k) + (T - fb_turn r)" arbitrary: k r observed rule: less_induct)
  case less
  note step = fd_consumer_task.simps [of turns consumers to_frame r observed]
  from assms(1) less.prems show ?case
  proof (cases rule: deliver_at_line [where consumers = consumers and to_frame = to_frame])
    case (line r')
    have "(length ls - Suc k) + (T - fb_turn r') < (length ls - k) + (T - fb_turn r)" using line(1,4) by simp
    from less.hyps [OF this line(3)] obtain n where n: "Suc k \<le> vis n" "fdt_stop (turns n) \<or> fdt_exit_code (turns n) \<noteq> None"
      "fd_consumer_task turns consumers to_frame r' observed = Some (deliveries consumers to_frame (drop (Suc k) (take (vis n) ls)))"
      by blast
    have "k < length (take (vis n) ls)" using n(1) line(1) by simp
    then have "drop k (take (vis n) ls) = ls ! k # drop (Suc k) (take (vis n) ls)"
      using n(1) by (metis Cons_nth_drop_Suc Suc_le_lessD nth_take)
    with n line(2) step show ?thesis by (intro exI [of _ n]) simp
  next
    case (closed r')
    let ?t = "turns (fb_turn r)"
    obtain stop observed' where td: "task_done ?t observed = (stop, observed')" by fastforce
    show ?thesis
    proof (cases stop)
      case True
      then have "fdt_stop ?t \<or> fdt_exit_code ?t \<noteq> None" using td by (auto simp: task_done_def split: if_splits)
      with True closed td step show ?thesis by (intro exI [of _ "fb_turn r"]) simp
    next
      case False
      then have "\<not> fdt_stop ?t" using td by (auto simp: task_done_def)
      then have "fb_turn r < T" using assms(2) [of "fb_turn r"] by (meson not_le)
      then have "(length ls - k) + (T - fb_turn r') < (length ls - k) + (T - fb_turn r)" using closed(4) by simp
      from less.hyps [OF this closed(3), of observed'] obtain n where "k \<le> vis n" "fdt_stop (turns n) \<or> fdt_exit_code (turns n) \<noteq> None"
        "fd_consumer_task turns consumers to_frame r' observed' = Some (deliveries consumers to_frame (drop k (take (vis n) ls)))" by blast
      with False closed(2,4) td step show ?thesis by (intro exI [of _ n]) simp
    qed
  qed
qed

section \<open>Properties\<close>

text \<open>
  C26. On macOS the delivery task polls a log file that is still written. If the file grows by whole lines of
  at most 8 MiB without a carriage return at the end, no read of it fails, and the task is told to stop at
  some time, then it ends, and every consumer has received exactly the lines the file had at one moment, in order: at the first
  end of file at which the task was told to stop, or after the container exited. (A longer line is cut to its first 8 MiB,
  and a read error ends the task.)
\<close>

theorem fd_consumer_delivers_lines:
  assumes "whole_lines turns ls vis" and "\<And>i. T \<le> i \<Longrightarrow> fdt_stop (turns i)"
  shows "\<exists>n. (fdt_stop (turns n) \<or> fdt_exit_code (turns n) \<noteq> None) \<and>
     fd_consumer_task turns consumers to_frame fd_buf_new None = Some (deliveries consumers to_frame (take (vis n) ls))"
proof -
  have "at_line turns ls 0 [] fd_buf_new" by (simp add: at_line_def fd_buf_new_def)
  from fd_consumer_task_lines [OF assms this, where observed = None] show ?thesis by simp
qed

definition growing_log :: "nat \<Rightarrow> fd_turn" where
  "growing_log i = \<lparr>fdt_errors = [], fdt_file = unlines (take (min i 2) [[104], [105]]), fdt_most = 1, fdt_stop = (5 \<le> i), fdt_exit_code = None,
     fdt_clock = 0, fdt_awake = True\<rparr>"

theorem fd_consumer_delivers_lines_witness:
  "fd_consumer_task growing_log [()] StdOut fd_buf_new None = Some [((), StdOut [104]), ((), StdOut [105])]"
proof -
  have whole: "whole_lines growing_log [[104], [105]] (\<lambda>i. min i 2)"
    by (auto simp: whole_lines_def growing_log_def mono_def plain_line_def MAX_LINE_LENGTH_def min_def)
  have "5 \<le> i \<Longrightarrow> fdt_stop (growing_log i)" for i by (simp add: growing_log_def)
  from fd_consumer_delivers_lines [OF whole this, where consumers = "[()]" and to_frame = StdOut] obtain n where
    ended: "fdt_stop (growing_log n) \<or> fdt_exit_code (growing_log n) \<noteq> None" and
    run: "fd_consumer_task growing_log [()] StdOut fd_buf_new None = Some (deliveries [()] StdOut (take (min n 2) [[104], [105]]))"
    by blast
  from ended have "min n 2 = 2" by (simp add: growing_log_def)
  with run show ?thesis by simp
qed

definition torn_turn :: "u8 list \<Rightarrow> bool \<Rightarrow> fd_turn" where
  "torn_turn bytes stop = \<lparr>fdt_errors = [], fdt_file = bytes, fdt_most = 8192, fdt_stop = stop, fdt_exit_code = None, fdt_clock = 0, fdt_awake = True\<rparr>"

text \<open>
  C28. A line that is written in two parts is torn: if the task reads between the two, the consumer
  receives the parts as two lines.
\<close>

theorem fd_consumer_tears_line:
  "\<exists>turns. (\<forall>i. prefix (fdt_file (turns i)) (fdt_file (turns (Suc i)))) \<and> (\<forall>i. fdt_file (turns (i + 2)) = unlines [[97, 98, 99]]) \<and>
     fd_consumer_task turns [consumer] StdOut fd_buf_new None = Some (deliveries [consumer] StdOut [[97, 98], [99]])"
proof -
  define turns where "turns i = (if i \<le> 1 then torn_turn [97, 98] False else torn_turn [97, 98, 99, 10] True)" for i :: nat
  note eval = deliver_line_to_consumers_def read_line_limited_def read_line_loop.simps fd_fill_buf_def fd_read_at_def fd_consume_def
    position.simps turns_def torn_turn_def strip_trailing_cr_def MAX_LINE_LENGTH_def
  have "deliver_line_to_consumers (fd_fill_buf turns) fd_consume [consumer] StdOut fd_buf_new =
      Some (Inr True, [(consumer, StdOut [97, 98])], \<lparr>fb_buf = [], fb_pos = 2, fb_turn = 2\<rparr>)"
    by (simp add: eval fd_buf_new_def)
  moreover have "deliver_line_to_consumers (fd_fill_buf turns) fd_consume [consumer] StdOut \<lparr>fb_buf = [], fb_pos = 2, fb_turn = 2\<rparr> =
      Some (Inr True, [(consumer, StdOut [99])], \<lparr>fb_buf = [], fb_pos = 4, fb_turn = 3\<rparr>)"
    by (simp add: eval)
  moreover have "deliver_line_to_consumers (fd_fill_buf turns) fd_consume [consumer] StdOut \<lparr>fb_buf = [], fb_pos = 4, fb_turn = 3\<rparr> =
      Some (Inr False, [], \<lparr>fb_buf = [], fb_pos = 4, fb_turn = 4\<rparr>)"
    by (simp add: eval)
  moreover have "task_done (turns 3) None = (True, None)" by (simp add: task_done_def turns_def torn_turn_def)
  ultimately have "fd_consumer_task turns [consumer] StdOut fd_buf_new None = Some (deliveries [consumer] StdOut [[97, 98], [99]])"
    by (simp add: fd_consumer_task.simps)
  moreover have "prefix (fdt_file (turns i)) (fdt_file (turns (Suc i)))" for i by (simp add: turns_def torn_turn_def)
  moreover have "\<forall>i. fdt_file (turns (i + 2)) = unlines [[97, 98, 99]]" by (simp add: turns_def torn_turn_def)
  ultimately show ?thesis by (intro exI [of _ turns]) simp
qed

section \<open>Following a log\<close>

lemma read_at_end:
  assumes "fd_read_at len t pos = (Inr bytes, pos')"
  shows "pos' = pos + length bytes" "bytes = take (length bytes) (drop pos (fdt_file t))"
    "bytes = [] \<Longrightarrow> 0 < len \<Longrightarrow> 0 < fdt_most t \<Longrightarrow> length (fdt_file t) \<le> pos"
proof -
  have whole: "pread_loop es bs = Inr cs \<Longrightarrow> cs = bs" for es bs cs by (induction es) (auto split: if_splits)
  from assms have "bytes = take (min len (fdt_most t)) (drop pos (fdt_file t))" "pos' = pos + length bytes"
    by (auto simp: fd_read_at_def dest: whole split: sum.splits)
  then show "pos' = pos + length bytes" "bytes = take (length bytes) (drop pos (fdt_file t))"
    "bytes = [] \<Longrightarrow> 0 < len \<Longrightarrow> 0 < fdt_most t \<Longrightarrow> length (fdt_file t) \<le> pos"
    by (simp_all add: min_def split: if_splits)
qed

text \<open>The next bytes of the file as one of the reads found it, or its end there.\<close>

definition reads_on :: "(nat \<Rightarrow> fd_turn) \<Rightarrow> bool \<Rightarrow> nat \<Rightarrow> nat \<Rightarrow> nat \<Rightarrow> (io_error + u8 list) \<times> nat \<times> nat \<Rightarrow> bool" where
  "reads_on turns follow len pos n result =
     (case result of
        (Inl _, _) \<Rightarrow> True
      | (Inr bytes, pos', n') \<Rightarrow>
          \<exists>m \<ge> n. n' = Suc m \<and> pos' = pos + length bytes \<and> bytes = take (length bytes) (drop pos (fdt_file (turns m))) \<and>
            (bytes = [] \<longrightarrow> 0 < len \<longrightarrow> 0 < fdt_most (turns m) \<longrightarrow>
               length (fdt_file (turns m)) \<le> pos \<and> (\<not> follow \<or> should_stop_follow (turns m))))"

lemma follow_loop_reads: "follow_read_loop turns follow len pos n = Some result \<Longrightarrow> reads_on turns follow len pos n result"
proof (erule follow_read_loop.raw_induct [rotated])
  fix loop :: "(nat \<Rightarrow> fd_turn) \<Rightarrow> bool \<Rightarrow> nat \<Rightarrow> nat \<Rightarrow> nat \<Rightarrow> ((io_error + u8 list) \<times> nat \<times> nat) option" and turns follow len pos n result
  assume IH: "\<And>turns follow len pos n result. loop turns follow len pos n = Some result \<Longrightarrow> reads_on turns follow len pos n result"
    and run: "(case fd_read_at len (turns n) pos of
        (Inl e, pos') \<Rightarrow> Some (Inl e, pos', Suc n)
      | (Inr bytes, pos') \<Rightarrow>
          if bytes = [] \<and> follow \<and> \<not> should_stop_follow (turns n) then loop turns follow len pos' (Suc n)
          else Some (Inr bytes, pos', Suc n)) = Some result"
  show "reads_on turns follow len pos n result"
  proof (cases "fd_read_at len (turns n) pos")
    case (Pair r pos')
    show ?thesis
    proof (cases r)
      case (Inl e)
      with Pair run show ?thesis by (auto simp: reads_on_def)
    next
      case (Inr bytes)
      note at = read_at_end [OF Pair [unfolded Inr]]
      show ?thesis
      proof (cases "bytes = [] \<and> follow \<and> \<not> should_stop_follow (turns n)")
        case True
        then have "reads_on turns follow len pos (Suc n) result" using IH [of turns follow len pos' "Suc n" result] run Pair Inr at(1) by simp
        then show ?thesis by (auto simp: reads_on_def split: sum.splits)
      next
        case False
        then have "result = (Inr bytes, pos', Suc n)" using run Pair Inr by auto
        with at False show ?thesis by (auto simp: reads_on_def)
      qed
    qed
  qed
qed

text \<open>
  C27. A read of a log, following it or not, gives the next bytes of the file and moves only this reader's
  position, past them. It reports the end of the log only where the file ends at that moment, and while it
  follows only after the delivery was stopped or an exit code recorded; it returns as soon as there
  is something to read or it is to stop.
\<close>

theorem follow_reader_reads_on:
  assumes "0 < len" and "\<And>i. 0 < fdt_most (turns i) \<and> fdt_errors (turns i) = []"
    and "n \<le> k" and "pos < length (fdt_file (turns k)) \<or> \<not> follow \<or> should_stop_follow (turns k)"
  shows "\<exists>bytes m. follow_read turns follow len pos n = Some (Inr bytes, pos + length bytes, Suc m) \<and> n \<le> m \<and>
     bytes = take (length bytes) (drop pos (fdt_file (turns m))) \<and>
     (bytes = [] \<longrightarrow> length (fdt_file (turns m)) \<le> pos \<and> (\<not> follow \<or> should_stop_follow (turns m)))"
proof -
  define found where "found n = take (min len (fdt_most (turns n))) (drop pos (fdt_file (turns n)))" for n
  have at: "fd_read_at len (turns n) pos = (Inr (found n), pos + length (found n))" for n using assms(2) by (simp add: fd_read_at_def found_def)
  have "\<exists>bytes pos' n'. follow_read_loop turns follow len pos n = Some (Inr bytes, pos', n')"
    using assms(3)
  proof (induction "k - n" arbitrary: n)
    case 0
    have "0 < min len (fdt_most (turns n))" using assms(1,2) by simp
    then have "\<not> (found n = [] \<and> follow \<and> \<not> should_stop_follow (turns n))" using 0 assms(4) by (simp add: found_def del: min_less_iff_conj) auto
    with at [of n] show ?case by (subst follow_read_loop.simps) auto
  next
    case (Suc d)
    show ?case
    proof (cases "found n = [] \<and> follow \<and> \<not> should_stop_follow (turns n)")
      case True
      moreover have "d = k - Suc n" "Suc n \<le> k" using Suc by simp_all
      ultimately show ?thesis using Suc.hyps(1) [of "Suc n"] at [of n] by (subst follow_read_loop.simps) auto
    next
      case False
      with at [of n] show ?thesis by (subst follow_read_loop.simps) auto
    qed
  qed
  then obtain bytes pos' n' where run: "follow_read_loop turns follow len pos n = Some (Inr bytes, pos', n')" by blast
  from follow_loop_reads [OF run] assms(1,2) run show ?thesis by (auto simp: reads_on_def follow_read_def)
qed

theorem follow_reader_reads_on_witness:
  "\<exists>bytes m. follow_read growing_log True 8192 0 0 = Some (Inr bytes, length bytes, Suc m) \<and>
     bytes = take (length bytes) (fdt_file (growing_log m)) \<and> (bytes = [] \<longrightarrow> fdt_file (growing_log m) = [] \<and> should_stop_follow (growing_log m))"
proof -
  have "0 < fdt_most (growing_log i) \<and> fdt_errors (growing_log i) = []" for i by (simp add: growing_log_def)
  moreover have "(0 :: nat) < length (fdt_file (growing_log 1)) \<or> \<not> True \<or> should_stop_follow (growing_log 1)" by (simp add: growing_log_def)
  ultimately show ?thesis using follow_reader_reads_on [of 8192 growing_log 0 1 0 True] by auto
qed

text \<open>
  The exit code is looked at after the read: bytes that are written between the two, before the code
  is recorded, are not seen by a reader that follows the log.
\<close>

lemma follow_reader_misses_end:
  "\<exists>turns. should_stop_follow (turns 0) \<and> length (fdt_file (turns 0)) < length (fdt_file (turns 1)) \<and>
     follow_read turns True 8192 (length (fdt_file (turns 0))) 0 = Some (Inr [], length (fdt_file (turns 0)), 1)"
proof -
  define turns where "turns i = (torn_turn (if i = 0 then [97] else [97, 98]) False)\<lparr>fdt_exit_code := Some 0\<rparr>" for i :: nat
  have "follow_read turns True 8192 1 0 = Some (Inr [], 1, 1)"
    by (simp add: follow_read_def follow_read_loop.simps fd_read_at_def turns_def torn_turn_def should_stop_follow_def)
  then show ?thesis by (intro exI [of _ turns]) (simp add: turns_def torn_turn_def should_stop_follow_def)
qed

end
