(* ===== verification/Mac_Runner.thy ===== *)
theory Mac_Runner
  imports Mac_Container Runner
begin

text \<open>
  \<open>AsyncRunner\<close> of \<open>src/runners/async_runner.rs\<close> on macOS: a request is checked, its image resolved
  or pulled and its configuration read, kernel and volumes resolved, the container created,
  bootstrapped, started, filled and waited for, with a rollback on every failure from the creation
  on.
\<close>

section \<open>What surrounds a start\<close>

text \<open>
  The architecture the library was built for, the ports the operating system hands out, the clock,
  the operations of \<open>f64\<close>, and whether the library was built with the watchdog.
\<close>

record 'f mac_env =
  me_arch :: string
  me_free_ports :: "xevent list \<Rightarrow> free_ports"
  me_now :: "xevent list \<Rightarrow> duration option"
  me_f64 :: "'f f64_ops"
  me_watchdog :: bool

section \<open>Before the creation\<close>

definition resolve_or_pull_macos :: "('v, 'f) xworld \<Rightarrow> string \<Rightarrow> string \<Rightarrow> string option \<Rightarrow> string xio" where
  "resolve_or_pull_macos w d arch resolve_platform =
     (if resolve_platform = Some ''linux/amd64'' then
        io_bind (xpc_pull_image w d (Some arch)) (\<lambda>_. xpc_resolve_image_descriptor w d)
      else
        io_bind (io_catch (xpc_resolve_image_descriptor w d)) (\<lambda>r.
        case r of
          Inr desc \<Rightarrow> io_lift (Inr desc)
        | Inl e \<Rightarrow>
            (case e of
               Client (ImageNotFound _) \<Rightarrow>
                 io_bind (xpc_pull_image w d (map_option (\<lambda>_. arch) resolve_platform)) (\<lambda>_.
                 xpc_resolve_image_descriptor w d)
             | _ \<Rightarrow> io_lift (Inl e))))"

definition mac_runner_pull_image :: "('v, 'f) xworld \<Rightarrow> 'c container_request \<Rightarrow> 'c container_request xio" where
  "mac_runner_pull_image w req =
     (let (arch, _, resolve_platform) = normalize_platform (cr_platform req)
      in io_bind (xpc_pull_image w (descriptor req) (map_option (\<lambda>_. arch) resolve_platform)) (\<lambda>_. io_lift (Inr req)))"

definition validate_kernel_path :: "mac_runtime \<Rightarrow> string \<Rightarrow> unit result" where
  "validate_kernel_path rt path =
     (if \<not> is_absolute path then Inl (Client (Configuration (''kernel path must be absolute: '' @ path_display path)))
      else if from_utf8 (as_bytes path) = None then
        Inl (Client (Configuration (''kernel path is not valid UTF-8: '' @ path_display path)))
      else if \<not> mr_is_file rt path then Inl (Client (Configuration (''kernel path is not a file: '' @ path_display path)))
      else Inr ())"

text \<open>The id of the container: its name, or one made up.\<close>

definition mac_container_id :: "('v, 'f) xworld \<Rightarrow> 'c container_request \<Rightarrow> string xio" where
  "mac_container_id w req =
     (case cr_container_name req of
        Some name \<Rightarrow> io_lift (Inr name)
      | None \<Rightarrow> io_bind (next_suffix w) (\<lambda>suffix. io_lift (Inr (''c-'' @ suffix))))"

definition mac_check_request :: "('v, 'f) xworld \<Rightarrow> mac_runtime \<Rightarrow> 'c container_request \<Rightarrow> string \<Rightarrow> unit result" where
  "mac_check_request w rt req i =
     rbind (if is_valid_container_id i then Inr ()
            else Inl (Other (''invalid container id '' @ xw_debug w i
              @ '': must match ^[a-zA-Z0-9][a-zA-Z0-9_.-]+$ and be at most 63 characters''))) (\<lambda>_.
     rbind (reject_sctp_ports req) (\<lambda>_.
     rbind (case cr_ports req of Some ports \<Rightarrow> reject_duplicate_mapped_ports ports | None \<Rightarrow> Inr ()) (\<lambda>_.
     case cr_kernel req of Some path \<Rightarrow> validate_kernel_path rt path | None \<Rightarrow> Inr ())))"

text \<open>Everything \<open>start\<close> resolves before it creates the container.\<close>

definition mac_prepare ::
  "('v, 'f) xworld \<Rightarrow> 'f mac_env \<Rightarrow> 'c container_request \<Rightarrow> string \<Rightarrow> ('f container_cfg \<times> u8 list) xio" where
  "mac_prepare w env req i =
     (let (arch, _, resolve_platform) = normalize_platform (cr_platform req)
      in io_bind (resolve_or_pull_macos w (descriptor req) arch resolve_platform) (\<lambda>desc_raw.
         io_bind (resolve_image_config (xw_json w) (me_arch env) (xpc_content_get w) desc_raw resolve_platform) (\<lambda>ic.
         io_bind (case cr_kernel req of Some path \<Rightarrow> io_lift (Inr (kernel_json w path)) | None \<Rightarrow> get_default_kernel w) (\<lambda>kernel_bytes.
         io_bind (resolve_volumes w req) (\<lambda>resolutions h.
         (rbind (build_config (me_free_ports env h) (me_f64 env) (me_now env h) req i desc_raw ic resolutions)
            (\<lambda>cfg. Inr (cfg, kernel_bytes)), h))))))"

section \<open>After the creation\<close>

definition mac_rollback_remove :: "('v, 'f) xworld \<Rightarrow> string \<Rightarrow> unit xio" where
  "mac_rollback_remove w i =
     (if mac_removal_wanted w then io_bind (io_catch (xpc_remove w i True)) (\<lambda>_. io_lift (Inr ())) else io_lift (Inr ()))"

text \<open>\<open>if let Err(e) = .. { rollback_remove(..).await; return Err(e); }\<close>\<close>

definition or_rollback :: "('v, 'f) xworld \<Rightarrow> string \<Rightarrow> 'a xio \<Rightarrow> 'a xio" where
  "or_rollback w i m =
     io_bind (io_catch m) (\<lambda>r.
     case r of Inr x \<Rightarrow> io_lift (Inr x) | Inl e \<Rightarrow> io_bind (mac_rollback_remove w i) (\<lambda>_. io_lift (Inl e)))"

definition chown_after_copy :: "('v, 'f) xworld \<Rightarrow> string \<Rightarrow> string \<Rightarrow> u32 \<Rightarrow> u32 \<Rightarrow> bool \<Rightarrow> unit xio" where
  "chown_after_copy w i path uid gid recursive =
     (if uid = 0 \<and> gid = 0 then io_lift (Inr ())
      else io_bind (io_catch (xpc_exec w i
             ([''chown''] @ (if recursive then [''-R''] else []) @ [show_nat (unat uid) @ '':'' @ show_nat (unat gid), path]) []))
             (\<lambda>_. io_lift (Inr ())))"

text \<open>The file exists from its creation on; the guard removes it if the write fails.\<close>

definition write_copy_data_temp :: "('v, 'f) xworld \<Rightarrow> mac_runtime \<Rightarrow> u8 list \<Rightarrow> string xio" where
  "write_copy_data_temp w rt bytes =
     io_bind (next_suffix w) (\<lambda>suffix h.
     (let path = path_join (mr_temp_dir rt) (''shiguredo_container_copy_'' @ suffix @ ''.bin'')
      in case mr_create_temp rt h path of
           Some e \<Rightarrow> (Inl (Other (''failed to create temp file for copy_to: '' @ io_text e)), h)
         | None \<Rightarrow>
             (case mr_write_temp rt h path bytes of
                Some e \<Rightarrow> (Inl (Other (''failed to write temp file for copy_to: '' @ io_text e)), h @ [CreateTemp path, RemoveTemp path])
              | None \<Rightarrow> (Inr path, h @ [CreateTemp path]))))"

definition mac_copy_source :: "('v, 'f) xworld \<Rightarrow> mac_runtime \<Rightarrow> string \<Rightarrow> copy_to_container \<Rightarrow> unit xio" where
  "mac_copy_source w rt i src =
     (let t = cp_target src
      in case cp_source src of
           SourceFile p \<Rightarrow>
             io_bind (copy_in w i p (ct_path t) (ct_mode t)) (\<lambda>_.
             chown_after_copy w i (ct_path t) (ct_uid t) (ct_gid t) (mr_is_dir rt p))
         | SourceData b \<Rightarrow>
             io_bind (write_copy_data_temp w rt b) (\<lambda>path.
             io_bind (on_error [RemoveTemp path] (copy_in w i path (ct_path t) (ct_mode t))) (\<lambda>_.
             io_bind (chown_after_copy w i (ct_path t) (ct_uid t) (ct_gid t) False) (\<lambda>_.
             io_event (RemoveTemp path)))))"

definition mac_copy_to_sources :: "('v, 'f) xworld \<Rightarrow> mac_runtime \<Rightarrow> string \<Rightarrow> 'c container_request \<Rightarrow> unit xio" where
  "mac_copy_to_sources w rt i req = io_for (mac_copy_source w rt i) (copy_to_sources req)"

definition log_fd_required_error :: "error \<Rightarrow> error" where
  "log_fd_required_error cause =
     Other (''log wait requires log file descriptors, but containerLogs failed: '' @ error_text cause)"

definition mac_log_source_for :: "('v, 'f) xworld \<Rightarrow> string \<Rightarrow> wait_for list \<Rightarrow> mac_log_source xio" where
  "mac_log_source_for w i conds =
     io_bind (io_catch (xpc_logs w i)) (\<lambda>r.
     case r of
       Inr (out, err) \<Rightarrow> io_lift (Inr (LogFds out err))
     | Inl e \<Rightarrow>
         if ready_conditions_require_log conds then
           io_bind (mac_rollback_remove w i) (\<lambda>_. io_lift (Inl (log_fd_required_error e)))
         else io_lift (Inr NoLogFds))"

definition hosts_command :: "string \<Rightarrow> string \<Rightarrow> exec_command" where
  "hosts_command ip hostname =
     with_cmd_ready_condition (CmdExit (Some 0))
       (exec_command_new [''sh'', ''-c'',
          ''printf '' @ [CHR 0x27] @ ''%s'' @ [CHR 0x5C] @ ''t%s'' @ [CHR 0x5C] @ ''n'' @ [CHR 0x27] @ '' '' @ [CHR 0x22] @ ''$1'' @ [CHR 0x22]
            @ '' '' @ [CHR 0x22] @ ''$2'' @ [CHR 0x22] @ '' >> /etc/hosts'',
          ''_'', ip, hostname])"

definition apply_extra_host :: "('v, 'f) xworld \<Rightarrow> mac_runtime \<Rightarrow> 'c mac_container \<Rightarrow> string \<times> extra_host \<Rightarrow> unit xio" where
  "apply_extra_host w rt c = (\<lambda>(hostname, host).
     io_bind (case host of
         Addr ip \<Rightarrow> io_lift (Inr ip)
       | HostGateway \<Rightarrow>
           io_bind (io_map_err (\<lambda>e. Other (''failed to resolve host gateway IP for with_host(..., HostGateway): '' @ error_text e))
             (mac_gateway_ip_address w c)) (\<lambda>gw. io_lift (Inr (show_ip_addr gw)))) (\<lambda>ip.
     io_bind (mac_exec w rt c (hosts_command ip hostname)) (\<lambda>_. io_lift (Inr ()))))"

definition apply_extra_hosts :: "('v, 'f) xworld \<Rightarrow> mac_runtime \<Rightarrow> 'c mac_container \<Rightarrow> (string \<times> extra_host) list \<Rightarrow> unit xio" where
  "apply_extra_hosts w rt c hosts = io_for (apply_extra_host w rt c) hosts"

text \<open>The handle is dropped where it is not removed explicitly.\<close>

definition mac_cleanup_on_ready_failure :: "('v, 'f) xworld \<Rightarrow> 'c mac_container \<Rightarrow> error \<Rightarrow> 'c mac_container xio" where
  "mac_cleanup_on_ready_failure w c e =
     io_bind (if mac_removal_wanted w then io_bind (io_catch (mac_rm w c)) (\<lambda>_. io_lift (Inr ()))
              else mac_drop w c) (\<lambda>_.
     io_lift (Inl e))"

definition mac_ready_sequence :: "('v, 'f) xworld \<Rightarrow> mac_runtime \<Rightarrow> 'c mac_container \<Rightarrow> duration \<Rightarrow> wait_for list \<Rightarrow> unit xio" where
  "mac_ready_sequence w rt c timeout conds =
     io_bind (mac_container_state w c) (\<lambda>state.
     io_bind (io_lift (img_exec_before_ready (cr_image (mac_request c)) state)) (\<lambda>cmds.
     io_bind (mac_exec_all w rt c cmds) (\<lambda>_.
     io_bind (mac_block_with_timeout w rt (mac_id c) timeout conds) (\<lambda>_.
     io_bind (mac_container_state w c) (\<lambda>state.
     io_bind (io_lift (img_exec_after_start (cr_image (mac_request c)) state)) (\<lambda>cmds.
     mac_exec_all w rt c cmds))))))"

text \<open>\<open>if let Err(e) = .. { return cleanup_on_ready_failure(container, e).await; }\<close>\<close>

definition or_cleanup :: "('v, 'f) xworld \<Rightarrow> 'c mac_container \<Rightarrow> unit xio \<Rightarrow> 'c mac_container xio" where
  "or_cleanup w c m =
     io_bind (io_catch m) (\<lambda>r. case r of Inl e \<Rightarrow> mac_cleanup_on_ready_failure w c e | Inr _ \<Rightarrow> io_lift (Inr c))"

definition mac_run_ready_sequence :: "('v, 'f) xworld \<Rightarrow> mac_runtime \<Rightarrow> 'c mac_container \<Rightarrow> duration \<Rightarrow> wait_for list \<Rightarrow> 'c mac_container xio" where
  "mac_run_ready_sequence w rt c timeout conds = or_cleanup w c (mac_ready_sequence w rt c timeout conds)"

definition mac_after_create :: "('v, 'f) xworld \<Rightarrow> mac_runtime \<Rightarrow> 'f mac_env \<Rightarrow> 'c container_request \<Rightarrow> string \<Rightarrow> 'c mac_container xio" where
  "mac_after_create w rt env req i =
     io_bind (if me_watchdog env \<and> mac_removal_wanted w then io_event (RegisterWatchdog i) else io_lift (Inr ())) (\<lambda>_.
     io_bind (or_rollback w i (bootstrap_container w i)) (\<lambda>_.
     io_bind (or_rollback w i (start_process w i)) (\<lambda>_.
     io_bind (or_rollback w i (mac_copy_to_sources w rt i req)) (\<lambda>_.
     io_bind (io_event (SpawnExitWaiter i (ws_generation new_wait_state))) (\<lambda>_.
     io_bind (mac_log_source_for w i (ready_conditions req)) (\<lambda>source.
     io_bind (mac_container_new rt i req source) (\<lambda>c.
     io_bind (or_cleanup w c (apply_extra_hosts w rt c (cr_hosts req))) (\<lambda>_.
     mac_run_ready_sequence w rt c (startup_timeout req) (ready_conditions req)))))))))"

section \<open>Start\<close>

definition mac_runner_start :: "('v, 'f) xworld \<Rightarrow> mac_runtime \<Rightarrow> 'f mac_env \<Rightarrow> 'c container_request \<Rightarrow> 'c mac_container xio" where
  "mac_runner_start w rt env req =
     (if cr_health_check req \<noteq> None then io_lift (Inl (Other ''with_health_check() is not supported on macOS''))
      else
        io_bind (mac_container_id w req) (\<lambda>i.
        io_bind (io_lift (mac_check_request w rt req i)) (\<lambda>_.
        io_bind (mac_prepare w env req i) (\<lambda>(cfg, kernel_bytes).
        io_bind (or_rollback w i (xpc_create_container w (container_cfg_json cfg) kernel_bytes)) (\<lambda>_.
        mac_after_create w rt env req i)))))"

end
