(* ===== verification/Mac_Events.thy ===== *)
theory Mac_Events
  imports Mac_Runner
begin

text \<open>
  What the operations on a macOS container can do to the outside. The locales collect what a class
  of events must allow for the operations on one container to stay within it: first those that hold no
  descriptor, then all of them. They are interpreted for the events that own nothing and for
  those that neither create nor delete a container.
\<close>

section \<open>Classes of events\<close>

definition lifecycle_route :: "string \<Rightarrow> bool" where
  "lifecycle_route route \<longleftrightarrow> route = ''containerCreate'' \<or> route = ''containerDelete''"

lemma emits_route:
  assumes "\<And>m. msg_route m = route \<Longrightarrow> P (XpcSend m)"
  shows "emits P (send_with_timeout w conn route entries t)" and "emits P (send w conn route entries)"
  using assms by (auto simp: emits_def send_def send_with_timeout_def Let_def)

lemma emits_hint: "emits P m \<Longrightarrow> (\<And>x. emits P (k x)) \<Longrightarrow> emits P (\<lambda>h. case f h of None \<Rightarrow> m h | Some x \<Rightarrow> k x h)"
  unfolding emits_def by (auto split: option.split)

locale quiet_events =
  fixes P :: "xevent \<Rightarrow> bool"
  assumes quiet_send: "\<not> lifecycle_route (msg_route m) \<Longrightarrow> P (XpcSend m)"
    and quiet_suffix: "P TakeSuffix"
    and quiet_sleep: "P (XSleep d)"
    and quiet_store: "P (StoreExitCode g code)"
    and quiet_waiter: "P (SpawnExitWaiter i g)"
    and quiet_watchdog: "P (RegisterWatchdog i)"
    and quiet_stop: "P (SetStop k)"
    and quiet_consumer: "P (SpawnFdConsumer k fd src)"
begin

lemma emits_message:
  "\<not> lifecycle_route route \<Longrightarrow> emits P (send_with_timeout w conn route entries t)"
  "\<not> lifecycle_route route \<Longrightarrow> emits P (send w conn route entries)"
  by (auto intro!: emits_route quiet_send)

lemmas messages = emits_message [unfolded lifecycle_route_def]

lemma emits_suffix: "emits P (next_suffix w)"
  by (simp add: emits_def next_suffix_def quiet_suffix)

lemma emits_call [emits_intros]: "(\<And>conn. emits P (f conn)) \<Longrightarrow> emits P (call w s f)"
  unfolding call_def by (intro emits_intros) simp_all

lemma emits_done [emits_intros]: "emits P m \<Longrightarrow> emits P (done_reply m)"
  unfolding done_reply_def by (intro emits_intros)

lemma emits_first_container: "emits P (with_first_container w i f)"
  unfolding with_first_container_def by (intro emits_intros messages) simp_all

lemma emits_state: "emits P (xpc_container_state w i)" "emits P (xpc_ports w i)" "emits P (gateway_ip_address w i)"
  unfolding xpc_ports_def xpc_container_state_def gateway_ip_address_def network_address_def
  by (intro emits_intros emits_first_container)+

lemma emits_container_state: "emits P (mac_container_state w c)" "emits P (mac_gateway_ip_address w c)" "emits P (mac_port_of w i lookup p)"
  unfolding mac_container_state_def mac_gateway_ip_address_def mac_port_of_def by (intro emits_intros emits_state)+

lemma emits_copy_in: "emits P (copy_in w i source destination mode)"
  unfolding copy_in_def by (intro emits_intros messages) simp

lemma emits_start_up: "emits P (bootstrap_container w i)" "emits P (start_process w i)"
  unfolding bootstrap_container_def start_process_def by (intro emits_intros messages; simp)+

lemma emits_image: "emits P (xpc_pull_image w d a)" "emits P (xpc_resolve_image_descriptor w d)" "emits P (xpc_content_get w g)"
  "emits P (get_default_kernel w)"
proof -
  show "emits P (xpc_content_get w g)" unfolding xpc_content_get_def
    by (intro emits_intros messages) (simp_all add: emits_def)
qed (unfold xpc_pull_image_def xpc_resolve_image_descriptor_def get_default_kernel_def, (intro emits_intros messages; simp)+)

lemma emits_resolve_or_pull: "emits P (resolve_or_pull_macos w d arch p)"
proof -
  have missing: "emits P (case e of Client (ImageNotFound x) \<Rightarrow> m x | _ \<Rightarrow> io_lift (Inl e))" if "\<And>x. emits P (m x)" for e and m :: "string \<Rightarrow> string xio"
    using that by (auto intro: emits_lift split: error.split client_error.split)
  show ?thesis unfolding resolve_or_pull_macos_def by (intro emits_intros emits_image missing)
qed

lemma emits_volumes: "emits P (resolve_volume w name)" "emits P (resolve_names w names acc)" "emits P (resolve_volumes w req)"
proof -
  show one: "emits P (resolve_volume w name)" for name
    unfolding resolve_volume_def by (intro emits_intros messages) simp_all
  show "emits P (resolve_names w names acc)" for names acc
    by (induction names arbitrary: acc) (simp_all only: resolve_names.simps, (intro emits_intros one | assumption)+)
  then show "emits P (resolve_volumes w req)" by (simp add: resolve_volumes_def)
qed

lemma emits_prepare: "emits P (mac_container_id w req)" "emits P (mac_prepare w env req i)"
proof -
  show "emits P (mac_container_id w req)" unfolding mac_container_id_def by (intro emits_intros emits_suffix)
  have config: "emits P (resolve_image_config nj arch (xpc_content_get w) d p)" for nj arch d p
    unfolding resolve_image_config_def by (intro emits_intros emits_image)
  have build: "emits P (\<lambda>h. (f h, h))" for f :: "xevent list \<Rightarrow> 'x result" by (simp add: emits_def)
  show "emits P (mac_prepare w env req i)"
    unfolding mac_prepare_def Let_def by (intro emits_intros emits_resolve_or_pull config emits_image emits_volumes build)
qed

lemma emits_exit_code: "emits P (mac_exit_code w rt i)"
proof -
  have fetch: "emits P (mac_fetch_exit_code w rt i)"
  proof (rule emits_choice)
    fix h
    let ?k = "\<lambda>r. case r of Inl _ \<Rightarrow> io_lift (Inr None) | Inr code \<Rightarrow> (\<lambda>h1.
       if fst (store_if_current (ws_generation (mr_wait_state rt h)) code (mr_wait_state rt h1)) then
         (Inr (Some code), h1 @ [StoreExitCode (ws_generation (mr_wait_state rt h)) code]) else (Inr None, h1))"
    have "emits P (xpc_wait_blocking w i i t)" for t unfolding xpc_wait_blocking_def by (intro emits_intros messages) simp_all
    then have "emits P (io_bind (io_catch (xpc_wait_blocking w i i (from_secs 5))) ?k)"
      by (intro emits_intros) (auto simp: emits_def quiet_store)
    then show "\<exists>m. emits P m \<and> mac_fetch_exit_code w rt i h = m h" by (auto simp: mac_fetch_exit_code_def Let_def)
  qed
  have "emits P (io_bind (xpc_container_state w i) (\<lambda>state. if snap_running state then io_lift (Inr None) else mac_fetch_exit_code w rt i))"
    by (intro emits_intros emits_state fetch)
  then show ?thesis unfolding mac_exit_code_def by (rule emits_hint) (simp add: emits_def)
qed

lemma emits_exit_wait: "emits P (mac_exit_wait n w rt i s)"
proof (induction n)
  case (Suc n)
    let ?poll = "io_bind (xpc_container_state w i) (\<lambda>state.
           if snap_running state then io_bind (io_event (XSleep (ew_poll_interval s))) (\<lambda>_. mac_exit_wait n w rt i s)
           else case ew_expected_code s of
                  None \<Rightarrow> io_lift (Inr (Some ()))
                | Some expected \<Rightarrow>
                    io_bind (mac_exit_code w rt i) (\<lambda>code. io_lift (
                      if code = Some expected then Inr (Some ())
                      else Inl (WaitContainer (UnexpectedExitCode expected code)))))"
    have poll: "emits P ?poll" by (intro emits_intros emits_state emits_exit_code Suc quiet_sleep)
    have known: "emits P (\<lambda>h. case ew_expected_code s of
        Some expected \<Rightarrow> if actual \<noteq> expected then (Inl (WaitContainer (UnexpectedExitCode expected (Some actual))), h) else (Inr (Some ()), h)
      | None \<Rightarrow> (Inr (Some ()), h))" for actual
      by (auto simp: emits_def split: option.split)
    show ?case unfolding mac_exit_wait.simps using poll known by (rule emits_hint)
qed (simp add: emits_lift)

lemma emits_http_wait: "emits P (mac_http_wait n w rt i s)"
proof -
  have loop: "emits P (mac_http_loop n rt s matcher host port bytes)" for matcher host port bytes
  proof (induction n)
    case (Suc n)
    let ?again = "io_bind (io_event (XSleep (hs_poll_interval s))) (\<lambda>_. mac_http_loop n rt s matcher host port bytes)"
    have "emits P ?again" "emits P (io_lift (Inr (Some ())))" by (intro emits_intros quiet_sleep Suc)+
    then have "\<exists>m. emits P m \<and> mac_http_loop (Suc n) rt s matcher host port bytes h = m h" for h
      by (cases "case mac_http_send rt s host port bytes h of Inr response \<Rightarrow> matcher response | Inl _ \<Rightarrow> False")
        (rule exI [of _ "io_lift (Inr (Some ()))"], simp add: io_lift_def, rule exI [of _ ?again], simp)
    then show ?case by (rule emits_choice)
  qed (simp add: emits_lift)
  show ?thesis unfolding mac_http_wait_def by (intro emits_intros emits_state emits_container_state loop)
qed

lemma emits_block: "emits P (mac_block_with_timeout w rt i timeout conds)"
proof -
  have wait: "emits P (mac_wait_until_ready n w rt i cond)" for n cond
  proof (cases cond)
    case (WaitLogs s)
    then show ?thesis by (auto simp: mac_wait_until_ready_def emits_def split: option.splits sum.splits)
  next
    case (WaitDuration d)
    then show ?thesis by (simp add: mac_wait_until_ready_def) (intro emits_intros quiet_sleep)
  qed (simp_all add: mac_wait_until_ready_def emits_lift emits_http_wait emits_exit_wait)
  have "emits P (mac_block_until_ready n w rt i conds)" for n
    by (induction conds) (simp_all only: mac_block_until_ready.simps, (intro emits_intros wait | assumption)+)
  then show ?thesis unfolding mac_block_with_timeout_def by (intro emits_intros)
qed

lemma emits_cmd_condition: "emits P (mac_check_cmd_condition raw cond)"
proof (cases cond)
  case (CmdExit code)
  then show ?thesis by (cases code; cases "er_exit_code raw") (simp_all add: mac_check_cmd_condition_def emits_lift)
qed (simp_all add: mac_check_cmd_condition_def emits_lift emits_event quiet_sleep)

lemma emits_new: "emits P (mac_container_new rt i req source)" "emits P (mac_stop_log_delivery c)"
proof -
  show "emits P (mac_stop_log_delivery c)" unfolding mac_stop_log_delivery_def by (intro emits_intros quiet_stop)
  have spawn: "emits P (mac_spawn_log_consumer_task rt fd stop src)" for fd stop src
    by (auto simp: emits_def mac_spawn_log_consumer_task_def quiet_consumer split: option.split)
  show "emits P (mac_container_new rt i req source)"
    by (rule emits_choice, simp only: mac_container_new_def Let_def, cases source; rule exI, rule conjI [OF _ refl])
      (simp_all only: log_fds_of.simps prod.case, (intro emits_intros spawn)+)
qed

end

text \<open>All operations on a container, those that open descriptors and temporary files as well.\<close>

locale handle_events = quiet_events +
  assumes held_pipe: "P (OpenPipe r s)"
    and held_dup: "P (DupLogFds fds)"
    and held_close: "P (CloseFd fd)"
    and held_reader: "P (SpawnReader stream fd)"
    and held_cancel: "P CancelReaders"
    and held_create: "P (CreateTemp p)"
    and held_remove: "P (RemoveTemp p)"
begin

lemma emits_on_error:
  assumes "emits P m" and "list_all P es"
  shows "emits P (on_error es m)"
proof -
  have "\<exists>fs. snd (on_error es m h) = h @ fs \<and> list_all P fs" for h
  proof -
    obtain r h' where m: "m h = (r, h')" by fastforce
    obtain fs where fs: "h' = h @ fs" "list_all P fs" using emitsE [OF assms(1) m] .
    show ?thesis
    proof (cases r)
      case Inl
      with m fs assms(2) show ?thesis by (intro exI [of _ "fs @ es"]) (simp add: on_error_def)
    next
      case Inr
      with m fs show ?thesis by (intro exI [of _ fs]) (simp add: on_error_def)
    qed
  qed
  then show ?thesis unfolding emits_def by blast
qed

lemma emits_exec: "emits P (xpc_exec w i cmd env)"
proof -
  have pipe: "emits P (create_pipe w)" by (auto simp: emits_def create_pipe_def held_pipe held_close split: pipe_answer.split)
  have join: "emits P (join_readers w)" by (auto simp: emits_def join_readers_def held_cancel split: prod.split)
  have process: "emits P (exec_process w conn i pid cfg)" for conn pid cfg
    unfolding exec_process_def
    by (intro emits_intros pipe join emits_on_error messages held_close held_reader) (simp_all add: held_close held_cancel)
  show ?thesis by (cases cmd) (simp_all only: xpc_exec_def list.case, (intro emits_intros emits_suffix process)+)
qed

lemma emits_mac_exec: "emits P (mac_exec w rt c e)"
  unfolding mac_exec_def by (intro emits_intros emits_exec emits_block emits_cmd_condition)

lemma emits_exec_all: "emits P (mac_exec_all w rt c cmds)"
  unfolding mac_exec_all_def by (intro emits_intros emits_mac_exec)

lemma emits_copies: "emits P (mac_copy_to_sources w rt i req)"
proof -
  have chown: "emits P (chown_after_copy w i path uid gid rec)" for path uid gid rec
    unfolding chown_after_copy_def by (intro emits_intros emits_exec)
  have temp: "emits P (write_copy_data_temp w rt b)" for b unfolding write_copy_data_temp_def
    by (intro emits_bind emits_suffix) (auto simp: emits_def Let_def held_create held_remove split: option.split)
  have "emits P (mac_copy_source w rt i src)" for src
    unfolding mac_copy_source_def Let_def
    by (cases "cp_source src")
      (simp_all only: copy_data_source.case, (intro emits_intros emits_copy_in chown temp emits_on_error held_remove | simp add: held_remove)+)
  then show ?thesis unfolding mac_copy_to_sources_def by (intro emits_intros)
qed

lemma emits_logs: "emits P (xpc_logs w i)"
proof -
  have "emits P (close_valid_fds fds)" for fds unfolding close_valid_fds_def by (intro emits_intros held_close)
  then show ?thesis unfolding xpc_logs_def Let_def by (intro emits_intros messages held_dup) simp_all
qed

lemma emits_hosts: "emits P (apply_extra_hosts w rt c hosts)"
proof -
  have "emits P (apply_extra_host w rt c h)" for h
    unfolding apply_extra_host_def
    by (cases h; cases "snd h") (simp_all only: prod.case snd_conv extra_host.case, (intro emits_intros emits_container_state emits_mac_exec)+)
  then show ?thesis unfolding apply_extra_hosts_def by (intro emits_intros)
qed

lemma emits_ready: "emits P (mac_ready_sequence w rt c timeout conds)"
  unfolding mac_ready_sequence_def by (intro emits_intros emits_container_state emits_exec_all emits_block)

lemma emits_close: "emits P (close_log_fds source)"
  by (cases source) (simp_all only: close_log_fds_def mac_log_source.case, (intro emits_intros held_close)+)

end

interpretation unowned: quiet_events holds_nothing
  by unfold_locales (simp_all add: holds_nothing_def)

definition is_lifecycle :: "xevent \<Rightarrow> bool" where
  "is_lifecycle e = (case e of XpcSend m \<Rightarrow> lifecycle_route (msg_route m) | _ \<Rightarrow> False)"

interpretation ordinary: handle_events "\<lambda>e. \<not> is_lifecycle e"
  by unfold_locales (simp_all add: is_lifecycle_def)

end
