(* ===== verification/Mac_Ownership.thy ===== *)
theory Mac_Ownership
  imports Mac_Events
begin

text \<open>
  The descriptors and temporary files a macOS handle owns, tracked through every path of a start, of
  a restart and of a drop.
\<close>

section \<open>Ownership through a start\<close>

lemma owning_catch: "owning A m B \<Longrightarrow> owning A (io_catch m) (\<lambda>r. case r of Inl _ \<Rightarrow> {#} | Inr x \<Rightarrow> B x)"
  unfolding owning_def io_catch_def by (auto simp: split_beta split: sum.splits)

text \<open>What is owned stays owned through an operation that cannot fail.\<close>

definition never_fails :: "'a xio \<Rightarrow> bool" where
  "never_fails m \<longleftrightarrow> (\<forall>h. \<exists>x. fst (m h) = Inr x)"

lemma owning_frame:
  assumes "never_fails m" and "owning A m B"
  shows "owning (F + A) m (\<lambda>x. F + B x)"
  unfolding owning_def
proof
  fix h
  obtain x where x: "fst (m h) = Inr x" using assms(1) unfolding never_fails_def by blast
  obtain es where "snd (m h) = h @ es" "A + opened es = released es + B x" using assms(2) x unfolding owning_def by (metis sum.case(2))
  with x show "\<exists>es. snd (m h) = h @ es \<and> F + A + opened es = released es + (case fst (m h) of Inl _ \<Rightarrow> {#} | Inr x \<Rightarrow> F + B x)"
    by (intro exI [of _ es]) (simp add: ac_simps)
qed

lemma never_fails_catch: "never_fails (io_catch m)" "never_fails (io_event e)" "never_fails (io_lift (Inr x))"
  by (simp_all add: never_fails_def io_catch_def io_event_def io_lift_def split_beta)

lemma never_fails_bind: "never_fails m \<Longrightarrow> (\<And>x. never_fails (k x)) \<Longrightarrow> never_fails (io_bind m k)"
  unfolding never_fails_def io_bind_def by (auto simp: split_beta split: sum.splits) (metis Inr_not_Inl)

lemmas never_fails_intros = never_fails_bind never_fails_catch

lemma never_fails_if: "never_fails m \<Longrightarrow> never_fails m' \<Longrightarrow> never_fails (if b then m else m')"
  by simp

lemma never_fails_close: "never_fails (close_log_fds source)"
  by (cases source) (simp_all only: close_log_fds_def mac_log_source.case, (intro never_fails_intros)+)

lemma owning_framed: "never_fails m \<Longrightarrow> owning {#} m (\<lambda>_. {#}) \<Longrightarrow> owning F m (\<lambda>_. F)"
  using owning_frame [of m "{#}" "\<lambda>_. {#}" F] by simp

lemma owning_caught:
  assumes "owning {#} m (\<lambda>_. {#})"
  shows "owning F (io_catch m) (\<lambda>_. F)"
proof -
  have "owning {#} (io_catch m) (\<lambda>_. {#})"
    using assms unfolding owning_def io_catch_def by (simp add: split_beta sum.case_eq_if)
  then show ?thesis by (rule owning_framed [OF never_fails_catch(1)])
qed

lemma owning_fail: "owning {#} (io_lift (Inl e)) B" "owning {#} (io_lift r) (\<lambda>_. {#})"
  by (auto intro: owning_lift)

lemma owning_done: "owning A (io_lift (Inr x)) (\<lambda>_. A)"
  by (rule owning_lift) simp_all

definition log_resources :: "mac_log_source \<Rightarrow> resource multiset" where
  "log_resources source = (case source of LogFds out err \<Rightarrow> {#Fd out, Fd err#} | NoLogFds \<Rightarrow> {#})"

lemma owning_remove: "owning {#} (xpc_remove_blocking w i f) (\<lambda>_. {#})" "owning {#} (xpc_remove w i f) (\<lambda>_. {#})"
proof -
  have "emits holds_nothing (xpc_remove_blocking w i f)"
    unfolding xpc_remove_blocking_def ignore_not_found_def by (intro emits_intros emits_send) (simp_all add: holds_nothing_def)
  then show "owning {#} (xpc_remove_blocking w i f) (\<lambda>_. {#})" "owning {#} (xpc_remove w i f) (\<lambda>_. {#})"
    unfolding xpc_remove_def by (rule owning_quiet)+
qed

lemma owning_create: "owning {#} (xpc_create_container w cfg kernel_bytes) (\<lambda>_. {#})"
  unfolding xpc_create_container_def call_def done_reply_def
  by (intro owning_quiet emits_intros emits_send) (simp_all add: holds_nothing_def)

lemma owning_rollback: "owning {#} (mac_rollback_remove w i) (\<lambda>_. {#})"
  unfolding mac_rollback_remove_def
  by (cases "mac_removal_wanted w") (auto intro!: owning_bind [OF owning_caught [OF owning_remove(2)]] owning_fail)

lemma owning_or_rollback:
  assumes "owning {#} m B"
  shows "owning {#} (or_rollback w i m) B"
  unfolding or_rollback_def
proof (rule owning_bind [OF owning_catch [OF assms]])
  fix r
  show "owning (case r of Inl _ \<Rightarrow> {#} | Inr x \<Rightarrow> B x)
     (case r of Inr x \<Rightarrow> io_lift (Inr x) | Inl e \<Rightarrow> io_bind (mac_rollback_remove w i) (\<lambda>_. io_lift (Inl e))) B"
    by (cases r) (auto intro!: owning_bind [OF owning_rollback] owning_fail owning_lift)
qed

lemma owning_logs: "owning {#} (xpc_logs w i) (\<lambda>p. {#Fd (fst p), Fd (snd p)#})"
  unfolding owning_def
proof
  fix h
  let ?goal = "\<exists>es. snd (xpc_logs w i h) = h @ es \<and>
    {#} + opened es = released es + (case fst (xpc_logs w i h) of Inl _ \<Rightarrow> {#} | Inr p \<Rightarrow> {#Fd (fst p), Fd (snd p)#})"
  have closes: "released (map CloseFd fds) = mset (map Fd fds)" "opened (map CloseFd fds) = {#}" for fds
    by (induction fds) simp_all
  show ?goal
  proof (cases "xw_connect w h SERVICE_NAME")
    case True
    obtain r h1 where send: "send w SERVICE_NAME ''containerLogs'' [(''id'', KvString i)] h = (r, h1)" by fastforce
    obtain es where es: "h1 = h @ es" "list_all holds_nothing es"
      using emitsE [OF emits_send send, of holds_nothing] by (auto simp: holds_nothing_def)
    note quiet = quiet_list [OF es(2)]
    show ?thesis
    proof (cases r)
      case Inl
      with send True es quiet show ?thesis by (simp add: xpc_logs_def call_def connect_def io_bind_def)
    next
      case (Inr reply)
      from logs_fds_owned [OF True send [unfolded Inr]] es quiet closes show ?thesis
        by (cases "fst (xpc_logs w i h)"; cases "xpc_logs w i h") auto
    qed
  qed (simp add: xpc_logs_def call_def connect_def io_bind_def)
qed

lemma owning_log_source: "owning {#} (mac_log_source_for w i conds) log_resources"
  unfolding mac_log_source_for_def
proof (rule owning_bind [OF owning_catch [OF owning_logs]])
  fix r :: "error + int \<times> int"
  show "owning (case r of Inl _ \<Rightarrow> {#} | Inr p \<Rightarrow> {#Fd (fst p), Fd (snd p)#})
     (case r of Inr (out, err) \<Rightarrow> io_lift (Inr (LogFds out err))
      | Inl e \<Rightarrow> if ready_conditions_require_log conds then io_bind (mac_rollback_remove w i) (\<lambda>_. io_lift (Inl (log_fd_required_error e)))
                 else io_lift (Inr NoLogFds)) log_resources"
    by (cases r) (auto simp: log_resources_def intro!: owning_bind [OF owning_rollback] owning_fail owning_lift)
qed

lemma owning_close_log_fds: "owning (log_resources source) (close_log_fds source) (\<lambda>_. {#})"
  by (cases source)
    (auto simp: log_resources_def close_log_fds_def intro!: owning_fail owning_bind [OF owning_close] owning_close)

lemma owning_stop_delivery: "owning A (mac_stop_log_delivery c) (\<lambda>_. A)"
  unfolding mac_stop_log_delivery_def by (rule owning_event) simp

text \<open>Dropping a handle gives back its descriptors, and so does every removal.\<close>

lemma owning_drop: "owning (log_resources (mac_log_source c)) (mac_drop w c) (\<lambda>_. {#})"
  unfolding mac_drop_def
  by (rule owning_bind [OF owning_stop_delivery], rule owning_bind [OF owning_close_log_fds])
    (auto intro!: owning_fail owning_bind [OF owning_caught [OF owning_remove(1)]])

lemma owning_remove_then_drop:
  assumes "owning {#} remove (\<lambda>_. {#})"
  shows "owning (log_resources (mac_log_source c)) (mac_remove_then_drop remove w c) (\<lambda>_. {#})"
proof -
  have "owning (log_resources (mac_log_source c)) (mac_drop w (case r of Inr _ \<Rightarrow> c\<lparr>mac_dropped := True\<rparr> | Inl _ \<Rightarrow> c)) (\<lambda>_. {#})" for r :: "unit result"
    using owning_drop [of c w] owning_drop [of "c\<lparr>mac_dropped := True\<rparr>" w] by (cases r) simp_all
  then show ?thesis unfolding mac_remove_then_drop_def
    by (intro owning_bind [OF owning_stop_delivery] owning_bind [OF owning_caught [OF assms]]
          owning_bind [where B = "\<lambda>_. {#}"] owning_fail)
qed

lemma owning_rm: "owning (log_resources (mac_log_source c)) (mac_rm w c) (\<lambda>_. {#})"
  unfolding mac_rm_def by (rule owning_remove_then_drop [OF owning_remove(2)])

lemma owning_cleanup: "owning (log_resources (mac_log_source c)) (mac_cleanup_on_ready_failure w c e) B"
  unfolding mac_cleanup_on_ready_failure_def
proof (rule owning_bind)
  show "owning {#} (io_lift (Inl e)) B" by (rule owning_fail)
  have "owning (log_resources (mac_log_source c)) (io_catch (mac_rm w c)) (\<lambda>_. {#})"
    using owning_catch [OF owning_rm] by (simp add: owning_def sum.case_eq_if)
  then show "owning (log_resources (mac_log_source c))
     (if mac_removal_wanted w then io_bind (io_catch (mac_rm w c)) (\<lambda>_. io_lift (Inr ())) else mac_drop w c) (\<lambda>_. {#})"
    by (auto intro: owning_drop intro!: owning_bind [where B = "\<lambda>_. {#}"] owning_fail)
qed

lemma owning_or_cleanup:
  assumes "owning {#} m (\<lambda>_. {#})"
  shows "owning (log_resources (mac_log_source c)) (or_cleanup w c m) (\<lambda>_. log_resources (mac_log_source c))"
  unfolding or_cleanup_def
proof (rule owning_bind [OF owning_caught [OF assms]])
  fix r :: "unit result"
  show "owning (log_resources (mac_log_source c))
     (case r of Inl e \<Rightarrow> mac_cleanup_on_ready_failure w c e | Inr _ \<Rightarrow> io_lift (Inr c)) (\<lambda>_. log_resources (mac_log_source c))"
    by (cases r) (simp_all add: owning_cleanup owning_done)
qed

lemma or_cleanup_same: "or_cleanup w c m h = (Inr c', h') \<Longrightarrow> c' = c"
  by (auto simp: or_cleanup_def io_bind_def io_lift_def mac_cleanup_on_ready_failure_def split: prod.splits sum.splits)

lemma owning_block: "owning {#} (mac_block_with_timeout w rt i timeout conds) (\<lambda>_. {#})"
  "owning {#} (mac_container_state w c) (\<lambda>_. {#})" "owning {#} (mac_gateway_ip_address w c) (\<lambda>_. {#})"
  "owning {#} (mac_check_cmd_condition raw cond) (\<lambda>_. {#})" "owning {#} (copy_in w i source destination mode) (\<lambda>_. {#})"
  "owning {#} (bootstrap_container w i) (\<lambda>_. {#})" "owning {#} (start_process w i) (\<lambda>_. {#})"
  "owning {#} (mac_container_id w req) (\<lambda>_. {#})" "owning {#} (mac_prepare w env req i) (\<lambda>_. {#})" "owning {#} (next_suffix w) (\<lambda>_. {#})"
  by (intro owning_quiet unowned.emits_block unowned.emits_container_state unowned.emits_cmd_condition unowned.emits_copy_in
      unowned.emits_start_up unowned.emits_prepare unowned.emits_suffix)+

lemma owning_seq: "owning {#} m (\<lambda>_. {#}) \<Longrightarrow> (\<And>x. owning {#} (k x) B) \<Longrightarrow> owning {#} (io_bind m k) B"
  by (rule owning_bind)

lemma owning_if: "owning A m B \<Longrightarrow> owning A m' B \<Longrightarrow> owning A (if b then m else m') B"
  by simp

lemma owning_for: "(\<And>x. owning {#} (f x) (\<lambda>_. {#})) \<Longrightarrow> owning {#} (io_for f xs) (\<lambda>_. {#})"
  by (induction xs) (simp_all add: owning_fail owning_seq)

lemma owning_mac_exec: "owning {#} (mac_exec w rt c e) (\<lambda>_. {#})" "owning {#} (mac_exec_all w rt c cmds) (\<lambda>_. {#})"
proof -
  show one: "owning {#} (mac_exec w rt c e) (\<lambda>_. {#})" for e
    unfolding mac_exec_def by (intro owning_if owning_seq owning_exec owning_block owning_fail)
  show "owning {#} (mac_exec_all w rt c cmds) (\<lambda>_. {#})"
    unfolding mac_exec_all_def by (intro owning_for owning_seq one owning_fail)
qed

lemma owning_ready: "owning {#} (mac_ready_sequence w rt c timeout conds) (\<lambda>_. {#})"
  unfolding mac_ready_sequence_def by (intro owning_seq owning_block owning_mac_exec owning_fail)

lemma owning_map_err: "owning A m B \<Longrightarrow> owning A (io_map_err f m) B"
  unfolding owning_def io_map_err_def by (auto simp: split_beta map_err_def split: sum.splits)

lemma owning_hosts: "owning {#} (apply_extra_hosts w rt c hosts) (\<lambda>_. {#})"
proof -
  have "owning {#} (apply_extra_host w rt c h) (\<lambda>_. {#})" for h
    unfolding apply_extra_host_def
    by (cases h; cases "snd h")
      (simp_all only: prod.case snd_conv extra_host.case, (intro owning_seq owning_map_err owning_block owning_mac_exec owning_fail)+)
  then show ?thesis unfolding apply_extra_hosts_def by (rule owning_for)
qed

lemma owning_copies: "owning {#} (mac_copy_to_sources w rt i req) (\<lambda>_. {#})"
proof -
  have chown: "owning F (chown_after_copy w i path uid gid rec) (\<lambda>_. F)" for F path uid gid rec
    unfolding chown_after_copy_def by (intro owning_if owning_bind [OF owning_caught [OF owning_exec]] owning_done)
  have temp: "owning {#} (write_copy_data_temp w rt b) (\<lambda>p. {#Temp p#})" for b
    unfolding write_copy_data_temp_def
    by (rule owning_seq [OF owning_block(10)]) (auto simp: owning_def Let_def split: option.split)
  have guarded: "owning {#Temp p#} (on_error [RemoveTemp p] (copy_in w i p t m)) (\<lambda>_. {#Temp p#})" for p t m
    using owning_on_error [OF owning_block(5), of "{#Temp p#}" "[RemoveTemp p]"] by simp
  have removed: "owning {#Temp p#} (io_event (RemoveTemp p)) (\<lambda>_. {#})" for p by (rule owning_event) simp
  have "owning {#} (mac_copy_source w rt i src) (\<lambda>_. {#})" for src
  proof (cases "cp_source src")
    case (SourceFile p)
    then show ?thesis by (simp add: mac_copy_source_def Let_def) (intro owning_seq owning_block chown)
  next
    case (SourceData b)
    then show ?thesis by (simp add: mac_copy_source_def Let_def)
      (rule owning_bind [OF temp], rule owning_bind [OF guarded], rule owning_bind [OF chown], rule removed)
  qed
  then show ?thesis unfolding mac_copy_to_sources_def by (rule owning_for)
qed

lemma new_container:
  assumes "mac_container_new rt i req source h = (r, h')"
  shows "\<exists>c. r = Inr c \<and> mac_log_source c = source \<and> mac_id c = i \<and> \<not> mac_dropped c"
proof -
  have spawn: "\<exists>h'. mac_spawn_log_consumer_task rt fd stop src h = (Inr (), h')" for fd stop src h
    by (auto simp: mac_spawn_log_consumer_task_def split: option.split)
  then show ?thesis using assms
    by (cases source; cases "cr_log_consumers req = []")
      (auto simp: mac_container_new_def Let_def io_bind_def io_lift_def split: prod.splits sum.splits, (metis prod.inject sum.distinct(1))+)
qed

lemma owning_new: "owning (log_resources source) (mac_container_new rt i req source) (\<lambda>c. log_resources (mac_log_source c))"
proof -
  have "never_fails (mac_container_new rt i req source)"
    unfolding never_fails_def using new_container by (metis prod.collapse)
  from owning_framed [OF this owning_quiet [OF unowned.emits_new(1)], of "log_resources source"] new_container
  show ?thesis unfolding owning_def by (metis (no_types, lifting) prod.collapse sum.case(2))
qed

lemma owning_after_create: "owning {#} (mac_after_create w rt env req i) (\<lambda>c. log_resources (mac_log_source c))"
proof -
  have event: "owning {#} (io_event e) (\<lambda>_. {#})" if "holds_nothing e" for e
    using that by (intro owning_event) (simp add: holds_nothing_def)
  have ready: "owning (log_resources (mac_log_source c)) (mac_run_ready_sequence w rt c t conds) (\<lambda>c. log_resources (mac_log_source c))" for c t conds
    using owning_or_cleanup [OF owning_ready, of c w] or_cleanup_same
    unfolding owning_def mac_run_ready_sequence_def by (metis (no_types, lifting) old.sum.exhaust prod.collapse sum.case(1) sum.case(2))
  have watch: "owning {#} (if b then io_event (RegisterWatchdog i) else io_lift (Inr ())) (\<lambda>_. {#})" for b
    by (intro owning_if event owning_fail) (simp add: holds_nothing_def)
  have waiter: "owning {#} (io_event (SpawnExitWaiter i g)) (\<lambda>_. {#})" for g by (rule event) (simp add: holds_nothing_def)
  show ?thesis unfolding mac_after_create_def
    by (rule owning_seq [OF watch], rule owning_seq [OF owning_or_rollback [OF owning_block(6)]],
        rule owning_seq [OF owning_or_rollback [OF owning_block(7)]], rule owning_seq [OF owning_or_rollback [OF owning_copies]],
        rule owning_seq [OF waiter], rule owning_bind [OF owning_log_source], rule owning_bind [OF owning_new],
        rule owning_bind [OF owning_or_cleanup [OF owning_hosts]], rule ready)
qed

lemma owning_start: "owning {#} (mac_runner_start w rt env req) (\<lambda>c. log_resources (mac_log_source c))"
  unfolding mac_runner_start_def case_prod_beta
  by (intro owning_if owning_seq owning_fail owning_block owning_or_rollback owning_create owning_after_create)

text \<open>
  A restart exchanges the log descriptors of the handle: on failure the handle keeps those it has.
\<close>

definition exchanging :: "resource multiset \<Rightarrow> 'a xio \<Rightarrow> ('a \<Rightarrow> resource multiset) \<Rightarrow> bool" where
  "exchanging A m B \<longleftrightarrow> (\<forall>h. \<exists>es. snd (m h) = h @ es \<and>
     A + opened es = released es + (case fst (m h) of Inl _ \<Rightarrow> A | Inr x \<Rightarrow> B x))"

lemma exchanging_bind:
  assumes "exchanging A m (\<lambda>_. A)" and "\<And>x. exchanging A (k x) B"
  shows "exchanging A (io_bind m k) B"
  unfolding exchanging_def
proof
  fix h
  obtain r h1 where m: "m h = (r, h1)" by fastforce
  obtain es where es: "h1 = h @ es" "A + opened es = released es + A"
    using assms(1) m unfolding exchanging_def by (metis fst_conv snd_conv sum.case_eq_if)
  show "\<exists>es. snd (io_bind m k h) = h @ es \<and> A + opened es = released es + (case fst (io_bind m k h) of Inl _ \<Rightarrow> A | Inr x \<Rightarrow> B x)"
  proof (cases r)
    case (Inl e)
    with m es show ?thesis by (simp add: io_bind_def)
  next
    case (Inr x)
    obtain fs where fs: "snd (k x h1) = h1 @ fs" "A + opened fs = released fs + (case fst (k x h1) of Inl _ \<Rightarrow> A | Inr y \<Rightarrow> B y)"
      using assms(2) unfolding exchanging_def by blast
    have "A + opened (es @ fs) = released es + (A + opened fs)" using es(2) by (simp add: ac_simps)
    with fs(2) m es(1) fs(1) Inr show ?thesis by (intro exI [of _ "es @ fs"]) (simp add: io_bind_def ac_simps)
  qed
qed

lemma exchanging_keeps: "owning {#} m (\<lambda>_. {#}) \<Longrightarrow> exchanging A m (\<lambda>_. A)"
  unfolding owning_def exchanging_def by (simp add: sum.case_eq_if add.commute)

lemma exchanging_owning:
  assumes "owning {#} m B" and "\<And>x. never_fails (k x)" and "\<And>x. owning (A + B x) (k x) C"
  shows "exchanging A (io_bind m k) C"
  unfolding exchanging_def
proof
  fix h
  obtain r h1 where m: "m h = (r, h1)" by fastforce
  obtain es where es: "h1 = h @ es" "opened es = released es + (case r of Inl _ \<Rightarrow> {#} | Inr x \<Rightarrow> B x)"
    using assms(1) m unfolding owning_def by (metis add_0 fst_conv snd_conv)
  show "\<exists>es. snd (io_bind m k h) = h @ es \<and> A + opened es = released es + (case fst (io_bind m k h) of Inl _ \<Rightarrow> A | Inr x \<Rightarrow> C x)"
  proof (cases r)
    case (Inl e)
    with m es show ?thesis by (intro exI [of _ es]) (simp add: io_bind_def ac_simps)
  next
    case (Inr x)
    obtain y where y: "fst (k x h1) = Inr y" using assms(2) unfolding never_fails_def by blast
    obtain fs where fs: "snd (k x h1) = h1 @ fs" "A + B x + opened fs = released fs + C y"
      using assms(3) [of x] y unfolding owning_def by (metis sum.case(2))
    have "A + opened (es @ fs) = released es + (A + B x + opened fs)" using es(2) Inr by (simp add: ac_simps)
    with fs m es(1) Inr y show ?thesis by (intro exI [of _ "es @ fs"]) (simp add: io_bind_def ac_simps)
  qed
qed

lemma owning_choice: "(\<And>h. \<exists>m. owning A m B \<and> f h = m h) \<Longrightarrow> owning A f B"
  unfolding owning_def by metis

lemma never_fails_choice: "(\<And>h. \<exists>m. never_fails m \<and> f h = m h) \<Longrightarrow> never_fails f"
  unfolding never_fails_def by metis

lemma exchanging_refresh:
  "exchanging (log_resources (mac_log_source c)) (mac_refresh_log_streams w rt c) (\<lambda>c'. log_resources (mac_log_source c'))"
proof -
  have spawn: "never_fails (mac_spawn_log_consumer_task rt fd stop src)" "owning F (mac_spawn_log_consumer_task rt fd stop src) (\<lambda>_. F)" for fd stop src F
    by (auto simp: never_fails_def owning_def mac_spawn_log_consumer_task_def split: option.split)
  let ?spawns = "\<lambda>out err stop. if mac_log_consumers c = None then io_lift (Inr ())
     else io_bind (mac_spawn_log_consumer_task rt (Some out) stop SrcStdOut) (\<lambda>_. mac_spawn_log_consumer_task rt (Some err) stop SrcStdErr)"
  let ?fresh = "\<lambda>out err stop. io_bind (close_log_fds (mac_log_source c)) (\<lambda>_. io_bind (?spawns out err stop) (\<lambda>_.
     io_lift (Inr (c\<lparr>mac_log_source := LogFds out err, mac_log_stop := stop\<rparr>))))"
  have nf: "never_fails (?fresh out err stop)" for out err stop
    by (intro never_fails_bind never_fails_if never_fails_close spawn never_fails_catch)
  have spawns: "owning F (?spawns out err stop) (\<lambda>_. F)" for F out err stop
    by (intro owning_if owning_done owning_bind [OF spawn(2)] spawn)
  have closed: "owning (log_resources (mac_log_source c) + F) (close_log_fds (mac_log_source c)) (\<lambda>_. F)" for F
    using owning_frame [OF never_fails_close owning_close_log_fds, of F] by (simp add: add.commute)
  have own: "owning (log_resources (mac_log_source c) + {#Fd out, Fd err#}) (?fresh out err stop) (\<lambda>c'. log_resources (mac_log_source c'))" for out err stop
    by (rule owning_bind [OF closed], rule owning_bind [OF spawns], rule owning_lift) (simp_all add: log_resources_def)
  have rest: "never_fails (io_bind (mac_stop_log_delivery c) (\<lambda>_ h. ?fresh out err (length h) h))"
    "owning (log_resources (mac_log_source c) + {#Fd out, Fd err#}) (io_bind (mac_stop_log_delivery c) (\<lambda>_ h. ?fresh out err (length h) h))
       (\<lambda>c'. log_resources (mac_log_source c'))" for out err
    using nf own unfolding mac_stop_log_delivery_def
    by (blast intro: never_fails_bind never_fails_catch never_fails_choice,
        blast intro: owning_bind [OF owning_stop_delivery [unfolded mac_stop_log_delivery_def]] owning_choice)
  show ?thesis unfolding mac_refresh_log_streams_def Let_def
    by (rule exchanging_owning [OF owning_map_err [OF owning_logs]]) (simp_all only: split_beta fst_conv snd_conv rest)
qed

lemma exchanging_recover:
  assumes "exchanging A m B" and "\<And>e. exchanging A (recover e) B"
  shows "exchanging A (io_bind (io_catch m) (\<lambda>r. case r of Inr x \<Rightarrow> io_lift (Inr x) | Inl e \<Rightarrow> recover e)) B"
  unfolding exchanging_def
proof
  fix h
  let ?m = "io_bind (io_catch m) (\<lambda>r. case r of Inr x \<Rightarrow> io_lift (Inr x) | Inl e \<Rightarrow> recover e)"
  obtain r h1 where m: "m h = (r, h1)" by fastforce
  obtain es where es: "h1 = h @ es" "A + opened es = released es + (case r of Inl _ \<Rightarrow> A | Inr x \<Rightarrow> B x)"
    using assms(1) m unfolding exchanging_def by (metis fst_conv snd_conv)
  show "\<exists>es. snd (?m h) = h @ es \<and> A + opened es = released es + (case fst (?m h) of Inl _ \<Rightarrow> A | Inr x \<Rightarrow> B x)"
  proof (cases r)
    case (Inl e)
    obtain fs where fs: "snd (recover e h1) = h1 @ fs" "A + opened fs = released fs + (case fst (recover e h1) of Inl _ \<Rightarrow> A | Inr y \<Rightarrow> B y)"
      using assms(2) unfolding exchanging_def by blast
    have "A + opened (es @ fs) = released es + (A + opened fs)" using es(2) Inl by (simp add: ac_simps)
    with fs m es(1) Inl show ?thesis by (intro exI [of _ "es @ fs"]) (simp add: io_bind_def io_catch_def ac_simps)
  next
    case (Inr x)
    with m es show ?thesis by (simp add: io_bind_def io_catch_def io_lift_def)
  qed
qed

lemma exchanging_restart:
  "exchanging (log_resources (mac_log_source c)) (mac_restart w rt c) (\<lambda>c'. log_resources (mac_log_source c'))"
proof -
  have reset: "owning {#} (mac_reset_wait_state_and_respawn rt c) (\<lambda>_. {#})"
    by (simp add: owning_def mac_reset_wait_state_and_respawn_def)
  have "emits holds_nothing (mac_stop_with_timeout w c t)" for t
    unfolding mac_stop_with_timeout_def xpc_stop_def ignore_not_found_def call_def Let_def mac_stop_log_delivery_def
    by (intro emits_intros emits_send_with_timeout) (simp_all add: holds_nothing_def)
  then have stop: "owning {#} (io_catch (mac_stop_with_timeout w c t)) (\<lambda>_. {#})" for t
    by (intro owning_caught owning_quiet)
  have failed: "exchanging A (io_lift (Inl e)) B" for A e and B :: "'x \<Rightarrow> resource multiset"
    by (simp add: exchanging_def io_lift_def)
  show ?thesis unfolding mac_restart_def
    by (intro exchanging_bind [OF exchanging_keeps] owning_block reset exchanging_recover exchanging_refresh stop failed)
qed

text \<open>Starting a handle again, on every path.\<close>

lemma exchanging_start:
  "\<exists>es. snd (mac_container_start w rt c h) = h @ es \<and>
     log_resources (mac_log_source c) + opened es = released es + log_resources (mac_log_source (snd (fst (mac_container_start w rt c h))))"
proof -
  let ?A = "log_resources (mac_log_source c)"
  let ?up = "io_bind (mac_is_running w c) (\<lambda>running. if running then io_lift (Inr c) else mac_restart w rt c)"
  have running: "owning {#} (mac_is_running w c) (\<lambda>_. {#})"
    unfolding mac_is_running_def by (intro owning_quiet emits_intros unowned.emits_state)
  have already: "exchanging ?A (io_lift (Inr c)) (\<lambda>c'. log_resources (mac_log_source c'))"
    by (simp add: exchanging_def io_lift_def)
  have up: "exchanging ?A ?up (\<lambda>c'. log_resources (mac_log_source c'))"
    using already exchanging_restart [of c w rt] by (intro exchanging_bind [OF exchanging_keeps [OF running]]) (simp split: if_split)
  obtain r h1 where r: "?up h = (r, h1)" by fastforce
  obtain es where es: "h1 = h @ es" "?A + opened es = released es + (case r of Inl _ \<Rightarrow> ?A | Inr c' \<Rightarrow> log_resources (mac_log_source c'))"
    using up r unfolding exchanging_def by (metis fst_conv snd_conv)
  show ?thesis
  proof (cases r)
    case (Inl e)
    with r es show ?thesis by (simp add: mac_container_start_def)
  next
    case (Inr c')
    let ?after = "io_bind (mac_container_state w c') (\<lambda>state.
       io_bind (io_lift (img_exec_after_start (cr_image (mac_request c')) state)) (mac_exec_all w rt c'))"
    have "owning {#} ?after (\<lambda>_. {#})" by (intro owning_seq owning_block owning_fail owning_mac_exec)
    then obtain fs where fs: "snd (?after h1) = h1 @ fs" "opened fs = released fs"
      unfolding owning_def by (auto simp: sum.case_eq_if)
    have "?A + opened (es @ fs) = released (es @ fs) + log_resources (mac_log_source c')" using es(2) fs(2) Inr by (simp add: ac_simps)
    with r es(1) fs(1) Inr show ?thesis by (intro exI [of _ "es @ fs"]) (auto simp: mac_container_start_def split: prod.split)
  qed
qed

end
