(* ===== verification/Mac_Facts.thy ===== *)
theory Mac_Facts
  imports Mac_Ownership
begin

text \<open>
  What a start on macOS leaves behind: the messages with which it asks for creations and removals, and
  the properties of starts, restarts and drops.
\<close>

section \<open>Removals through a start\<close>

fun sent_to :: "string \<Rightarrow> xevent list \<Rightarrow> message list" where
  "sent_to route [] = []"
| "sent_to route (XpcSend m # es) = (if msg_route m = route then m # sent_to route es else sent_to route es)"
| "sent_to route (_ # es) = sent_to route es"

definition creations :: "xevent list \<Rightarrow> message list" where
  "creations es = sent_to ''containerCreate'' es"

definition deletions :: "xevent list \<Rightarrow> message set" where
  "deletions es = set (sent_to ''containerDelete'' es)"

lemma sent_to_append: "sent_to route (es @ fs) = sent_to route es @ sent_to route fs"
  by (induction route es rule: sent_to.induct) simp_all

lemma lifecycle_simps [simp]:
  "creations (es @ fs) = creations es @ creations fs" "creations [] = []"
  "deletions (es @ fs) = deletions es \<union> deletions fs" "deletions [] = {}"
  by (simp_all add: creations_def deletions_def sent_to_append)

lemma ordinary_lifecycle: "list_all (\<lambda>e. \<not> is_lifecycle e) es \<Longrightarrow> creations es = [] \<and> deletions es = {}"
proof -
  have "list_all (\<lambda>e. \<not> is_lifecycle e) es \<Longrightarrow> lifecycle_route route \<Longrightarrow> sent_to route es = []" for route
    by (induction route es rule: sent_to.induct) (auto simp: is_lifecycle_def)
  then show "list_all (\<lambda>e. \<not> is_lifecycle e) es \<Longrightarrow> creations es = [] \<and> deletions es = {}"
    by (simp add: creations_def deletions_def lifecycle_route_def)
qed

definition forced_delete :: "string \<Rightarrow> message" where
  "forced_delete i = \<lparr>msg_service = SERVICE_NAME, msg_route = ''containerDelete'',
     msg_entries = [(''id'', KvString i), (''forceDelete'', KvBool True)], msg_timeout = of_nat (min DEFAULT_TIMEOUT u64_max)\<rparr>"

text \<open>A daemon that can be reached: connections and messages can be made.\<close>

definition reachable :: "('v, 'f) xworld \<Rightarrow> bool" where
  "reachable w \<longleftrightarrow> (\<forall>h s. xw_connect w h s) \<and> (\<forall>h. xw_dictionary w h)"

lemma valid_id_no_nul: "is_valid_container_id i \<Longrightarrow> \<not> has_nul i"
proof -
  assume "is_valid_container_id i"
  then obtain c s where i: "i = c # s" "is_ascii_alphanumeric c" "list_all (\<lambda>b. is_ascii_alphanumeric b \<or> b \<in> {CHR ''_'', CHR ''.'', CHR ''-''}) s"
    by (cases i) (auto simp: is_valid_container_id_def split: if_splits)
  have "\<not> is_ascii_alphanumeric CHR 0x00" by code_simp
  with i show ?thesis by (auto simp: has_nul_def list_all_iff)
qed

lemma removal_sent:
  assumes "reachable w" and "is_valid_container_id i"
  shows "\<exists>r. xpc_remove_blocking w i True h = (r, h @ [XpcSend (forced_delete i)])"
  using assms valid_id_no_nul [OF assms(2)]
  by (simp add: xpc_remove_blocking_def ignore_not_found_def send_def send_with_timeout_def reachable_def connect_def has_nul_def
      entry_has_nul_def entry_refused_def io_bind_def io_catch_def io_lift_def forced_delete_def Let_def)

text \<open>
  An operation after the creation: it creates nothing, and has asked for the removal of the container
  exactly if it failed and containers are to be removed.
\<close>

definition removing :: "('v, 'f) xworld \<Rightarrow> string \<Rightarrow> 'a xio \<Rightarrow> bool" where
  "removing w i m \<longleftrightarrow> (\<forall>h. \<exists>es. snd (m h) = h @ es \<and> creations es = [] \<and>
     deletions es = (if mac_removal_wanted w \<and> isl (fst (m h)) then {forced_delete i} else {}))"

lemma removing_bind:
  assumes "removing w i m" and "\<And>h x h'. m h = (Inr x, h') \<Longrightarrow> removing w i (k x)"
  shows "removing w i (io_bind m k)"
  unfolding removing_def
proof
  fix h
  obtain r h1 where m: "m h = (r, h1)" by fastforce
  obtain es where es: "h1 = h @ es" "creations es = []" "deletions es = (if mac_removal_wanted w \<and> isl r then {forced_delete i} else {})"
    using assms(1) m unfolding removing_def by (metis fst_conv snd_conv)
  show "\<exists>es. snd (io_bind m k h) = h @ es \<and> creations es = [] \<and>
     deletions es = (if mac_removal_wanted w \<and> isl (fst (io_bind m k h)) then {forced_delete i} else {})"
  proof (cases r)
    case (Inl e)
    with m es show ?thesis by (intro exI [of _ es]) (simp add: io_bind_def)
  next
    case (Inr x)
    obtain fs where "snd (k x h1) = h1 @ fs" "creations fs = []"
      "deletions fs = (if mac_removal_wanted w \<and> isl (fst (k x h1)) then {forced_delete i} else {})"
      using assms(2) m Inr unfolding removing_def by blast
    with m es Inr show ?thesis by (intro exI [of _ "es @ fs"]) (simp add: io_bind_def)
  qed
qed

lemma removing_ordinary: "never_fails m \<Longrightarrow> emits (\<lambda>e. \<not> is_lifecycle e) m \<Longrightarrow> removing w i m"
  unfolding removing_def never_fails_def emits_def using ordinary_lifecycle by (metis sum.disc(2))

lemma deletion_simps [simp]:
  "creations [XpcSend (forced_delete i)] = []" "deletions [XpcSend (forced_delete i)] = {forced_delete i}"
  "creations [SetStop k] = []" "deletions [SetStop k] = {}"
  by (simp_all add: creations_def deletions_def forced_delete_def)

text \<open>An operation whose removals are known whatever its outcome.\<close>

definition asks :: "'a xio \<Rightarrow> message set \<Rightarrow> bool" where
  "asks m D \<longleftrightarrow> (\<forall>h. \<exists>es. snd (m h) = h @ es \<and> creations es = [] \<and> deletions es = D)"

lemma asks_bind:
  assumes "never_fails m" and "asks m D" and "\<And>h x h'. m h = (Inr x, h') \<Longrightarrow> asks (k x) (E x)" and "\<And>x. D \<union> E x = F"
  shows "asks (io_bind m k) F"
  unfolding asks_def
proof
  fix h
  obtain x h1 where m: "m h = (Inr x, h1)" using assms(1) unfolding never_fails_def by (metis prod.collapse)
  obtain es where es: "h1 = h @ es" "creations es = []" "deletions es = D" using assms(2) m unfolding asks_def by (metis snd_conv)
  obtain fs where "snd (k x h1) = h1 @ fs" "creations fs = []" "deletions fs = E x" using assms(3) [OF m] unfolding asks_def by blast
  with m es assms(4) show "\<exists>es. snd (io_bind m k h) = h @ es \<and> creations es = [] \<and> deletions es = F"
    by (intro exI [of _ "es @ fs"]) (simp add: io_bind_def)
qed

lemma asks_nothing: "emits (\<lambda>e. \<not> is_lifecycle e) m \<Longrightarrow> asks m {}"
  unfolding asks_def emits_def using ordinary_lifecycle by metis

lemma asks_lift: "asks (io_lift r) {}"
  by (rule asks_nothing [OF emits_lift])

lemma asks_catch: "asks m D \<Longrightarrow> asks (io_catch m) D"
  unfolding asks_def io_catch_def by (simp add: split_beta)

lemma asks_remove:
  assumes "reachable w" and "is_valid_container_id i"
  shows "asks (xpc_remove_blocking w i True) {forced_delete i}" and "asks (xpc_remove w i True) {forced_delete i}"
  using removal_sent [OF assms] unfolding asks_def xpc_remove_def by (metis deletion_simps(1,2) snd_conv)+

lemma asks_ignore: "asks m D \<Longrightarrow> asks (io_bind (io_catch m) (\<lambda>_. io_lift r)) D"
  by (rule asks_bind [OF never_fails_catch(1) asks_catch asks_lift]) simp_all

lemma asks_if: "asks m D \<Longrightarrow> asks m' E \<Longrightarrow> asks (if b then m else m') (if b then D else E)"
  by simp

lemma asks_rollback:
  assumes "reachable w" and "is_valid_container_id i"
  shows "asks (mac_rollback_remove w i) (if mac_removal_wanted w then {forced_delete i} else {})"
  unfolding mac_rollback_remove_def by (intro asks_if asks_ignore asks_remove assms asks_lift)

lemma asks_stop: "never_fails (mac_stop_log_delivery c)" "asks (mac_stop_log_delivery c) {}"
  using never_fails_catch(2) asks_nothing [OF ordinary.emits_new(2)] by (simp_all only: mac_stop_log_delivery_def)

lemma asks_close: "never_fails (close_log_fds source)" "asks (close_log_fds source) {}"
proof -
  show "never_fails (close_log_fds source)" by (rule never_fails_close)
  show "asks (close_log_fds source) {}" by (rule asks_nothing [OF ordinary.emits_close])
qed

lemma asks_drop:
  assumes "reachable w" and "is_valid_container_id (mac_id c)"
  shows "asks (mac_drop w c) (if mac_dropped c \<or> \<not> mac_removal_wanted w then {} else {forced_delete (mac_id c)})"
  unfolding mac_drop_def
  by (rule asks_bind [OF asks_stop], rule asks_bind [OF asks_close], rule asks_if [OF asks_lift asks_ignore [OF asks_remove(1) [OF assms]]])
    simp_all

lemma never_fails_drop: "never_fails (mac_drop w c)"
  unfolding mac_drop_def by (intro never_fails_if never_fails_intros asks_stop asks_close)

lemma asks_remove_then_drop:
  assumes "reachable w" and "is_valid_container_id (mac_id c)" and "asks remove {forced_delete (mac_id c)}"
  shows "asks (mac_remove_then_drop remove w c) {forced_delete (mac_id c)}"
proof -
  let ?D = "\<lambda>r. if mac_removal_wanted w \<and> isl r \<and> \<not> mac_dropped c then {forced_delete (mac_id c)} else {}"
  have "asks (mac_drop w (case r of Inr _ \<Rightarrow> c\<lparr>mac_dropped := True\<rparr> | Inl _ \<Rightarrow> c)) (?D r)" for r :: "unit result"
    using asks_drop [OF assms(1,2)] asks_drop [of w "c\<lparr>mac_dropped := True\<rparr>"] assms(1,2) by (cases r) auto
  then have "asks (io_bind (mac_drop w (case r of Inr _ \<Rightarrow> c\<lparr>mac_dropped := True\<rparr> | Inl _ \<Rightarrow> c)) (\<lambda>_. io_lift r)) (?D r)" for r :: "unit result"
    by (rule asks_bind [OF never_fails_drop _ asks_lift]) simp
  then show ?thesis unfolding mac_remove_then_drop_def
    by (intro asks_bind [OF asks_stop] asks_bind [OF never_fails_catch(1) asks_catch [OF assms(3)]])
      (assumption, simp_all split: if_split)
qed

lemma asks_rm:
  assumes "reachable w" and "is_valid_container_id (mac_id c)"
  shows "asks (mac_rm w c) {forced_delete (mac_id c)}" and "asks (mac_rm_blocking w c) {forced_delete (mac_id c)}"
  unfolding mac_rm_def mac_rm_blocking_def by (intro asks_remove_then_drop asks_remove assms)+

lemma asks_cleanup:
  assumes "reachable w" and "is_valid_container_id (mac_id c)"
  shows "asks (mac_cleanup_on_ready_failure w c e) (if mac_removal_wanted w then {forced_delete (mac_id c)} else {})"
proof -
  have "asks (mac_drop w c) {}" if "\<not> mac_removal_wanted w" using asks_drop [OF assms] that by simp
  then have "asks (if mac_removal_wanted w then io_bind (io_catch (mac_rm w c)) (\<lambda>_. io_lift (Inr ())) else mac_drop w c)
     (if mac_removal_wanted w then {forced_delete (mac_id c)} else {})"
    using asks_ignore [OF asks_rm(1) [OF assms]] by (cases "mac_removal_wanted w") (simp_all only: if_True if_False not_False_eq_True)
  moreover have "never_fails (if mac_removal_wanted w then io_bind (io_catch (mac_rm w c)) (\<lambda>_. io_lift (Inr ())) else mac_drop w c)"
    by (intro never_fails_if never_fails_intros never_fails_drop)
  ultimately show ?thesis unfolding mac_cleanup_on_ready_failure_def by (intro asks_bind [OF _ _ asks_lift]) simp_all
qed

lemma removing_failing:
  assumes "asks m (if mac_removal_wanted w then {forced_delete i} else {})" and "\<And>h. isl (fst (m h))"
  shows "removing w i m"
  using assms unfolding asks_def removing_def by simp

text \<open>Recovering from a failure with an operation that asks for the removal.\<close>

lemma removing_recover:
  assumes "emits (\<lambda>e. \<not> is_lifecycle e) m"
    and "\<And>e. asks (recover e) (if mac_removal_wanted w then {forced_delete i} else {})" "\<And>e h. isl (fst (recover e h))"
    and "\<And>x. removing w i (k x)"
  shows "removing w i (io_bind (io_catch m) (\<lambda>r. case r of Inl e \<Rightarrow> recover e | Inr x \<Rightarrow> k x))"
proof (rule removing_bind)
  show "removing w i (io_catch m)" using assms(1) by (intro removing_ordinary never_fails_catch emits_catch)
  fix r show "removing w i (case r of Inl e \<Rightarrow> recover e | Inr x \<Rightarrow> k x)"
    using removing_failing [OF assms(2,3)] assms(4) by (cases r) simp_all
qed

lemma rollback_isl: "isl (fst (io_bind m (\<lambda>_. io_lift (Inl e)) h))"
  by (simp add: io_bind_def io_lift_def split: prod.split sum.split)

lemma asks_rollback_fail:
  assumes "reachable w" and "is_valid_container_id i"
  shows "asks (io_bind (mac_rollback_remove w i) (\<lambda>_. io_lift (Inl e))) (if mac_removal_wanted w then {forced_delete i} else {})"
  by (rule asks_bind [OF _ asks_rollback [OF assms] asks_lift])
    (simp_all only: mac_rollback_remove_def sup_bot.right_neutral, intro never_fails_if never_fails_intros)

lemma removing_or_rollback:
  assumes "reachable w" and "is_valid_container_id i" and "emits (\<lambda>e. \<not> is_lifecycle e) m"
  shows "removing w i (or_rollback w i m)"
  unfolding or_rollback_def
  by (intro removing_recover assms(3) asks_rollback_fail [OF assms(1,2)] rollback_isl removing_ordinary never_fails_intros emits_lift)

lemma removing_or_cleanup:
  assumes "reachable w" and "is_valid_container_id (mac_id c)" and "emits (\<lambda>e. \<not> is_lifecycle e) m"
  shows "removing w (mac_id c) (or_cleanup w c m)"
proof -
  have "isl (fst (mac_cleanup_on_ready_failure w c e h))" for e h unfolding mac_cleanup_on_ready_failure_def by (rule rollback_isl)
  then show ?thesis unfolding or_cleanup_def
    by (intro removing_recover assms(3) asks_cleanup [OF assms(1,2)] removing_ordinary never_fails_intros emits_lift)
qed

lemma removing_log_source:
  assumes "reachable w" and "is_valid_container_id i"
  shows "removing w i (mac_log_source_for w i conds)"
proof -
  let ?recover = "\<lambda>e. if ready_conditions_require_log conds then io_bind (mac_rollback_remove w i) (\<lambda>_. io_lift (Inl (log_fd_required_error e)))
     else io_lift (Inr NoLogFds)"
  have failed: "removing w i (?recover e)" for e
  proof (cases "ready_conditions_require_log conds")
    case True
    with removing_failing [OF asks_rollback_fail [OF assms] rollback_isl] show ?thesis by simp
  next
    case False
    have "removing w i (io_lift (Inr NoLogFds))" by (intro removing_ordinary never_fails_intros emits_lift)
    with False show ?thesis by simp
  qed
  have got: "removing w i (io_lift (Inr (LogFds out err)))" for out err by (intro removing_ordinary never_fails_intros emits_lift)
  have "removing w i (case r of Inr (out, err) \<Rightarrow> io_lift (Inr (LogFds out err)) | Inl e \<Rightarrow> ?recover e)" for r
    by (cases r) (simp_all only: sum.case failed got split: prod.split, simp)
  then show ?thesis unfolding mac_log_source_for_def
    by (rule removing_bind [OF removing_ordinary [OF never_fails_catch(1) emits_catch [OF ordinary.emits_logs]]])
qed

lemma removing_after_create:
  fixes req :: "'c container_request"
  assumes "reachable w" and "is_valid_container_id i"
  shows "removing w i (mac_after_create w rt env req i)"
proof -
  have watch: "removing w i (if b then io_event (RegisterWatchdog i) else io_lift (Inr ()))" for b
    by (intro removing_ordinary never_fails_if never_fails_intros emits_intros ordinary.quiet_watchdog)
  have waiter: "removing w i (io_event (SpawnExitWaiter i g))" for g
    by (intro removing_ordinary never_fails_intros emits_intros ordinary.quiet_waiter)
  have new: "removing w i (mac_container_new rt i req source)" for source
    by (intro removing_ordinary ordinary.emits_new) (metis never_fails_def new_container prod.collapse)
  note recover = removing_or_cleanup [OF assms(1)]
  have handle: "removing w i (io_bind (or_cleanup w c (apply_extra_hosts w rt c (cr_hosts req))) (\<lambda>_.
      mac_run_ready_sequence w rt c (startup_timeout req) (ready_conditions req)))" if "mac_id c = i" for c :: "'c mac_container"
    using recover [OF _ ordinary.emits_hosts, of c] recover [OF _ ordinary.emits_ready, of c] that assms(2)
    by (intro removing_bind) (simp_all add: mac_run_ready_sequence_def)
  show ?thesis unfolding mac_after_create_def
    by (rule removing_bind [OF watch], rule removing_bind [OF removing_or_rollback [OF assms ordinary.emits_start_up(1)]],
        rule removing_bind [OF removing_or_rollback [OF assms ordinary.emits_start_up(2)]],
        rule removing_bind [OF removing_or_rollback [OF assms ordinary.emits_copies]],
        rule removing_bind [OF waiter], rule removing_bind [OF removing_log_source [OF assms]], rule removing_bind [OF new], rule handle)
      (auto dest: new_container)
qed

definition create_message :: "('v, 'f) xworld \<Rightarrow> 'f container_cfg \<Rightarrow> u8 list \<Rightarrow> message" where
  "create_message w cfg kernel_bytes = \<lparr>msg_service = SERVICE_NAME, msg_route = ''containerCreate'',
     msg_entries = [(''containerConfig'', KvData (json_bytes w (container_cfg_json cfg))), (''kernel'', KvData kernel_bytes),
        (''containerOptions'', KvData (json_bytes w (create_opts_json False)))], msg_timeout = of_nat (min DEFAULT_TIMEOUT u64_max)\<rparr>"

lemma create_sent:
  assumes "reachable w"
  shows "\<exists>r. xpc_create_container w (container_cfg_json cfg) kernel_bytes h = (r, h @ [XpcSend (create_message w cfg kernel_bytes)])"
  using assms by (simp add: xpc_create_container_def call_def done_reply_def send_def send_with_timeout_def reachable_def connect_def
      has_nul_def entry_has_nul_def entry_refused_def io_bind_def io_lift_def create_message_def Let_def split: sum.split)

lemma prepared_id: "mac_prepare w env req i h = (Inr (cfg, kernel_bytes), h') \<Longrightarrow> cf_id cfg = i"
  by (auto simp: mac_prepare_def build_config_def io_bind_def rbind_def Let_def split: prod.splits sum.splits)

lemma create_rolled_back:
  assumes "reachable w" and "is_valid_container_id i"
  shows "\<exists>r es. or_rollback w i (xpc_create_container w (container_cfg_json cfg) kernel_bytes) h =
     (r, h @ XpcSend (create_message w cfg kernel_bytes) # es) \<and> creations es = [] \<and>
     deletions es = (if mac_removal_wanted w \<and> isl r then {forced_delete i} else {})"
proof -
  obtain r where create: "xpc_create_container w (container_cfg_json cfg) kernel_bytes h = (r, h @ [XpcSend (create_message w cfg kernel_bytes)])"
    using create_sent [OF assms(1)] by metis
  show ?thesis
  proof (cases r)
    case (Inl e)
    let ?fail = "io_bind (mac_rollback_remove w i) (\<lambda>_. io_lift (Inl e)) :: unit xio"
    obtain es where es: "snd (?fail (h @ [XpcSend (create_message w cfg kernel_bytes)])) = h @ [XpcSend (create_message w cfg kernel_bytes)] @ es"
      "creations es = []" "deletions es = (if mac_removal_wanted w then {forced_delete i} else {})"
      using asks_rollback_fail [OF assms, of e] unfolding asks_def by (metis append_assoc)
    have run: "or_rollback w i (xpc_create_container w (container_cfg_json cfg) kernel_bytes) h = ?fail (h @ [XpcSend (create_message w cfg kernel_bytes)])"
      using create Inl by (simp add: or_rollback_def io_bind_def io_catch_def)
    show ?thesis unfolding run using es rollback_isl [of "mac_rollback_remove w i" e "h @ [XpcSend (create_message w cfg kernel_bytes)]"]
      by (intro exI [of _ "fst (?fail (h @ [XpcSend (create_message w cfg kernel_bytes)]))"] exI [of _ es]) (auto simp: prod_eq_iff)
  next
    case (Inr u)
    with create show ?thesis by (intro exI [of _ "Inr u"] exI [of _ "[]"]) (simp add: or_rollback_def io_bind_def io_catch_def io_lift_def)
  qed
qed

lemma create_part:
  assumes "reachable w" and "is_valid_container_id i"
    and "io_bind (or_rollback w i (xpc_create_container w (container_cfg_json cfg) kernel_bytes)) (\<lambda>_. mac_after_create w rt env req i) h = (x, h')"
  shows "\<exists>es. h' = h @ es \<and> creations es = [create_message w cfg kernel_bytes] \<and>
     deletions es = (if mac_removal_wanted w \<and> isl x then {forced_delete i} else {})"
proof -
  let ?m = "create_message w cfg kernel_bytes"
  have m: "creations (XpcSend ?m # es) = ?m # creations es" "deletions (XpcSend ?m # es) = deletions es" for es
    by (simp_all add: creations_def deletions_def create_message_def)
  obtain r es where r: "or_rollback w i (xpc_create_container w (container_cfg_json cfg) kernel_bytes) h = (r, h @ XpcSend ?m # es)"
    "creations es = []" "deletions es = (if mac_removal_wanted w \<and> isl r then {forced_delete i} else {})"
    using create_rolled_back [OF assms(1,2)] by metis
  show ?thesis
  proof (cases r)
    case (Inl e)
    with r assms(3) m show ?thesis by (intro exI [of _ "XpcSend ?m # es"]) (auto simp: io_bind_def)
  next
    case (Inr u)
    then have run: "mac_after_create w rt env req i (h @ XpcSend ?m # es) = (x, h')" using r assms(3) by (simp add: io_bind_def)
    obtain fs where "h' = (h @ XpcSend ?m # es) @ fs" "creations fs = []" "deletions fs = (if mac_removal_wanted w \<and> isl x then {forced_delete i} else {})"
      using removing_after_create [OF assms(1,2)] run unfolding removing_def by (metis fst_conv snd_conv)
    with r Inr m show ?thesis by (intro exI [of _ "XpcSend ?m # es @ fs"]) simp
  qed
qed

section \<open>Properties\<close>

text \<open>
  C4. Handles on macOS leak no descriptor and no temporary file. A start that fails, at
  whatever point, has closed every descriptor and removed every temporary file it made, and one that
  succeeds leaves open exactly the log descriptors of the handle it returns. Starting a stopped
  container again exchanges the log descriptors of the handle for new ones, or keeps those it has if that
  fails, and dropping a handle closes them.
\<close>

theorem mac_start_owns:
  "(\<exists>es. snd (mac_runner_start w rt env req h) = h @ es \<and>
      opened es = released es + (case fst (mac_runner_start w rt env req h) of Inl _ \<Rightarrow> {#} | Inr c \<Rightarrow> log_resources (mac_log_source c))) \<and>
   (\<exists>es. snd (mac_container_start w rt c h) = h @ es \<and>
      log_resources (mac_log_source c) + opened es = released es + log_resources (mac_log_source (snd (fst (mac_container_start w rt c h))))) \<and>
   (\<exists>es. snd (mac_drop w c h) = h @ es \<and> log_resources (mac_log_source c) + opened es = released es)"
proof (intro conjI exchanging_start)
  show "\<exists>es. snd (mac_runner_start w rt env req h) = h @ es \<and>
      opened es = released es + (case fst (mac_runner_start w rt env req h) of Inl _ \<Rightarrow> {#} | Inr c \<Rightarrow> log_resources (mac_log_source c))"
    using owning_start [of w rt env req] unfolding owning_def by simp
  show "\<exists>es. snd (mac_drop w c h) = h @ es \<and> log_resources (mac_log_source c) + opened es = released es"
    using owning_drop [of c w] unfolding owning_def by (simp add: sum.case_eq_if)
qed

text \<open>
  C3. While the daemon can be reached, a start on macOS creates at most one container, under the name
  of the request if it has one, and asks for a removal exactly if it failed after asking for the creation and
  containers are to be removed: then it asks for the forced removal of this id. This includes a
  creation the daemon refused, even because a container of that name exists.
\<close>

theorem mac_start_no_leak:
  assumes "reachable w" and "mac_runner_start w rt env req h = (x, h')"
  shows "\<exists>i es. h' = h @ es \<and> (\<forall>n. cr_container_name req = Some n \<longrightarrow> i = n) \<and>
     (creations es = [] \<and> isl x \<or> (\<exists>cfg k. creations es = [create_message w cfg k] \<and> cf_id cfg = i)) \<and>
     deletions es = (if mac_removal_wanted w \<and> creations es \<noteq> [] \<and> isl x then {forced_delete i} else {})"
proof -
  have quit: ?thesis if "h' = h @ es" "list_all (\<lambda>e. \<not> is_lifecycle e) es" "isl x" "\<forall>n. cr_container_name req = Some n \<longrightarrow> i = n" for i es
    using that ordinary_lifecycle [OF that(2)] by (intro exI [of _ i] exI [of _ es]) simp
  show ?thesis
  proof (cases "cr_health_check req \<noteq> None")
    case True
    then show ?thesis using assms(2) by (intro quit [of "[]" "the (cr_container_name req)"]) (auto simp: mac_runner_start_def io_lift_def)
  next
    case False
    obtain i h1 where i: "mac_container_id w req h = (Inr i, h1)" "\<forall>n. cr_container_name req = Some n \<longrightarrow> i = n"
      by (cases "cr_container_name req") (auto simp: mac_container_id_def io_bind_def io_lift_def next_suffix_def)
    obtain es1 where es1: "h1 = h @ es1" "list_all (\<lambda>e. \<not> is_lifecycle e) es1" using emitsE [OF ordinary.emits_prepare(1) i(1)] .
    note start = assms(2) [unfolded mac_runner_start_def]
    show ?thesis
    proof (cases "mac_check_request w rt req i")
      case (Inl e)
      with start False i es1 show ?thesis by (intro quit [of es1 i]) (auto simp: io_bind_def io_lift_def)
    next
      case (Inr u)
      have valid: "is_valid_container_id i" using Inr by (auto simp: mac_check_request_def rbind_def split: if_splits)
      obtain p h2 where p: "mac_prepare w env req i h1 = (p, h2)" by fastforce
      obtain es2 where es2: "h2 = h1 @ es2" "list_all (\<lambda>e. \<not> is_lifecycle e) es2" using emitsE [OF ordinary.emits_prepare(2) p] .
      show ?thesis
      proof (cases p)
        case (Inl e)
        with start False i es1 es2 Inr p show ?thesis by (intro quit [of "es1 @ es2" i]) (auto simp: io_bind_def io_lift_def)
      next
        case (Inr ck)
        obtain cfg k where ck: "ck = (cfg, k)" by fastforce
        have run: "io_bind (or_rollback w i (xpc_create_container w (container_cfg_json cfg) k)) (\<lambda>_. mac_after_create w rt env req i) h2 = (x, h')"
          using start False i p Inr ck \<open>mac_check_request w rt req i = Inr u\<close> by (simp add: io_bind_def io_lift_def)
        obtain es3 where es3: "h' = h2 @ es3" "creations es3 = [create_message w cfg k]"
          "deletions es3 = (if mac_removal_wanted w \<and> isl x then {forced_delete i} else {})"
          using create_part [OF assms(1) valid run] by blast
        have "cf_id cfg = i" using prepared_id p Inr ck by blast
        with es1 es2 es3 i(2) ordinary_lifecycle [OF es1(2)] ordinary_lifecycle [OF es2(2)] show ?thesis
          by (intro exI [of _ i] exI [of _ "es1 @ es2 @ es3"]) auto
      qed
    qed
  qed
qed

text \<open>A daemon that has the image and the kernel but refuses to create the container.\<close>

definition sample_descriptor :: json where
  "sample_descriptor = JObj [(''mediaType'', JStr ''application/vnd.oci.image.config.v1+json''), (''digest'', JStr ''sha256:1'')]"

definition sample_images :: json where
  "sample_images = JArr [JObj [(''reference'', JStr ''docker.io/library/app:1''), (''descriptor'', sample_descriptor)]]"

definition sample_image_config :: json where
  "sample_image_config = JObj [(''config'', JObj [(''Cmd'', JArr [JStr ''serve''])])]"

definition refusing_reply :: "xevent list \<Rightarrow> message \<Rightarrow> raw_reply option" where
  "refusing_reply h m =
     (if msg_route m = ''imageList'' then Some (XpcDict [(''imageDescriptions'', XData (as_bytes (render sample_images)))])
      else if msg_route m = ''contentGet'' then Some (XpcDict [(''contentPath'', XString (as_bytes ''/blob''))])
      else if msg_route m = ''getDefaultKernel'' then Some (XpcDict [(''kernel'', XData [1])])
      else if msg_route m = ''containerCreate'' then Some (XpcErrorObject None)
      else Some (XpcDict []))"

definition refusing_world :: "(json, unit) xworld" where
  "refusing_world = sample_xworld\<lparr>xw_reply := refusing_reply, xw_read := (\<lambda>_ _. Inr (as_bytes (render sample_image_config)))\<rparr>"

definition mac_sample_env :: "unit mac_env" where
  "mac_sample_env = \<lparr>me_arch = ''aarch64'', me_free_ports = (\<lambda>_. sample_free_ports), me_now = (\<lambda>_. None), me_f64 = unit_f64, me_watchdog = True\<rparr>"

definition named_request :: "unit container_request" where
  "named_request = (request_of_image (image_default ''app'' ''1'' []))\<lparr>cr_container_name := Some ''db''\<rparr>"

lemma refusing_simps [simp]:
  "reachable refusing_world" "xw_json refusing_world = json_api" "xw_raw_text refusing_world = render" "xw_reply refusing_world = refusing_reply"
  "xw_read refusing_world h p = Inr (as_bytes (render sample_image_config))" "xw_connect refusing_world h s" "mac_removal_wanted refusing_world"
  by (simp_all add: reachable_def refusing_world_def sample_xworld_def mac_removal_wanted_def env_command_def)

lemma send_reachable:
  assumes "reachable w" and "\<not> has_nul route" and "list_all (\<lambda>(_, v). \<not> entry_has_nul v \<and> \<not> entry_refused w v) entries"
  shows "\<exists>m. send w conn route entries h = (reply_result w (xw_reply w h m), h @ [XpcSend m]) \<and> msg_route m = route"
proof -
  have "\<not> list_ex (\<lambda>(_, v). entry_has_nul v) entries" "\<not> list_ex (\<lambda>(_, v). entry_refused w v) entries"
    using assms(3) by (auto simp: list_all_iff list_ex_iff)
  with assms(1,2) show ?thesis by (simp add: send_def send_with_timeout_def reachable_def Let_def)
qed

lemma sample_texts:
  "from_utf8 (as_bytes (render sample_images)) = Some (render sample_images)" "as_bytes (render sample_images) \<noteq> []"
  "from_utf8 (as_bytes (render sample_image_config)) = Some (render sample_image_config)" "from_utf8 (as_bytes ''/blob'') = Some ''/blob''"
proof -
  have "utf8_valid (as_bytes (render sample_images))" "utf8_valid (as_bytes (render sample_image_config))" "utf8_valid (as_bytes ''/blob'')"
    by (simp_all add: sample_images_def sample_descriptor_def sample_image_config_def str_simps escape_json_def escape_json_value_def escape_char_def)
  then show "from_utf8 (as_bytes (render sample_images)) = Some (render sample_images)"
    "from_utf8 (as_bytes (render sample_image_config)) = Some (render sample_image_config)" "from_utf8 (as_bytes ''/blob'') = Some ''/blob''"
    by (simp_all only: from_utf8_def if_True as_string_as_bytes)
  show "as_bytes (render sample_images) \<noteq> []" by (simp add: sample_images_def str_simps)
qed

lemma refusing_answer:
  assumes "\<And>m. msg_route m = route \<Longrightarrow> reply_result refusing_world (refusing_reply h m) = r"
    and "\<not> has_nul route" and "list_all (\<lambda>(_, v). \<not> entry_has_nul v \<and> \<not> entry_refused refusing_world v) entries"
  shows "\<exists>h'. send refusing_world conn route entries h = (r, h')"
  using send_reachable [OF refusing_simps(1) assms(2,3), of conn h] assms(1) by auto

lemmas answer_eval = reply_result_def refusing_reply_def reply_json_error_def reply_data_def ERROR_KEY_def has_nul_def entry_has_nul_def entry_refused_def

lemma refusing_image: "\<exists>h'. xpc_resolve_image_descriptor refusing_world ''app:1'' h = (Inr (render sample_descriptor), h')"
proof -
  let ?reply = "XpcDict [(''imageDescriptions'', XData (as_bytes (render sample_images)))]"
  obtain h' where send: "send refusing_world IMAGE_SERVICE ''imageList'' [] h = (Inr ?reply, h')"
    using refusing_answer [of "''imageList''" h "Inr ?reply" "[]"] by (auto simp: answer_eval)
  have data: "data_or_empty (reply_data ?reply ''imageDescriptions'') = as_bytes (render sample_images)"
    using sample_texts(2) by (cases "as_bytes (render sample_images)") (simp_all add: reply_data_def data_or_empty_def)
  have "match_image_descriptor refusing_world (as_bytes (render sample_images)) ''app:1'' = Inr (render sample_descriptor)"
    using sample_texts(1,2) by (simp add: match_image_descriptor_def ok_or_def)
      (simp add: sample_images_def member_opt_string_def required_member_def ok_or_def normalize_image_reference_def str_simps)
  with send data show ?thesis by (simp add: xpc_resolve_image_descriptor_def call_def connect_def io_bind_def io_lift_def)
qed

lemma refusing_content: "\<exists>h'. xpc_content_get refusing_world ''sha256:1'' h = (Inr (as_bytes (render sample_image_config)), h')"
proof -
  let ?reply = "XpcDict [(''contentPath'', XString (as_bytes ''/blob''))]"
  obtain h' where "send refusing_world IMAGE_SERVICE ''contentGet'' [(''digest'', KvString ''sha256:1'')] h = (Inr ?reply, h')"
    using refusing_answer [of "''contentGet''" h "Inr ?reply" "[(''digest'', KvString ''sha256:1'')]"] by (auto simp: answer_eval)
  then show ?thesis using sample_texts(4)
    by (simp add: xpc_content_get_def call_def connect_def io_bind_def reply_string_def del: str_simps)
qed

lemma refusing_kernel: "\<exists>h'. get_default_kernel refusing_world h = (Inr [1], h')"
proof -
  let ?reply = "XpcDict [(''kernel'', XData [1])]" and ?es = "[(''systemPlatform'', KvData (oci_platform_json refusing_world ''arm64''))]"
  obtain h' where "send refusing_world SERVICE_NAME ''getDefaultKernel'' ?es h = (Inr ?reply, h')"
    using refusing_answer [of "''getDefaultKernel''" h "Inr ?reply" ?es] by (auto simp: answer_eval)
  then show ?thesis by (simp add: get_default_kernel_def call_def connect_def io_bind_def io_lift_def reply_data_def ok_or_def)
qed

lemma refusing_config:
  "\<exists>h'. resolve_image_config json_api arch (xpc_content_get refusing_world) (render sample_descriptor) None h =
     (Inr \<lparr>ic_entrypoint = None, ic_cmd = Some [''serve'']\<rparr>, h')"
proof -
  have "parse_descriptor json_api (render sample_descriptor) =
     Inr \<lparr>desc_media_type = ''application/vnd.oci.image.config.v1+json'', desc_digest = ''sha256:1''\<rparr>"
    by (simp add: parse_descriptor_def json_error_def) (simp add: sample_descriptor_def required_string_def required_member_def ok_or_def)
  moreover have "parse_image_config json_api (as_bytes (render sample_image_config)) = Inr \<lparr>ic_entrypoint = None, ic_cmd = Some [''serve'']\<rparr>"
    using sample_texts(3) by (simp add: parse_image_config_def parse_document_def json_error_def ok_or_def)
      (simp add: sample_image_config_def optional_member_def required_member_def string_array_def ok_or_def)
  moreover obtain h' where "xpc_content_get refusing_world ''sha256:1'' h = (Inr (as_bytes (render sample_image_config)), h')"
    using refusing_content by blast
  ultimately show ?thesis by (simp add: resolve_image_config_def is_index_type_def is_manifest_type_def io_bind_def io_lift_def)
qed

lemma refusing_prepares: "\<exists>cfg k h'. mac_prepare refusing_world mac_sample_env named_request ''db'' h = (Inr (cfg, k), h')"
proof -
  have req: "normalize_platform (cr_platform named_request) = (''arm64'', False, None)" "descriptor named_request = ''app:1''"
    "cr_kernel named_request = None" "volume_names named_request = []" "cr_ports named_request = None" "cr_user named_request = None"
    "img_entrypoint (cr_image named_request) = None" "request_cmd named_request = []" "img_expose_ports (cr_image named_request) = []"
    by (simp_all add: named_request_def request_of_image_def normalize_platform_def image_default_def descriptor_def volume_names_def
        mounts_def request_cmd_def unwrap_or_def)
  obtain h1 where h1: "xpc_resolve_image_descriptor refusing_world ''app:1'' h = (Inr (render sample_descriptor), h1)" using refusing_image by blast
  obtain h2 where h2: "resolve_image_config json_api ''aarch64'' (xpc_content_get refusing_world) (render sample_descriptor) None h1 =
     (Inr \<lparr>ic_entrypoint = None, ic_cmd = Some [''serve'']\<rparr>, h2)" using refusing_config by blast
  obtain h3 where h3: "get_default_kernel refusing_world h2 = (Inr [1], h3)" using refusing_kernel by blast
  have "\<exists>cfg. build_config sample_free_ports unit_f64 None named_request ''db'' (render sample_descriptor)
     \<lparr>ic_entrypoint = None, ic_cmd = Some [''serve'']\<rparr> [] = Inr cfg"
    by (simp add: build_config_def effective_command_def req reject_sctp_ports_def published_ports_def unwrap_or_def parse_user_def)
  with h1 h2 h3 show ?thesis
    by (auto simp: mac_prepare_def req resolve_or_pull_macos_def resolve_volumes_def mac_sample_env_def io_bind_def io_catch_def io_lift_def)
qed

lemma refusing_start:
  "\<exists>e h'. mac_runner_start refusing_world rt mac_sample_env named_request [] = (Inl e, h') \<and> creations h' \<noteq> []"
proof -
  obtain cfg k h1 where p: "mac_prepare refusing_world mac_sample_env named_request ''db'' [] = (Inr (cfg, k), h1)" using refusing_prepares by blast
  have check: "mac_check_request refusing_world rt named_request ''db'' = Inr ()"
    by (simp add: mac_check_request_def named_request_def request_of_image_def image_default_def reject_sctp_ports_def is_valid_container_id_def
        is_ascii_alphanumeric_def less_eq_char_def)
  have req: "cr_health_check named_request = None" "cr_container_name named_request = Some ''db''"
    by (simp_all add: named_request_def request_of_image_def)
  let ?create = "xpc_create_container refusing_world (container_cfg_json cfg) k"
  have valid: "is_valid_container_id ''db''" by (simp add: is_valid_container_id_def is_ascii_alphanumeric_def less_eq_char_def)
  obtain e h2 where refused: "?create h1 = (Inl e, h2)"
    using refusing_answer [of "''containerCreate''" h1 "Inl (Client (Xpc []))" "[(''containerConfig'', KvData (json_bytes refusing_world (container_cfg_json cfg))),
        (''kernel'', KvData k), (''containerOptions'', KvData (json_bytes refusing_world (create_opts_json False)))]" SERVICE_NAME]
    by (auto simp: answer_eval or_empty_def xpc_create_container_def call_def done_reply_def connect_def io_bind_def)
  then have "isl (fst (or_rollback refusing_world ''db'' ?create h1))"
    using rollback_isl [of "mac_rollback_remove refusing_world ''db''" e h2]
    by (simp add: or_rollback_def io_bind_def [of "io_catch _"] io_catch_def)
  then obtain e' h3 where rolled: "or_rollback refusing_world ''db'' ?create h1 = (Inl e', h3)"
    by (cases "or_rollback refusing_world ''db'' ?create h1") (auto simp: isl_def)
  have "creations h3 \<noteq> []"
    using create_rolled_back [OF refusing_simps(1) valid, of cfg k h1] rolled by (auto simp: creations_def create_message_def sent_to_append)
  with p check req rolled show ?thesis by (auto simp: mac_runner_start_def mac_container_id_def io_bind_def io_lift_def)
qed

theorem mac_start_no_leak_witness:
  "\<forall>rt. \<exists>e es. mac_runner_start refusing_world rt mac_sample_env named_request [] = (Inl e, es) \<and> deletions es = {forced_delete ''db''}"
proof
  fix rt
  obtain e h' where run: "mac_runner_start refusing_world rt mac_sample_env named_request [] = (Inl e, h')" "creations h' \<noteq> []"
    using refusing_start by blast
  have "cr_container_name named_request = Some ''db''" by (simp add: named_request_def)
  with mac_start_no_leak [OF refusing_simps(1) run(1)] run
  show "\<exists>e es. mac_runner_start refusing_world rt mac_sample_env named_request [] = (Inl e, es) \<and> deletions es = {forced_delete ''db''}" by auto
qed

end
