(* ===== verification/Blocking.thy ===== *)
theory Blocking
  imports Log_Access Fd_Readers Mac_Facts
begin

text \<open>
  The blocking interface: \<open>SyncRunner\<close> of \<open>src/runners/sync_runner.rs\<close>, \<open>Container\<close> and
  \<open>SyncExecResult\<close> of \<open>src/core/containers/sync_container.rs\<close>. Every operation runs the
  asynchronous one on a runtime that all containers of the process share, and that goes away with the last of them.
  The operations are given for both platforms by what the asynchronous handle offers there.
\<close>

section \<open>Runtimes\<close>

text \<open>
  The runtimes of this library and those of its users. A thread is in the context of at most one,
  \<open>Handle::try_current\<close>. \<open>sr_strong\<close> counts the strong references to a runtime, \<open>sr_weak\<close> is the weak
  reference in \<open>ASYNC_RUNTIME\<close>.
\<close>

datatype runtime_id = SharedRt nat | ForeignRt nat

type_synonym thread_context = "runtime_id option"

record shared_runtimes =
  sr_weak :: "nat option"
  sr_strong :: "nat \<Rightarrow> nat"
  sr_made :: nat

definition no_runtimes :: shared_runtimes where
  "no_runtimes = \<lparr>sr_weak = None, sr_strong = (\<lambda>_. 0), sr_made = 0\<rparr>"

text \<open>A call that does not return has panicked, or waits forever.\<close>

datatype 'a call_outcome = Returns 'a | Panics | Hangs

fun outcome_bind :: "'a call_outcome \<Rightarrow> ('a \<Rightarrow> 'b call_outcome) \<Rightarrow> 'b call_outcome" where
  "outcome_bind (Returns x) k = k x"
| "outcome_bind Panics k = Panics"
| "outcome_bind Hangs k = Hangs"

text \<open>A future, given what happened so far: its output, or \<open>None\<close> if it is never ready.\<close>

type_synonym ('e, 'o) future = "'e list \<Rightarrow> ('o \<times> 'e list) option"

definition ready :: "('e list \<Rightarrow> 'o \<times> 'e list) \<Rightarrow> ('e, 'o) future" where
  "ready m = (\<lambda>h. Some (m h))"

text \<open>
  What a call finds: the context of its thread, whether the mutex is poisoned, and whether a runtime
  can be built.
\<close>

record sync_env =
  se_context :: thread_context
  se_poisoned :: "string option"
  se_build_error :: "string option"

definition runtime_upgrade :: "shared_runtimes \<Rightarrow> nat option" where
  "runtime_upgrade s = (case sr_weak s of None \<Rightarrow> None | Some r \<Rightarrow> if sr_strong s r = 0 then None else Some r)"

definition shared_runtime :: "sync_env \<Rightarrow> shared_runtimes \<Rightarrow> nat result \<times> shared_runtimes" where
  "shared_runtime env s =
     (case se_poisoned env of
        Some m \<Rightarrow> (Inl (Other (''sync-runner runtime mutex poisoned: '' @ m)), s)
      | None \<Rightarrow>
          (case runtime_upgrade s of
             Some r \<Rightarrow> (Inr r, s\<lparr>sr_strong := (sr_strong s)(r := sr_strong s r + 1)\<rparr>)
           | None \<Rightarrow>
               (case se_build_error env of
                  Some m \<Rightarrow> (Inl (Other m), s)
                | None \<Rightarrow>
                    (Inr (sr_made s),
                     \<lparr>sr_weak = Some (sr_made s), sr_strong = (sr_strong s)(sr_made s := 1), sr_made = sr_made s + 1\<rparr>))))"

definition is_reentering_shared_runtime :: "thread_context \<Rightarrow> nat \<Rightarrow> bool" where
  "is_reentering_shared_runtime ctx r \<longleftrightarrow> ctx = Some (SharedRt r)"

text \<open>\<open>Runtime::block_on\<close> panics on a thread that is in the context of a runtime.\<close>

definition runtime_block_on :: "thread_context \<Rightarrow> ('e, 'o) future \<Rightarrow> 'e list \<Rightarrow> ('o \<times> 'e list) call_outcome" where
  "runtime_block_on ctx f h =
     (if ctx \<noteq> None then Panics else case f h of None \<Rightarrow> Hangs | Some x \<Rightarrow> Returns x)"

definition reentry_text :: string where
  "reentry_text = ''cannot call sync API from within the shared runtime context (LogConsumer callback or async context): this would deadlock''"

text \<open>
  \<open>unpolled\<close> is what it does to drop the future without polling it. A thread of its own is in no
  context.
\<close>

definition block_on_runtime ::
  "thread_context \<Rightarrow> nat \<Rightarrow> ('e, 'o) future \<Rightarrow> ('e list \<Rightarrow> 'e list) \<Rightarrow> 'e list \<Rightarrow> ('o result \<times> 'e list) call_outcome" where
  "block_on_runtime ctx r f unpolled h =
     (if is_reentering_shared_runtime ctx r then Returns (Inl (Other reentry_text), unpolled h)
      else outcome_bind (case ctx of Some _ \<Rightarrow> runtime_block_on None f h | None \<Rightarrow> runtime_block_on ctx f h)
             (\<lambda>(x, h'). Returns (Inr x, h')))"

text \<open>
  Dropping the last strong reference drops the runtime, which panics in the context of a runtime, and
  waits for its threads. A caller on one of those that waits for the drop on another thread waits forever.
\<close>

definition drop_reference :: "thread_context \<Rightarrow> nat \<Rightarrow> shared_runtimes \<Rightarrow> shared_runtimes call_outcome" where
  "drop_reference ctx r s =
     (if sr_strong s r = 1 \<and> ctx \<noteq> None then Panics
      else Returns (s\<lparr>sr_strong := (sr_strong s)(r := sr_strong s r - 1)\<rparr>))"

definition drop_shared_runtime :: "thread_context \<Rightarrow> nat \<Rightarrow> shared_runtimes \<Rightarrow> shared_runtimes call_outcome" where
  "drop_shared_runtime ctx r s =
     (case ctx of
        Some rt \<Rightarrow> if rt = SharedRt r \<and> sr_strong s r = 1 then Hangs else drop_reference None r s
      | None \<Rightarrow> drop_reference ctx r s)"


section \<open>Hosts\<close>

datatype host = HostAddr ip_addr | HostDomain string

definition host_parse :: "string \<Rightarrow> host" where
  "host_parse s = (case parse_ip_addr s of Inr ip \<Rightarrow> HostAddr ip | Inl _ \<Rightarrow> HostDomain s)"

fun host_text :: "host \<Rightarrow> string" where
  "host_text (HostAddr ip) = show_ip_addr ip"
| "host_text (HostDomain s) = s"


section \<open>Containers\<close>

text \<open>
  What the asynchronous handle offers, on either platform. The first argument of the operations that drop
  the handle says whether they run in the context of a runtime; \<open>'r\<close> is the type of its log readers, \<open>'a\<close>
  what a copied file is turned into.
\<close>

record ('h, 'e, 'r, 'a) async_handle =
  ah_id :: "'h \<Rightarrow> string"
  ah_stop_with_timeout :: "'h \<Rightarrow> int option \<Rightarrow> ('e, unit) effect"
  ah_is_running :: "'h \<Rightarrow> ('e, bool) effect"
  ah_exit_code :: "'h \<Rightarrow> ('e, int option) effect"
  ah_ports :: "'h \<Rightarrow> ('e, ports) effect"
  ah_host_port_ipv4 :: "'h \<Rightarrow> container_port \<Rightarrow> ('e, u16) effect"
  ah_host_port_ipv6 :: "'h \<Rightarrow> container_port \<Rightarrow> ('e, u16) effect"
  ah_log_to_vec :: "'h \<Rightarrow> log_source \<Rightarrow> ('e, u8 list result) future"
  ah_container_state :: "'h \<Rightarrow> ('e, container_state) effect"
  ah_log_reader :: "'h \<Rightarrow> log_source \<Rightarrow> bool \<Rightarrow> 'r"
  ah_start :: "'h \<Rightarrow> 'e list \<Rightarrow> (unit result \<times> 'h) \<times> 'e list"
  ah_exec :: "'h \<Rightarrow> exec_command \<Rightarrow> ('e, docker_exec_result) effect"
  ah_bridge_ip_address :: "'h \<Rightarrow> ('e, ip_addr) effect"
  ah_copy_file_from :: "'h \<Rightarrow> string \<Rightarrow> (u8 list \<Rightarrow> copy_from_container_error + 'a) \<Rightarrow> ('e, 'a) effect"
  ah_rm :: "bool \<Rightarrow> 'h \<Rightarrow> ('e, unit) effect"
  ah_rm_blocking :: "bool \<Rightarrow> 'h \<Rightarrow> ('e, unit) effect"
  ah_drop :: "bool \<Rightarrow> 'h \<Rightarrow> ('e, unit) effect"

record 'h sync_container =
  sc_runtime :: "nat option"
  sc_inner :: "'h option"

definition sync_container_new :: "nat \<Rightarrow> 'h \<Rightarrow> 'h sync_container" where
  "sync_container_new r c = \<lparr>sc_runtime = Some r, sc_inner = Some c\<rparr>"

text \<open>\<open>expect\<close> panics.\<close>

definition the_or_panic :: "'a option \<Rightarrow> 'a call_outcome" where
  "the_or_panic x = (case x of Some y \<Rightarrow> Returns y | None \<Rightarrow> Panics)"

type_synonym ('e, 'a) blocking = "'e list \<Rightarrow> ('a result \<times> 'e list) call_outcome"

text \<open>\<open>block_on_runtime(self.runtime(), self.inner().operation(..))?\<close>\<close>

definition sync_future :: "sync_env \<Rightarrow> 'h sync_container \<Rightarrow> ('h \<Rightarrow> ('e, 'a result) future) \<Rightarrow> ('e, 'a) blocking" where
  "sync_future env c operation h =
     outcome_bind (the_or_panic (sc_runtime c)) (\<lambda>r.
     outcome_bind (the_or_panic (sc_inner c)) (\<lambda>inner.
     outcome_bind (block_on_runtime (se_context env) r (operation inner) (\<lambda>h. h) h) (\<lambda>(x, h').
     Returns (rbind x (\<lambda>y. y), h'))))"

definition sync_call :: "sync_env \<Rightarrow> 'h sync_container \<Rightarrow> ('h \<Rightarrow> ('e, 'a) effect) \<Rightarrow> ('e, 'a) blocking" where
  "sync_call env c operation = sync_future env c (\<lambda>inner. ready (operation inner))"

definition sync_id :: "('h, 'e, 'r, 'a) async_handle \<Rightarrow> 'h sync_container \<Rightarrow> string call_outcome" where
  "sync_id ah c = outcome_bind (the_or_panic (sc_inner c)) (\<lambda>inner. Returns (ah_id ah inner))"

definition sync_stop_with_timeout ::
  "('h, 'e, 'r, 'a) async_handle \<Rightarrow> sync_env \<Rightarrow> 'h sync_container \<Rightarrow> int option \<Rightarrow> ('e, unit) blocking" where
  "sync_stop_with_timeout ah env c t = sync_call env c (\<lambda>inner. ah_stop_with_timeout ah inner t)"

definition sync_stop ::
  "('h, 'e, 'r, 'a) async_handle \<Rightarrow> sync_env \<Rightarrow> 'h sync_container \<Rightarrow> ('e, unit) blocking" where
  "sync_stop ah env c = sync_stop_with_timeout ah env c None"

definition sync_is_running ::
  "('h, 'e, 'r, 'a) async_handle \<Rightarrow> sync_env \<Rightarrow> 'h sync_container \<Rightarrow> ('e, bool) blocking" where
  "sync_is_running ah env c = sync_call env c (ah_is_running ah)"

definition sync_exit_code ::
  "('h, 'e, 'r, 'a) async_handle \<Rightarrow> sync_env \<Rightarrow> 'h sync_container \<Rightarrow> ('e, int option) blocking" where
  "sync_exit_code ah env c = sync_call env c (ah_exit_code ah)"

definition sync_ports ::
  "('h, 'e, 'r, 'a) async_handle \<Rightarrow> sync_env \<Rightarrow> 'h sync_container \<Rightarrow> ('e, ports) blocking" where
  "sync_ports ah env c = sync_call env c (ah_ports ah)"

definition sync_get_host_port_ipv4 ::
  "('h, 'e, 'r, 'a) async_handle \<Rightarrow> sync_env \<Rightarrow> 'h sync_container \<Rightarrow> container_port \<Rightarrow> ('e, u16) blocking" where
  "sync_get_host_port_ipv4 ah env c p = sync_call env c (\<lambda>inner. ah_host_port_ipv4 ah inner p)"

definition sync_get_host_port_ipv6 ::
  "('h, 'e, 'r, 'a) async_handle \<Rightarrow> sync_env \<Rightarrow> 'h sync_container \<Rightarrow> container_port \<Rightarrow> ('e, u16) blocking" where
  "sync_get_host_port_ipv6 ah env c p = sync_call env c (\<lambda>inner. ah_host_port_ipv6 ah inner p)"

definition sync_log_to_vec ::
  "('h, 'e, 'r, 'a) async_handle \<Rightarrow> sync_env \<Rightarrow> 'h sync_container \<Rightarrow> log_source \<Rightarrow> ('e, u8 list) blocking" where
  "sync_log_to_vec ah env c src = sync_future env c (\<lambda>inner. ah_log_to_vec ah inner src)"

definition sync_container_state ::
  "('h, 'e, 'r, 'a) async_handle \<Rightarrow> sync_env \<Rightarrow> 'h sync_container \<Rightarrow> ('e, container_state) blocking" where
  "sync_container_state ah env c = sync_call env c (ah_container_state ah)"

definition sync_get_bridge_ip_address ::
  "('h, 'e, 'r, 'a) async_handle \<Rightarrow> sync_env \<Rightarrow> 'h sync_container \<Rightarrow> ('e, ip_addr) blocking" where
  "sync_get_bridge_ip_address ah env c = sync_call env c (ah_bridge_ip_address ah)"

definition sync_get_host ::
  "sync_env \<Rightarrow> 'h sync_container \<Rightarrow> ('e, host) blocking" where
  "sync_get_host env c = sync_call env c (\<lambda>_. io_lift (Inr (host_parse get_host)))"

definition sync_copy_file_from ::
  "('h, 'e, 'r, 'a) async_handle \<Rightarrow> sync_env \<Rightarrow> 'h sync_container \<Rightarrow> string \<Rightarrow> (u8 list \<Rightarrow> copy_from_container_error + 'a) \<Rightarrow> ('e, 'a) blocking" where
  "sync_copy_file_from ah env c source target = sync_call env c (\<lambda>inner. ah_copy_file_from ah inner source target)"

definition sync_exec ::
  "('h, 'e, 'r, 'a) async_handle \<Rightarrow> sync_env \<Rightarrow> 'h sync_container \<Rightarrow> exec_command \<Rightarrow> ('e, exec_result) blocking" where
  "sync_exec ah env c cmd h =
     outcome_bind (sync_call env c (\<lambda>inner. ah_exec ah inner cmd) h) (\<lambda>(x, h').
     Returns (rbind x (\<lambda>raw. Inr (exec_result_of raw)), h'))"

text \<open>\<open>SyncExecResult\<close> wraps the result and reads its cursors.\<close>

definition sync_exec_exit_code :: "exec_result \<Rightarrow> int option result" where
  "sync_exec_exit_code r = Inr (ex_exit_code r)"

definition sync_exec_to_vec :: "log_source \<Rightarrow> exec_result \<Rightarrow> u8 list result \<times> exec_result" where
  "sync_exec_to_vec src r = (if src = SrcStdErr then exec_stderr_to_vec r else exec_stdout_to_vec r)"

text \<open>A restart changes the handle, also if it fails.\<close>

definition sync_container_start ::
  "('h, 'e, 'r, 'a) async_handle \<Rightarrow> sync_env \<Rightarrow> 'h sync_container \<Rightarrow> 'e list \<Rightarrow> ((unit result \<times> 'h sync_container) \<times> 'e list) call_outcome" where
  "sync_container_start ah env c h =
     outcome_bind (the_or_panic (sc_runtime c)) (\<lambda>r.
     outcome_bind (the_or_panic (sc_inner c)) (\<lambda>inner.
     outcome_bind (block_on_runtime (se_context env) r (ready (ah_start ah inner)) (\<lambda>h. h) h) (\<lambda>(x, h').
     Returns (case x of
                Inl e \<Rightarrow> ((Inl e, c), h')
              | Inr (y, inner') \<Rightarrow> ((y, c\<lparr>sc_inner := Some inner'\<rparr>), h')))))"

section \<open>Log readers\<close>

datatype 'r sync_reader = ReentryErrorReader | SyncReader 'r

definition sync_log_reader ::
  "('h, 'e, 'r, 'a) async_handle \<Rightarrow> sync_env \<Rightarrow> 'h sync_container \<Rightarrow> log_source \<Rightarrow> bool \<Rightarrow> 'r sync_reader call_outcome" where
  "sync_log_reader ah env c src follow =
     outcome_bind (the_or_panic (sc_runtime c)) (\<lambda>r.
     if is_reentering_shared_runtime (se_context env) r then Returns ReentryErrorReader
     else outcome_bind (the_or_panic (sc_inner c)) (\<lambda>inner. Returns (SyncReader (ah_log_reader ah inner src follow))))"

definition reentry_io_error :: io_error where
  "reentry_io_error = io_other
     (''cannot read sync log reader from within the shared runtime context '' @
      ''(LogConsumer callback or async context): this would deadlock'')"

text \<open>Every read of the reader of a re-entry is an error; the others read as their reader does.\<close>

definition sync_reader_fill :: "('r \<Rightarrow> (io_error + u8 list) \<times> 'r) \<Rightarrow> 'r sync_reader \<Rightarrow> (io_error + u8 list) \<times> 'r sync_reader" where
  "sync_reader_fill fill reader =
     (case reader of
        ReentryErrorReader \<Rightarrow> (Inl reentry_io_error, ReentryErrorReader)
      | SyncReader x \<Rightarrow> (case fill x of (bytes, x') \<Rightarrow> (bytes, SyncReader x')))"

section \<open>The end of a container\<close>

text \<open>\<open>Drop\<close>: first the handle, then the reference to the runtime.\<close>

definition sync_drop ::
  "('h, 'e, 'r, 'a) async_handle \<Rightarrow> sync_env \<Rightarrow> 'h sync_container \<Rightarrow> shared_runtimes \<Rightarrow> 'e list \<Rightarrow> (shared_runtimes \<times> 'e list) call_outcome" where
  "sync_drop ah env c s h =
     (let h' = (case sc_inner c of None \<Rightarrow> h | Some inner \<Rightarrow> snd (ah_drop ah (se_context env \<noteq> None) inner h))
      in case sc_runtime c of
           None \<Rightarrow> Returns (s, h')
         | Some r \<Rightarrow> outcome_bind (drop_shared_runtime (se_context env) r s) (\<lambda>s'. Returns (s', h')))"

text \<open>
  \<open>rm\<close> and \<open>rm_blocking\<close> take the handle out of the container, which is dropped when they return. The
  future of \<open>rm\<close> owns the handle: if it is not polled, the handle is dropped with it.
\<close>

definition sync_rm ::
  "('h, 'e, 'r, 'a) async_handle \<Rightarrow> sync_env \<Rightarrow> 'h sync_container \<Rightarrow> shared_runtimes \<Rightarrow> 'e list \<Rightarrow> (unit result \<times> shared_runtimes \<times> 'e list) call_outcome" where
  "sync_rm ah env c s h =
     outcome_bind
       (case sc_inner c of
          None \<Rightarrow> Returns (Inr (), h)
        | Some inner \<Rightarrow>
            outcome_bind (the_or_panic (sc_runtime c)) (\<lambda>r.
            outcome_bind (block_on_runtime (se_context env) r (ready (ah_rm ah True inner))
                (\<lambda>h. snd (ah_drop ah (se_context env \<noteq> None) inner h)) h) (\<lambda>(x, h').
            Returns (rbind x (\<lambda>y. y), h')))) (\<lambda>(x, h').
     outcome_bind (sync_drop ah env (c\<lparr>sc_inner := None\<rparr>) s h') (\<lambda>(s', h'').
     Returns (x, s', h'')))"

definition sync_rm_blocking ::
  "('h, 'e, 'r, 'a) async_handle \<Rightarrow> sync_env \<Rightarrow> 'h sync_container \<Rightarrow> shared_runtimes \<Rightarrow> 'e list \<Rightarrow> (unit result \<times> shared_runtimes \<times> 'e list) call_outcome" where
  "sync_rm_blocking ah env c s h =
     (let (x, h') = (case sc_inner c of None \<Rightarrow> (Inr (), h) | Some inner \<Rightarrow> ah_rm_blocking ah (se_context env \<noteq> None) inner h)
      in outcome_bind (sync_drop ah env (c\<lparr>sc_inner := None\<rparr>) s h') (\<lambda>(s', h''). Returns (x, s', h'')))"

section \<open>Runner\<close>

definition sync_start :: "('e, 'h result) future \<Rightarrow> sync_env \<Rightarrow> shared_runtimes \<Rightarrow> 'e list \<Rightarrow> ('h sync_container result \<times> shared_runtimes \<times> 'e list) call_outcome" where
  "sync_start start env s h =
     (case shared_runtime env s of
        (Inl e, s1) \<Rightarrow> Returns (Inl e, s1, h)
      | (Inr r, s1) \<Rightarrow>
          outcome_bind (block_on_runtime (se_context env) r start (\<lambda>h. h) h) (\<lambda>(x, h').
          case rbind x (\<lambda>y. y) of
            Inr c \<Rightarrow> Returns (Inr (sync_container_new r c), s1, h')
          | Inl e \<Rightarrow> outcome_bind (drop_shared_runtime (se_context env) r s1) (\<lambda>s2. Returns (Inl e, s2, h'))))"

definition sync_pull_image :: "('e, 'q) effect \<Rightarrow> sync_env \<Rightarrow> shared_runtimes \<Rightarrow> 'e list \<Rightarrow> ('q result \<times> shared_runtimes \<times> 'e list) call_outcome" where
  "sync_pull_image pull env s h =
     (case shared_runtime env s of
        (Inl e, s1) \<Rightarrow> Returns (Inl e, s1, h)
      | (Inr r, s1) \<Rightarrow>
          outcome_bind (block_on_runtime (se_context env) r (ready pull) (\<lambda>h. h) h) (\<lambda>(x, h').
          outcome_bind (drop_shared_runtime (se_context env) r s1) (\<lambda>s2.
          Returns (rbind x (\<lambda>y. y), s2, h'))))"

section \<open>The two platforms\<close>

text \<open>
  The operations run on the shared runtime, so in the context of a runtime. \<open>rx\<close>, \<open>room\<close> and
  \<open>files\<close> are what the readers of complete logs find.
\<close>

definition linux_handle ::
  "'v world \<Rightarrow> runtime \<Rightarrow> (event list \<Rightarrow> nat \<Rightarrow> oneshot_rx) \<Rightarrow> (event list \<Rightarrow> nat \<Rightarrow> nat) \<Rightarrow> ('c container, event, linux_log_reader, 'a) async_handle" where
  "linux_handle w rt rx room =
     \<lparr>ah_id = co_id, ah_stop_with_timeout = stop_with_timeout w, ah_is_running = is_running w,
      ah_exit_code = container_exit_code w rt, ah_ports = container_ports w,
      ah_host_port_ipv4 = get_host_port_ipv4 w, ah_host_port_ipv6 = get_host_port_ipv6 w,
      ah_log_to_vec = (\<lambda>c src h. map_option (\<lambda>x. (x, h)) (container_log_to_vec (rx h) (room h) c src)),
      ah_container_state = container_state_of w, ah_log_reader = container_log_reader,
      ah_start = container_start w (rt\<lparr>rt_in_runtime := True\<rparr>), ah_exec = container_exec w rt,
      ah_bridge_ip_address = (\<lambda>c. docker_bridge_ip_address w (co_id c)), ah_copy_file_from = copy_file_from w,
      ah_rm = (\<lambda>inside. container_rm w (rt\<lparr>rt_in_runtime := inside\<rparr>)),
      ah_rm_blocking = (\<lambda>inside. container_rm_blocking w (rt\<lparr>rt_in_runtime := inside\<rparr>)),
      ah_drop = (\<lambda>inside. drop_container w (rt\<lparr>rt_in_runtime := inside\<rparr>))\<rparr>"


text \<open>The start waits for the ready conditions, on Linux as long as it takes.\<close>

definition linux_start ::
  "'v world \<Rightarrow> runtime \<Rightarrow> 'c container_request \<Rightarrow> (event, 'c container result) future" where
  "linux_start w rt req h =
     (case runner_start w (rt\<lparr>rt_in_runtime := True\<rparr>) req h of
        (Inl e, h') \<Rightarrow> Some (Inl e, h')
      | (Inr c, h') \<Rightarrow> map_option (\<lambda>c. (Inr c, h')) c)"

section \<open>The life of a runtime\<close>

text \<open>
  The references in use, by running calls and by containers, while threads in any context acquire and
  release them in any order.
\<close>

inductive runtime_step :: "shared_runtimes \<times> nat list \<Rightarrow> shared_runtimes \<times> nat list \<Rightarrow> bool" where
  step_acquire: "shared_runtime env s = (Inr r, s') \<Longrightarrow> runtime_step (s, held) (s', r # held)"
| step_refused: "shared_runtime env s = (Inl e, s') \<Longrightarrow> runtime_step (s, held) (s', held)"
| step_release: "r \<in> set held \<Longrightarrow> drop_shared_runtime ctx r s = Returns s' \<Longrightarrow> runtime_step (s, held) (s', remove1 r held)"

definition runtime_inv :: "shared_runtimes \<times> nat list \<Rightarrow> bool" where
  "runtime_inv = (\<lambda>(s, held).
     sr_strong s = count_list held \<and> set held \<subseteq> set_option (sr_weak s))"

lemma count_list_remove1: "count_list (remove1 x xs) y = (if x = y then count_list xs y - 1 else count_list xs y)"
  by (induction xs) (auto simp: count_list_0_iff)

lemma count_list_pos: "0 < count_list xs x \<longleftrightarrow> x \<in> set xs"
  using count_list_0_iff [of xs x] by auto

lemma shared_runtime_inv:
  assumes "runtime_inv (s, held)" and "shared_runtime env s = (x, s')"
  shows "runtime_inv (s', case x of Inl _ \<Rightarrow> held | Inr r \<Rightarrow> r # held)"
proof (cases "runtime_upgrade s")
  case (Some r)
  then have weak: "sr_weak s = Some r" "sr_strong s r \<noteq> 0" by (auto simp: runtime_upgrade_def split: option.splits if_splits)
  then have "count_list held r \<noteq> 0" using assms(1) by (simp add: runtime_inv_def)
  then have "r \<in> set held" by (simp add: count_list_0_iff)
  moreover have "(\<exists>e. x = Inl e \<and> s' = s) \<or> (x = Inr r \<and> s' = s\<lparr>sr_strong := (sr_strong s)(r := sr_strong s r + 1)\<rparr>)"
    using assms(2) Some by (cases "se_poisoned env") (auto simp: shared_runtime_def)
  ultimately show ?thesis using assms(1) weak(1) by (auto simp: runtime_inv_def fun_eq_iff)
next
  case None
  have "held = []"
  proof (rule ccontr)
    assume "held \<noteq> []"
    then obtain r where "r \<in> set held" by (meson ex_in_conv set_empty)
    then have "sr_weak s = Some r" "sr_strong s r \<noteq> 0" using assms(1) count_list_0_iff [of held r] by (auto simp: runtime_inv_def)
    with None show False by (simp add: runtime_upgrade_def)
  qed
  moreover have "(\<exists>e. x = Inl e \<and> s' = s) \<or>
      (x = Inr (sr_made s) \<and> s' = \<lparr>sr_weak = Some (sr_made s), sr_strong = (sr_strong s)(sr_made s := 1), sr_made = sr_made s + 1\<rparr>)"
    using assms(2) None by (cases "se_poisoned env"; cases "se_build_error env") (auto simp: shared_runtime_def)
  ultimately show ?thesis using assms(1) by (auto simp: runtime_inv_def fun_eq_iff)
qed

lemma drop_shared_runtime_cases:
  "drop_shared_runtime ctx r s =
     (if ctx = Some (SharedRt r) \<and> sr_strong s r = 1 then Hangs
      else Returns (s\<lparr>sr_strong := (sr_strong s)(r := sr_strong s r - 1)\<rparr>))"
  by (auto simp: drop_shared_runtime_def drop_reference_def split: option.split)

lemma drop_shared_runtime_inv:
  assumes "runtime_inv (s, held)" and "r \<in> set held" and "drop_shared_runtime ctx r s = Returns s'"
  shows "runtime_inv (s', remove1 r held)"
  using assms set_remove1_subset [of r held]
  by (auto simp: runtime_inv_def drop_shared_runtime_cases count_list_remove1 fun_eq_iff split: if_splits)

lemma runtime_inv_step: "runtime_step p q \<Longrightarrow> runtime_inv p \<Longrightarrow> runtime_inv q"
proof (induction rule: runtime_step.induct)
  case (step_acquire env s r s' held)
  with shared_runtime_inv [of s held env "Inr r" s'] show ?case by simp
next
  case (step_refused env s e s' held)
  with shared_runtime_inv [of s held env "Inl e" s'] show ?case by simp
next
  case (step_release r held ctx s s')
  with drop_shared_runtime_inv [of s held r ctx s'] show ?case by simp
qed

lemma runtime_inv_steps: "runtime_step\<^sup>*\<^sup>* p q \<Longrightarrow> runtime_inv p \<Longrightarrow> runtime_inv q"
  by (induction rule: rtranclp_induct) (auto intro: runtime_inv_step)

lemma runtime_inv_init: "runtime_inv (no_runtimes, [])"
  by (simp add: runtime_inv_def no_runtimes_def fun_eq_iff)

section \<open>Operations as steps\<close>

lemma block_on_runtime_cases:
  "block_on_runtime ctx r f unpolled h =
     (if is_reentering_shared_runtime ctx r then Returns (Inl (Other reentry_text), unpolled h)
      else case f h of None \<Rightarrow> Hangs | Some (x, h') \<Rightarrow> Returns (Inr x, h'))"
  by (auto simp: block_on_runtime_def runtime_block_on_def split: option.splits)

lemma outcome_bind_Returns: "outcome_bind m k = Returns y \<longleftrightarrow> (\<exists>x. m = Returns x \<and> k x = Returns y)"
  by (cases m) simp_all

lemma outcome_bind_Panics: "outcome_bind m k = Panics \<longleftrightarrow> m = Panics \<or> (\<exists>x. m = Returns x \<and> k x = Panics)"
  by (cases m) simp_all

lemma block_on_not_Panics: "block_on_runtime ctx r f unpolled h \<noteq> Panics"
  by (auto simp: block_on_runtime_cases split: option.splits)

lemma drop_not_Panics: "drop_shared_runtime ctx r s \<noteq> Panics"
  by (simp add: drop_shared_runtime_cases)

text \<open>A start leaves one more reference if it gives a container, and none otherwise.\<close>

lemma sync_start_cases:
  assumes "sync_start start env s h = Returns (x, s', h')"
  obtains (refused) e where "x = Inl e" "shared_runtime env s = (Inl e, s')"
  | (started) r c where "x = Inr (sync_container_new r c)" "shared_runtime env s = (Inr r, s')"
  | (failed) e r s1 where "x = Inl e" "shared_runtime env s = (Inr r, s1)" "drop_shared_runtime (se_context env) r s1 = Returns s'"
proof (cases "shared_runtime env s")
  case (Pair y s1)
  show thesis
  proof (cases y)
    case (Inl e)
    with Pair assms refused show thesis by (auto simp: sync_start_def)
  next
    case (Inr r)
    obtain z h1 where "(case rbind z (\<lambda>y. y) of
            Inr c \<Rightarrow> Returns (Inr (sync_container_new r c), s1, h1)
          | Inl e \<Rightarrow> outcome_bind (drop_shared_runtime (se_context env) r s1) (\<lambda>s2. Returns (Inl e, s2, h1))) = Returns (x, s', h')"
      using Pair Inr assms by (auto simp: sync_start_def outcome_bind_Returns)
    with Pair Inr started failed show thesis by (cases "rbind z (\<lambda>y. y)") (auto simp: outcome_bind_Returns)
  qed
qed

lemma sync_start_steps:
  assumes "sync_start start env s h = Returns (x, s', h')"
  shows "runtime_step\<^sup>*\<^sup>* (s, held) (s', case x of Inl _ \<Rightarrow> held | Inr c \<Rightarrow> the (sc_runtime c) # held)"
  using assms
proof (cases rule: sync_start_cases)
  case refused
  then show ?thesis by (auto intro: step_refused)
next
  case started
  then show ?thesis by (auto simp: sync_container_new_def intro: step_acquire)
next
  case (failed e r s1)
  from step_release [OF _ this(3), of "r # held"] step_acquire [OF this(2), of held] this(1) show ?thesis by auto
qed

lemma sync_pull_steps:
  assumes "sync_pull_image pull env s h = Returns (x, s', h')"
  shows "runtime_step\<^sup>*\<^sup>* (s, held) (s', held)"
proof (cases "shared_runtime env s")
  case (Pair y s1)
  show ?thesis
  proof (cases y)
    case (Inl e)
    with Pair assms show ?thesis by (auto simp: sync_pull_image_def intro: step_refused)
  next
    case (Inr r)
    then have "drop_shared_runtime (se_context env) r s1 = Returns s'"
      using Pair assms by (auto simp: sync_pull_image_def outcome_bind_Returns)
    from step_release [OF _ this, of "r # held"] step_acquire [of env s r s1 held] Pair Inr show ?thesis by auto
  qed
qed

lemma sync_drop_steps:
  assumes "sync_drop ah env c s h = Returns (s', h')" and "sc_runtime c = Some r" and "r \<in> set held"
  shows "runtime_step\<^sup>*\<^sup>* (s, held) (s', remove1 r held)"
  using assms by (auto simp: sync_drop_def Let_def outcome_bind_Returns intro: step_release)

lemma sync_rm_steps:
  assumes "sync_rm ah env c s h = Returns (x, s', h') \<or> sync_rm_blocking ah env c s h = Returns (x, s', h')"
    and "sc_runtime c = Some r" and "r \<in> set held"
  shows "runtime_step\<^sup>*\<^sup>* (s, held) (s', remove1 r held)"
proof -
  obtain h1 h2 where "sync_drop ah env (c\<lparr>sc_inner := None\<rparr>) s h1 = Returns (s', h2)"
    using assms(1) by (auto simp: sync_rm_def sync_rm_blocking_def outcome_bind_Returns split: prod.splits)
  from sync_drop_steps [OF this _ assms(3)] assms(2) show ?thesis by simp
qed

section \<open>Removal through the blocking interface\<close>







section \<open>A process and its containers\<close>

text \<open>
  The containers of a process, as calls of the blocking interface that return make, change and
  consume them; the calls come from threads in any context, and the daemon does what it likes. The request
  that a pull gives back does not matter here.
\<close>

inductive sync_system :: "('h, 'e, 'r, 'a) async_handle \<Rightarrow> shared_runtimes \<Rightarrow> 'h sync_container list \<Rightarrow> bool" for ah where
  sys_none: "sync_system ah no_runtimes []"
| sys_start: "sync_system ah s cs \<Longrightarrow> sync_start start env s (h :: 'e list) = Returns (x, s', h') \<Longrightarrow>
    sync_system ah s' (case x of Inl _ \<Rightarrow> cs | Inr c \<Rightarrow> c # cs)"
| sys_pull: "sync_system ah s cs \<Longrightarrow> sync_pull_image (pull :: ('e, unit) effect) env s h = Returns (x, s', h') \<Longrightarrow> sync_system ah s' cs"
| sys_restart: "sync_system ah s cs \<Longrightarrow> c \<in> set cs \<Longrightarrow> sync_container_start ah env c h = Returns ((y, c'), h') \<Longrightarrow>
    sync_system ah s (c' # remove1 c cs)"
| sys_rm: "sync_system ah s cs \<Longrightarrow> c \<in> set cs \<Longrightarrow>
    sync_rm ah env c s h = Returns (x, s', h') \<or> sync_rm_blocking ah env c s h = Returns (x, s', h') \<Longrightarrow>
    sync_system ah s' (remove1 c cs)"
| sys_drop: "sync_system ah s cs \<Longrightarrow> c \<in> set cs \<Longrightarrow> sync_drop ah env c s h = Returns (s', h') \<Longrightarrow>
    sync_system ah s' (remove1 c cs)"

definition all_on :: "nat \<Rightarrow> 'h sync_container list \<Rightarrow> bool" where
  "all_on r cs \<longleftrightarrow> (\<forall>c \<in> set cs. \<exists>i. c = sync_container_new r i)"

lemma all_on_simps [simp]:
  "all_on r []" "all_on r (c # cs) \<longleftrightarrow> (\<exists>i. c = sync_container_new r i) \<and> all_on r cs"
  "all_on r cs \<Longrightarrow> all_on r (remove1 c cs)"
  using set_remove1_subset [of c cs] by (auto simp: all_on_def)

lemma all_on_runtime: "all_on r cs \<Longrightarrow> c \<in> set cs \<Longrightarrow> sc_runtime c = Some r"
  by (fastforce simp: all_on_def sync_container_new_def)

lemma restart_new:
  assumes "sync_container_start ah env (sync_container_new r i) h = Returns ((y, c'), h')"
  shows "\<exists>i'. c' = sync_container_new r i'"
proof -
  obtain x h1 where "block_on_runtime (se_context env) r (ready (ah_start ah i)) (\<lambda>h. h) h = Returns (x, h1)"
    and "(case x of Inl e \<Rightarrow> ((Inl e, sync_container_new r i), h1)
      | Inr (z, i') \<Rightarrow> ((z, (sync_container_new r i)\<lparr>sc_inner := Some i'\<rparr>), h1)) = ((y, c'), h')"
    using assms unfolding sync_container_start_def sync_container_new_def the_or_panic_def outcome_bind_Returns by auto
  then show ?thesis by (cases x) (auto simp: sync_container_new_def split: prod.splits)
qed

lemma count_list_same: "set xs = {x} \<Longrightarrow> count_list xs x = length xs"
proof -
  have "set xs \<subseteq> {x} \<Longrightarrow> count_list xs x = length xs" by (induction xs) auto
  then show "set xs = {x} \<Longrightarrow> count_list xs x = length xs" by simp
qed

lemma remove1_replicate: "remove1 r (replicate n r) = replicate (n - 1) r"
  by (cases n) simp_all

lemma released_inv:
  assumes "runtime_inv (s, replicate (length cs) r)" and "c \<in> set cs"
    and "\<And>held. r \<in> set held \<Longrightarrow> runtime_step\<^sup>*\<^sup>* (s, held) (s', remove1 r held)"
  shows "runtime_inv (s', replicate (length (remove1 c cs)) r)"
proof -
  have "cs \<noteq> []" using assms(2) by auto
  then show ?thesis using runtime_inv_steps [OF assms(3) assms(1)] assms(2) by (simp add: remove1_replicate length_remove1)
qed

lemma sync_system_inv: "sync_system ah s cs \<Longrightarrow> \<exists>r. all_on r cs \<and> runtime_inv (s, replicate (length cs) r)"
proof (induction rule: sync_system.induct)
  case sys_none
  show ?case using runtime_inv_init by simp
next
  case (sys_start s cs start env h x s' h')
  then obtain r where r: "all_on r cs" "runtime_inv (s, replicate (length cs) r)" by blast
  note inv = runtime_inv_steps [OF sync_start_steps [OF sys_start.hyps(2)] r(2)]
  show ?case
  proof (cases x)
    case (Inl e)
    with inv r show ?thesis by auto
  next
    case (Inr c)
    with sys_start.hyps(2) obtain q i where c: "c = sync_container_new q i" by (auto elim: sync_start_cases)
    with inv Inr have inv': "runtime_inv (s', q # replicate (length cs) r)" by (simp add: sync_container_new_def)
    then have "cs = [] \<or> q = r" by (cases cs) (auto simp: runtime_inv_def)
    then have "all_on q cs" "replicate (length cs) r = replicate (length cs) q" using r(1) by auto
    with inv' Inr c show ?thesis by (intro exI [of _ q]) auto
  qed
next
  case (sys_pull s cs pull env h x s' h')
  then show ?case using runtime_inv_steps [OF sync_pull_steps] by blast
next
  case (sys_restart s cs c env h y c' h')
  then obtain r where r: "all_on r cs" "runtime_inv (s, replicate (length cs) r)" by blast
  obtain i where "c = sync_container_new r i" using r(1) sys_restart.hyps(2) unfolding all_on_def by blast
  then have "\<exists>i'. c' = sync_container_new r i'" using sys_restart.hyps(3) restart_new by metis
  then have "all_on r (c' # remove1 c cs)" using r(1) by simp
  moreover have "length (c' # remove1 c cs) = length cs" using length_pos_if_in_set [OF sys_restart.hyps(2)] sys_restart.hyps(2) by (simp add: length_remove1)
  ultimately show ?case using r(2) by (intro exI [of _ r]) (simp only: simp_thms)
next
  case (sys_rm s cs c env h x s' h')
  then obtain r where r: "all_on r cs" "runtime_inv (s, replicate (length cs) r)" "sc_runtime c = Some r"
    using all_on_runtime by blast
  from released_inv [OF r(2) sys_rm.hyps(2) sync_rm_steps [OF sys_rm.hyps(3) r(3)]] r(1) show ?case by (blast intro: all_on_simps(3))
next
  case (sys_drop s cs c env h s' h')
  then obtain r where r: "all_on r cs" "runtime_inv (s, replicate (length cs) r)" "sc_runtime c = Some r"
    using all_on_runtime by blast
  from released_inv [OF r(2) sys_drop.hyps(2) sync_drop_steps [OF sys_drop.hyps(3) r(3)]] r(1) show ?case by (blast intro: all_on_simps(3))
qed

lemma not_Panics:
  "sync_start start env s h \<noteq> Panics" "sync_pull_image pull env s h \<noteq> Panics"
  "sync_future env (sync_container_new r i) f h \<noteq> Panics" "sync_container_start ah env (sync_container_new r i) h \<noteq> Panics"
  "sync_log_reader ah env (sync_container_new r i) src follow \<noteq> Panics"
  "sync_drop ah env (sync_container_new r i) s h \<noteq> Panics" "sync_rm ah env (sync_container_new r i) s h \<noteq> Panics"
  "sync_rm_blocking ah env (sync_container_new r i) s h \<noteq> Panics"
  by (auto simp: block_on_not_Panics drop_not_Panics sync_start_def sync_pull_image_def sync_future_def sync_container_start_def sync_log_reader_def sync_drop_def sync_rm_def
      sync_rm_blocking_def sync_container_new_def the_or_panic_def Let_def outcome_bind_Panics split: prod.splits sum.splits)

text \<open>A blocking start on Linux gives the container the asynchronous one gives.\<close>

lemma blocking_start_agrees:
  assumes "shared_runtime env s = (Inr r, s1)" and "se_context env \<noteq> Some (SharedRt r)"
    and "runner_start w (rt\<lparr>rt_in_runtime := True\<rparr>) req h = (Inr (Some c), h')"
  shows "sync_start (linux_start w rt req) env s h = Returns (Inr (sync_container_new r c), s1, h')"
  using assms by (simp add: sync_start_def linux_start_def block_on_runtime_cases is_reentering_shared_runtime_def)

lemma host_reads_back:
  "host_parse (host_text (HostAddr (V4 a b c d))) = HostAddr (V4 a b c d)"
  "host_text (host_parse get_host) = get_host"
  using parse_show_ipv4 by (simp_all add: host_parse_def get_host_def parse_ip_addr_def read_ip_addr_def read_ipv4_addr_def read_octet_def
      read_number_radix_def to_digit_def read_ipv6_addr_def read_groups.simps read_separator_def)

section \<open>Properties\<close>

text \<open>
  C11. The shared runtime is counted right while threads in any context take and release references
  in any order: the count of a runtime is the number of references in use, so it is dropped with the last of
  them; all of them are to one runtime, which is the one the next call gets. Releasing one never panics, and
  waits forever exactly if it is the last one and is released by a thread of that runtime.
\<close>

theorem shared_runtime_counted:
  assumes "runtime_step\<^sup>*\<^sup>* (no_runtimes, []) (s, held)"
  shows "sr_strong s = count_list held \<and>
     (\<forall>r \<in> set held. set held = {r} \<and> (se_poisoned env = None \<longrightarrow> fst (shared_runtime env s) = Inr r) \<and>
        drop_shared_runtime ctx r s \<noteq> Panics \<and>
        (drop_shared_runtime ctx r s = Hangs \<longleftrightarrow> held = [r] \<and> ctx = Some (SharedRt r)))"
proof -
  have inv: "sr_strong s = count_list held" "set held \<subseteq> set_option (sr_weak s)"
    using runtime_inv_steps [OF assms runtime_inv_init] by (simp_all add: runtime_inv_def)
  have "set held = {r} \<and> (se_poisoned env = None \<longrightarrow> fst (shared_runtime env s) = Inr r) \<and>
      drop_shared_runtime ctx r s \<noteq> Panics \<and>
      (drop_shared_runtime ctx r s = Hangs \<longleftrightarrow> held = [r] \<and> ctx = Some (SharedRt r))" if r: "r \<in> set held" for r
  proof -
    have weak: "sr_weak s = Some r" using inv(2) r by auto
    then have all: "set held = {r}" using inv(2) r by auto
    have "count_list held r = length held" by (rule count_list_same [OF all])
    moreover have "held = [r] \<longleftrightarrow> length held = 1" using all by (cases held) auto
    moreover have "sr_strong s r \<noteq> 0" using r inv(1) by (simp add: count_list_0_iff)
    ultimately show ?thesis using all weak inv(1)
      by (auto simp: shared_runtime_def runtime_upgrade_def drop_shared_runtime_cases)
  qed
  with inv(1) show ?thesis by blast
qed

theorem shared_runtime_counted_witness:
  "\<exists>s held. runtime_step\<^sup>*\<^sup>* (no_runtimes, []) (s, held) \<and> sr_strong s 0 = 2 \<and>
     drop_shared_runtime (Some (SharedRt 0)) 0 s \<noteq> Hangs"
proof -
  let ?env = "\<lparr>se_context = None, se_poisoned = None, se_build_error = None\<rparr>"
  let ?s = "snd (shared_runtime ?env (snd (shared_runtime ?env no_runtimes)))"
  have run: "shared_runtime ?env no_runtimes = (Inr 0, snd (shared_runtime ?env no_runtimes))"
    "shared_runtime ?env (snd (shared_runtime ?env no_runtimes)) = (Inr 0, ?s)"
    by (simp_all add: shared_runtime_def runtime_upgrade_def no_runtimes_def)
  have reach: "runtime_step\<^sup>*\<^sup>* (no_runtimes, []) (?s, [0, 0])"
    using step_acquire [OF run(1)] step_acquire [OF run(2)] by (meson converse_rtranclp_into_rtranclp r_into_rtranclp)
  from shared_runtime_counted [OF reach, of ?env "Some (SharedRt 0)"] reach show ?thesis by (intro exI [of _ ?s] exI [of _ "[0, 0]"]) simp
qed

text \<open>
  C12. Whatever calls a process makes, all its live containers hold the one shared runtime, whose count
  is their number, and no other is alive; without containers none is. No call of the blocking
  interface panics, from whatever thread, with any of the live containers.
\<close>

theorem blocking_containers_share_runtime:
  assumes "sync_system ah s cs"
  shows "\<exists>r. (\<forall>c \<in> set cs. sc_runtime c = Some r \<and> sc_inner c \<noteq> None) \<and> sr_strong s = (\<lambda>q. if q = r then length cs else 0) \<and>
     sync_start start env s h \<noteq> Panics \<and> sync_pull_image pull env s h \<noteq> Panics \<and>
     (\<forall>c \<in> set cs. sync_future env c f h \<noteq> Panics \<and> sync_container_start ah env c h \<noteq> Panics \<and>
        sync_log_reader ah env c src follow \<noteq> Panics \<and> sync_rm ah env c s h \<noteq> Panics \<and>
        sync_rm_blocking ah env c s h \<noteq> Panics \<and> sync_drop ah env c s h \<noteq> Panics)"
proof -
  obtain r where r: "all_on r cs" "runtime_inv (s, replicate (length cs) r)" using sync_system_inv [OF assms] by blast
  have "count_list (replicate n r) q = (if q = r then n else 0)" for n q by (induction n) auto
  then have count: "sr_strong s = (\<lambda>q. if q = r then length cs else 0)" using r(2) by (simp add: runtime_inv_def fun_eq_iff)
  have "c = sync_container_new r (the (sc_inner c))" if "c \<in> set cs" for c
    using r(1) that by (auto simp: all_on_def sync_container_new_def)
  then have new: "sc_runtime c = Some r" "sc_inner c \<noteq> None" "\<exists>i. c = sync_container_new r i" if "c \<in> set cs" for c
    using that by (metis (no_types) option.distinct(1) sync_container.select_convs sync_container_new_def)+
  have "sync_future env c f h \<noteq> Panics \<and> sync_container_start ah env c h \<noteq> Panics \<and>
        sync_log_reader ah env c src follow \<noteq> Panics \<and> sync_rm ah env c s h \<noteq> Panics \<and>
        sync_rm_blocking ah env c s h \<noteq> Panics \<and> sync_drop ah env c s h \<noteq> Panics" if "c \<in> set cs" for c
    using new(3) [OF that] by (auto simp: not_Panics)
  with count new(1,2) not_Panics(1,2) show ?thesis by (intro exI [of _ r] conjI ballI) simp_all
qed

theorem blocking_containers_share_runtime_witness:
  "\<exists>s c. sync_system (linux_handle starting_world sample_runtime (\<lambda>_ _. RxPending) (\<lambda>_ _. 1) :: (unit container, event, linux_log_reader, unit) async_handle) s [c] \<and>
     (\<exists>r. sc_runtime c = Some r \<and> sr_strong s r = 1)"
proof -
  let ?ah = "linux_handle starting_world sample_runtime (\<lambda>_ _. RxPending) (\<lambda>_ _. 1) :: (unit container, event, linux_log_reader, unit) async_handle"
  let ?env = "\<lparr>se_context = None, se_poisoned = None, se_build_error = None\<rparr>"
  let ?inner = "container_new ''c'' plain_request new_wait_state NoLogs None"
  let ?s = "snd (shared_runtime ?env no_runtimes)" and ?c = "sync_container_new 0 ?inner"
  have "sync_start (\<lambda>h. Some (Inr ?inner, h)) ?env no_runtimes [] = Returns (Inr ?c, ?s, [])"
    by (simp add: sync_start_def shared_runtime_def runtime_upgrade_def no_runtimes_def block_on_runtime_cases is_reentering_shared_runtime_def)
  from sys_start [OF sys_none this, of ?ah] have sys: "sync_system ?ah ?s [?c]" by simp
  from blocking_containers_share_runtime [OF sys] obtain r where
    "\<forall>c \<in> set [?c]. sc_runtime c = Some r \<and> sc_inner c \<noteq> None" "sr_strong ?s = (\<lambda>q. if q = r then length [?c] else 0)" by blast
  then have "sc_runtime ?c = Some r" "sr_strong ?s r = 1" by simp_all
  with sys show ?thesis by blast
qed



end
