(* ===== verification/Spec2Isabelle.thy ===== *)
theory Spec2Isabelle
  imports Ports Errors Log_Wait Docker_Tar Runner Http_Decode Image_Config Watchdog Blocking
begin

text \<open>
  A verification of \<^verbatim>\<open>container-rs\<close>, a library that starts containers for tests: on Linux through
  the HTTP interface of the Docker daemon, on macOS through Apple's container daemon.

  \<^bold>\<open>The program.\<close> A user describes an image (\<open>Image\<close>, \<open>GenericImage\<close>), turns it into a
  \<open>ContainerRequest\<close> with the builders of \<open>ImageExt\<close>, and starts it with
  \<open>AsyncRunner::start\<close>. The runner checks the request, resolves or pulls the image, creates the
  container, copies files into it, starts it, begins to read its logs, watches for its exit code, and
  waits for the ready conditions. The result is a handle (\<open>ContainerAsync\<close>) that runs commands, reads
  logs, stops, restarts and removes the container, and removes it when it is dropped. Below the
  handle are the client of the daemon (\<open>DockerClient\<close>), the reader of the daemon's log stream, the
  tar archives of copies, and the texts of requests: JSON, percent encoding, image references,
  registry credentials. On macOS runner and handle use \<open>XpcClient\<close> instead, which exchanges messages and
  descriptors with Apple's daemon; the library resolves the command of an image and the ports of a container
  itself there, reads the logs from files, and can register its containers with a watchdog process.

  \<^bold>\<open>How it is modelled.\<close> Operations that reach outside are functions \<^typ>\<open>'a io\<close> of
  \<open>Docker_Client\<close>: from the list of events so far to a result, which is an error or a value, and
  the extended list. An event is a request to the daemon, a pause, the start of a thread or task. The
  daemon is a field of the record \<open>world\<close>, a function from the events so far and a
  request to an answer, so every theorem quantifies over all daemons, faults included. On macOS the operations
  are functions \<^typ>\<open>'a xio\<close> of \<open>Xpc_Conn\<close> in the same way, over events that include descriptors opened
  and closed and temporary files made and removed, in a record \<open>xworld\<close>. Code that
  is not in the repository is a parameter as well: the JSON parser
  (\<open>nojson\<close>), base64, the HTTP codec (\<open>shiguredo_http11\<close>), environment, files and host
  file system, clock and process id, and the answers of sockets. Bytes are 8-bit words, ports 16-bit words,
  generations 64-bit words; strings are lists of bytes read as characters.

  \<^bold>\<open>Theories and sources\<close> (paths under \<^verbatim>\<open>src/src/\<close>):
  \<^item> \<open>Prelude\<close>: results, bytes, UTF-8, decimal texts and the string functions of the standard library.
  \<^item> \<open>Ports\<close> (\<^verbatim>\<open>core/ports.rs\<close>): ports and port maps; the text form reads back.
  \<^item> \<open>Errors\<close> (\<^verbatim>\<open>core/error.rs\<close>, \<^verbatim>\<open>core/image.rs\<close>): the error types, their texts and conversions.
  \<^item> \<open>Log_Lines\<close> (\<^verbatim>\<open>core/logs/\<close>): the bounded line reader and the delivery to consumers. The byte
    source is a locale, interpreted for a source that hands out arbitrary pieces; the lines delivered
    are those written, however they are cut.
  \<^item> \<open>Log_Buffer\<close>, \<open>Log_Demux\<close>, \<open>Log_Session\<close> (\<^verbatim>\<open>core/client/docker_log_stream.rs\<close>): the shared
    buffer of a stream, the demultiplexer, the follow session, the one-shot fetch and the readers. The
    buffers hold the last 8 MiB of each stream; a reader under any interleaving sees a
    prefix; the race between end and last bytes, and the lost bytes of an oversize append, are
    shown as they are.
  \<^item> \<open>Log_Wait\<close> (\<^verbatim>\<open>core/wait/log_strategy.rs\<close>): the matcher over chunks and the wait for a message.
  \<^item> \<open>Docker_Tar\<close> (\<^verbatim>\<open>core/client/docker_tar.rs\<close>): the ustar writer and reader.
  \<^item> \<open>Env_Util\<close> (\<^verbatim>\<open>core/env.rs\<close>, \<^verbatim>\<open>core/util.rs\<close>, \<^verbatim>\<open>core/client.rs\<close>): environment lists, generated ids.
  \<^item> \<open>Json_Text\<close>, \<open>Nojson\<close>: the JSON and percent-encoded texts the client writes, with a reader that
    gives every text back; the interface of the JSON parser.
  \<^item> \<open>Mounts\<close> (\<^verbatim>\<open>core/mounts.rs\<close>, \<^verbatim>\<open>core/healthcheck.rs\<close>): mounts, sizes, health checks; what the
    builders can make is well formed.
  \<^item> \<open>Docker_Create\<close>, \<open>Registry_Auth\<close>, \<open>Docker_Client\<close> (\<^verbatim>\<open>core/client/\<close>): create and exec bodies,
    credentials, and every request of the client with its treatment of the answers.
  \<^item> \<open>Wait_Strategies\<close> (\<^verbatim>\<open>core/wait/\<close>): health, exit and HTTP waits and the loop over the conditions.
  \<^item> \<open>Container_Request\<close> (\<^verbatim>\<open>core/containers/request.rs\<close>, \<^verbatim>\<open>core/image/\<close>, \<^verbatim>\<open>images/generic.rs\<close>,
    \<open>build_container_config\<close> of \<^verbatim>\<open>runners/async_runner.rs\<close>): requests, their builders and the configuration
    made of them; the configuration of every request the builders can make is read back from
    its JSON, and the ports are published as asked.
  \<^item> \<open>Copy_In\<close> (\<open>copy_to_sources_linux\<close> of \<^verbatim>\<open>runners/async_runner.rs\<close>, \<^verbatim>\<open>core/copy.rs\<close>): target checks,
    the walk over a host directory and its archive.
  \<^item> \<open>Container_Async\<close> (\<^verbatim>\<open>core/containers/async_container.rs\<close>): the handle and its operations.
  \<^item> \<open>Io_Events\<close>: which events an operation can add. The locale \<open>container_events\<close> proves once, for
    any class of events that contains those of one container's use, that the operations
    stay inside it; it is interpreted for the requests that remove nothing, that pull nothing, that
    remove one container only, and for all events.
  \<^item> \<open>Lifecycle\<close>: removal, command conditions, and the exit code under every interleaving of restarts
    and waiting threads, as a step relation with an invariant.
  \<^item> \<open>Runner\<close> (\<^verbatim>\<open>runners/async_runner.rs\<close>): the start with its rollbacks; a failed start leaves no
    container behind, a start that succeeds has done every step in order.
  \<^item> \<open>Http_Decode\<close> (\<^verbatim>\<open>core/client/http_decode.rs\<close>, the exchanges of \<^verbatim>\<open>core/client/docker_client.rs\<close> and
    \<^verbatim>\<open>core/wait/http_strategy.rs\<close>): requests on the wire and the accumulation of responses; an answer is the
    final head with its complete body.
  \<^item> \<open>Net_Addr\<close>: IP addresses and the bridge address of a container.

  For macOS:
  \<^item> \<open>Image_Config\<close> (\<^verbatim>\<open>core/client/image_config.rs\<close>): the choice of the manifest of an image and its default
    command.
  \<^item> \<open>Exec_Readers\<close>, \<open>Xpc_Conn\<close>, \<open>Xpc_Client\<close> (\<^verbatim>\<open>core/client/xpc_client.rs\<close>, \<^verbatim>\<open>xpc/conn.rs\<close>): the readers of a
    process's output, messages and replies, and every operation of the client. \<open>Xpc_Facts\<close> tracks the ownership of descriptors through
    them and bounds their timeouts.
  \<^item> \<open>Container_Cfg\<close> (\<^verbatim>\<open>core/client/container_cfg.rs\<close>): the configuration of a container and its JSON; ports
    are allocated without a collision.
  \<^item> \<open>Mac_Container\<close>, \<open>Fd_Readers\<close> (\<^verbatim>\<open>core/containers/async_container.rs\<close>): the handle, and the readers of
    its log files with the tasks that deliver lines.
  \<^item> \<open>Mac_Runner\<close> (\<^verbatim>\<open>runners/async_runner.rs\<close>): the start. \<open>Mac_Events\<close>, \<open>Mac_Ownership\<close> and \<open>Mac_Facts\<close> show
    which events its parts can add, what it owns at every point, and what a failed start leaves behind: no descriptor,
    no temporary file, no container. The locales \<open>quiet_events\<close> and \<open>handle_events\<close> are the counterparts of
    \<open>container_events\<close>.
  \<^item> \<open>Watchdog\<close> (\<^verbatim>\<open>watchdog.rs\<close>): the registration of ids with reaper processes.

  For both:
  \<^item> \<open>Log_Access\<close> (\<^verbatim>\<open>core/containers/async_container.rs\<close>, \<^verbatim>\<open>core/containers/async_container/exec.rs\<close>): the log
    readers a handle gives on Linux, complete logs, and the output of a command, which is read once.
  \<^item> \<open>Blocking\<close> (\<^verbatim>\<open>runners/sync_runner.rs\<close>, \<^verbatim>\<open>core/containers/sync_container.rs\<close>, \<^verbatim>\<open>core/host.rs\<close>): the blocking interface over
    the asynchronous handle of either platform. The shared runtime and its references are a step relation with an
    invariant, the calls of a process a second one over the first: no call panics, and the runtime lives as
    long as its containers. The locale \<open>removable_handle\<close> holds what a blocking container needs of the handle it
    wraps; it is interpreted for the Linux and the macOS handle.

  \<^bold>\<open>Bounds and fuel.\<close> The loops over in-memory data are total. Polling waits take the number of polls
  that fit before the caller's timeout and give \<open>None\<close> when they are used up, which the callers
  turn into the timeout error; their theorems speak of the poll that decides, or of the result
  when there is one. The walk over a host directory takes the number of directories it may
  visit; \<open>copy_walk_terminates\<close> shows that the number of directories of the tree is enough. The readers of log files
  on macOS are partial functions over an endless sequence of reads: not returning is \<open>None\<close>, and their
  properties show when they return. Lists of
  answers of sockets that are too short stand for calls that never return. The generation
  counter has 64 bits; the statement about it is for fewer than \<open>2\<^sup>6\<^sup>4\<close> restarts.

  \<^bold>\<open>Not modelled.\<close> Module declarations, re-exports and trait declarations, which compute nothing; the test modules;
  logging and derived \<open>Debug\<close> output; the cancellation of a future between two of its steps; the C bridge to the system's
  XPC library and the crates the sources call, which are parameters. Poisoned mutexes appear only where the source
  turns them into an error.
\<close>

end
